(* ===== verification/IEC_Prelude.thy ===== *)
theory IEC_Prelude
  imports Main "HOL-Library.Word"
begin

text \<open>
  Shared vocabulary of the IEC bus development: the machine types of the
  Arduino sources (\<open>byte\<close>, \<open>uint16_t\<close>, \<open>uint32_t\<close> as words), the named
  lemma collections the component theories feed, and the bit-level facts
  about the receive shift register that several protocol theories share.
\<close>

unbundle bit_operations_syntax

type_synonym byte = "8 word"
type_synonym word16 = "16 word"
type_synonym word32 = "32 word"

named_theorems bus_simps "rewrite rules for the pin and timing primitives"
named_theorems flag_simps "evaluation of the flag masks"

section \<open>The receive shift register\<close>

text \<open>
  \<open>receiveIECByte\<close> (and, with the sampled level inverted, \<open>receiveEpyxByte\<close>)
  assembles a byte LSB first: \<^verbatim>\<open>data >>= 1; if( level ) data |= 0x80;\<close>.
\<close>

definition shift_in_msb :: "bool \<Rightarrow> byte \<Rightarrow> byte" where
  "shift_in_msb c x = drop_bit 1 x OR (if c then 0x80 else 0)"

text \<open>The bits of a byte in the order the serial protocol puts them on the wire.\<close>

definition lsb_bits :: "byte \<Rightarrow> bool list" where
  "lsb_bits b = map (bit b) [0..<8]"

lemma bit_byte_lt8: "bit (x::byte) n \<Longrightarrow> n < 8"
  using bit_imp_le_length[of x n] by simp

lemma less8_cases:
  "(n::nat) < 8 \<Longrightarrow> n = 0 \<or> n = 1 \<or> n = 2 \<or> n = 3 \<or> n = 4 \<or> n = 5 \<or> n = 6 \<or> n = 7"
  by arith

lemma bit_128_byte: "bit (128::byte) n \<longleftrightarrow> n = 7"
proof (cases "n < 8")
  case True
  then show ?thesis by (auto dest!: less8_cases)
next
  case False
  then show ?thesis by (auto dest: bit_byte_lt8)
qed

lemma bit_shift_in_msb:
  "bit (shift_in_msb c x) n \<longleftrightarrow> n < 8 \<and> (if n = 7 then c else bit x (Suc n))"
proof -
  have "bit (shift_in_msb c x) n \<longleftrightarrow> bit x (Suc n) \<or> (c \<and> bit (128::byte) n)"
    by (simp add: shift_in_msb_def bit_or_iff bit_drop_bit_eq)
  also have "\<dots> \<longleftrightarrow> n < 8 \<and> (if n = 7 then c else bit x (Suc n))"
    using bit_128_byte[of n] by (auto dest: bit_byte_lt8)
  finally show ?thesis .
qed

lemma bit_foldl_shift_in:
  "length cs \<le> 8 \<Longrightarrow> bit (foldl (\<lambda>x c. shift_in_msb c x) x cs) n \<longleftrightarrow>
     n < 8 \<and> (if 8 - length cs \<le> n then cs ! (n - (8 - length cs)) else bit x (n + length cs))"
proof (induction cs arbitrary: n rule: rev_induct)
  case Nil
  then show ?case by (auto dest: bit_byte_lt8)
next
  case (snoc c cs)
  let ?L = "length cs"
  have L: "?L \<le> 7" using snoc.prems by simp
  show ?case
  proof (cases "n < 7")
    case True
    have IH: "bit (foldl (\<lambda>x c. shift_in_msb c x) x cs) (Suc n) \<longleftrightarrow>
      Suc n < 8 \<and> (if 8 - ?L \<le> Suc n then cs ! (Suc n - (8 - ?L)) else bit x (Suc n + ?L))"
      using L by (intro snoc.IH) simp
    then show ?thesis using True L by (auto simp: bit_shift_in_msb nth_append)
  next
    case False
    then show ?thesis using L by (auto simp: bit_shift_in_msb nth_append)
  qed
qed

text \<open>Shifting in the eight bits of \<open>b\<close>, least significant first, yields \<open>b\<close>
  whatever the register held before.\<close>

lemma foldl_shift_in_lsb_bits: "foldl (\<lambda>x c. shift_in_msb c x) x (lsb_bits b) = b"
proof (rule bit_word_eqI)
  fix n assume "n < LENGTH(8)"
  then show "bit (foldl (\<lambda>x c. shift_in_msb c x) x (lsb_bits b)) n = bit b n"
    by (simp add: bit_foldl_shift_in lsb_bits_def)
qed

lemma length_lsb_bits [simp]: "length (lsb_bits b) = 8"
  by (simp add: lsb_bits_def)

text \<open>The transmit side shifts the other way: \<^verbatim>\<open>(data & 1)!=0; data >>= 1\<close>.\<close>

lemma drop_bit_and_one_byte: "(drop_bit i (d::byte) AND 1 \<noteq> 0) \<longleftrightarrow> bit d i"
  by (simp add: and_one_eq bit_iff_odd_drop_bit odd_iff_mod_2_eq_one)

lemma drop_bit_Suc_byte: "drop_bit 1 (drop_bit i (d::byte)) = drop_bit (Suc i) d"
  by (simp add: drop_bit_drop_bit)

lemma bit_list_shift: "bit d 0 # map (bit (drop_bit 1 d)) [0..<k] = map (bit (d::byte)) [0..<Suc k]"
proof (rule nth_equalityI)
  fix i assume "i < length (bit d 0 # map (bit (drop_bit 1 d)) [0..<k])"
  then show "(bit d 0 # map (bit (drop_bit 1 d)) [0..<k]) ! i = map (bit d) [0..<Suc k] ! i"
    by (cases i) (simp_all add: bit_drop_bit_eq nth_Cons' del: upt_Suc)
qed simp

section \<open>Flag words\<close>

text \<open>Equality of bytes and 16-bit words bit by bit: with \<open>flag_bits\<close> this decides
  the mask arithmetic on \<open>m_flags\<close> and \<open>m_sflags\<close>.\<close>

lemma byte_eq_bits: "(x::byte) = y \<longleftrightarrow> (\<forall>n\<in>{0,1,2,3,4,5,6,7::nat}. bit x n = bit y n)"
proof
  assume "\<forall>n\<in>{0,1,2,3,4,5,6,7::nat}. bit x n = bit y n"
  then show "x = y"
    by (intro bit_word_eqI) (auto simp: less_Suc_eq numeral_eq_Suc)
qed simp

lemma word16_eq_bits: "(x::word16) = y \<longleftrightarrow> (\<forall>n\<in>set [0..<16]. bit x n = bit y n)"
proof
  assume "\<forall>n\<in>set [0..<16]. bit x n = bit y n"
  then show "x = y"
    by (intro bit_word_eqI) simp
qed simp

lemmas flag_bits = bit_and_iff bit_or_iff bit_not_iff

section \<open>Counters\<close>

lemma unat_plus_one_less: "(x::'a::len word) < y \<Longrightarrow> unat (x + 1) = Suc (unat x)"
proof -
  assume "x < y"
  then have "unat x < unat y" by (simp add: word_less_nat_alt)
  moreover have "unat y < 2 ^ LENGTH('a)" by (rule unsigned_less)
  ultimately have "Suc (unat x) < 2 ^ LENGTH('a)" by linarith
  then show ?thesis using unat_add_lem[of x 1] by simp
qed

end
