(* ===== verification/IEC_Device.thy ===== *)
theory IEC_Device
  imports IEC_Prelude
begin

text \<open>
  The device side of the bus handler's interface. A device personality
  (\<open>IECDevice\<close>, whose header is not part of \<open>src/\<close>) carries its bus
  address \<open>m_devnr\<close> and the protocol flag word \<open>m_sflags\<close> that the handler
  reads and writes directly; everything else is reached through virtual
  methods. Here a device is a record of those two fields, the object's
  address \<open>oid\<close> (the \<open>IECDevice*\<close> the handler stores and compares) and a
  state of the concrete personality (type parameter \<open>'d\<close>); the virtual methods are
  a record of functions (the vtable) that the bus handler is parametric in.
  \<open>IECFileDevice\<close> instantiates it in theory \<open>File_Device\<close>.
\<close>

record 'd device =
  oid :: nat
  devnr :: byte
  sflags :: word16
  dev :: 'd

section \<open>Protocol flags of a device (\<open>S_...\<close> in IECBusHandler.cpp)\<close>

abbreviation (input) S_JIFFY_ENABLED :: word16 where "S_JIFFY_ENABLED \<equiv> 0x0001"
abbreviation (input) S_JIFFY_DETECTED :: word16 where "S_JIFFY_DETECTED \<equiv> 0x0002"
abbreviation (input) S_JIFFY_BLOCK :: word16 where "S_JIFFY_BLOCK \<equiv> 0x0004"
abbreviation (input) S_DOLPHIN_ENABLED :: word16 where "S_DOLPHIN_ENABLED \<equiv> 0x0008"
abbreviation (input) S_DOLPHIN_DETECTED :: word16 where "S_DOLPHIN_DETECTED \<equiv> 0x0010"
abbreviation (input) S_DOLPHIN_BURST_ENABLED :: word16 where "S_DOLPHIN_BURST_ENABLED \<equiv> 0x0020"
abbreviation (input) S_DOLPHIN_BURST_TRANSMIT :: word16 where "S_DOLPHIN_BURST_TRANSMIT \<equiv> 0x0040"
abbreviation (input) S_DOLPHIN_BURST_RECEIVE :: word16 where "S_DOLPHIN_BURST_RECEIVE \<equiv> 0x0080"
abbreviation (input) S_EPYX_ENABLED :: word16 where "S_EPYX_ENABLED \<equiv> 0x0100"
abbreviation (input) S_EPYX_HEADER :: word16 where "S_EPYX_HEADER \<equiv> 0x0200"
abbreviation (input) S_EPYX_LOAD :: word16 where "S_EPYX_LOAD \<equiv> 0x0400"
abbreviation (input) S_EPYX_SECTOROP :: word16 where "S_EPYX_SECTOROP \<equiv> 0x0800"

text \<open>The per-transaction flags: everything but the three \<open>*_ENABLED\<close> bits and
  \<open>S_DOLPHIN_BURST_ENABLED\<close>, as cleared by \<open>attachDevice\<close>.\<close>

definition transient_flags :: word16 where
  "transient_flags = S_JIFFY_DETECTED OR S_JIFFY_BLOCK OR S_DOLPHIN_DETECTED OR
     S_DOLPHIN_BURST_TRANSMIT OR S_DOLPHIN_BURST_RECEIVE OR S_EPYX_HEADER OR
     S_EPYX_LOAD OR S_EPYX_SECTOROP"

definition has_flag :: "word16 \<Rightarrow> 'd device \<Rightarrow> bool" where
  "has_flag f d \<longleftrightarrow> sflags d AND f \<noteq> 0"

definition set_flags :: "word16 \<Rightarrow> 'd device \<Rightarrow> 'd device" where
  "set_flags f d = d\<lparr>sflags := sflags d OR f\<rparr>"

definition clear_flags :: "word16 \<Rightarrow> 'd device \<Rightarrow> 'd device" where
  "clear_flags f d = d\<lparr>sflags := sflags d AND NOT f\<rparr>"

section \<open>The virtual methods of a device\<close>

text \<open>
  \<open>canWrite()\<close> and \<open>canRead()\<close> return an \<open>int8_t\<close>: positive for ready (for
  \<open>canRead\<close> the number of bytes available), \<open>0\<close> for end of data or error, negative
  for "not decided yet". \<open>read(buffer, n)\<close> returns the bytes it put into the
  buffer, \<open>write(buffer, n, eoi)\<close> the number of bytes it accepted.
\<close>

record 'd dev_ops =
  dev_begin :: "'d device \<Rightarrow> 'd device"
  dev_reset :: "'d device \<Rightarrow> 'd device"
  dev_task :: "'d device \<Rightarrow> 'd device"
  dev_listen :: "byte \<Rightarrow> 'd device \<Rightarrow> 'd device"
  dev_unlisten :: "'d device \<Rightarrow> 'd device"
  dev_talk :: "byte \<Rightarrow> 'd device \<Rightarrow> 'd device"
  dev_untalk :: "'d device \<Rightarrow> 'd device"
  dev_primary_address :: "byte \<Rightarrow> 'd device \<Rightarrow> 'd device"
  dev_secondary_address :: "byte \<Rightarrow> 'd device \<Rightarrow> 'd device"
  dev_canWrite :: "'d device \<Rightarrow> int \<times> 'd device"
  dev_canRead :: "'d device \<Rightarrow> int \<times> 'd device"
  dev_write :: "byte \<Rightarrow> bool \<Rightarrow> 'd device \<Rightarrow> 'd device"
  dev_write_block :: "byte list \<Rightarrow> bool \<Rightarrow> 'd device \<Rightarrow> byte \<times> 'd device"
  dev_read :: "'d device \<Rightarrow> byte \<times> 'd device"
  dev_read_block :: "byte \<Rightarrow> 'd device \<Rightarrow> byte list \<times> 'd device"
  dev_peek :: "'d device \<Rightarrow> byte"

section \<open>Flag lemmas\<close>

lemma transient_flags_eq [flag_simps]: "transient_flags = 0x0ED6"
  by (simp add: transient_flags_def)

lemma devnr_set_flags [simp]: "devnr (set_flags f d) = devnr d"
  and devnr_clear_flags [simp]: "devnr (clear_flags f d) = devnr d"
  and dev_set_flags [simp]: "dev (set_flags f d) = dev d"
  and dev_clear_flags [simp]: "dev (clear_flags f d) = dev d"
  by (simp_all add: set_flags_def clear_flags_def)

text \<open>A cleared bit is no longer set, whatever else the mask clears.\<close>

lemma has_flag_clear_flags:
  assumes "f AND g = f"
  shows "\<not> has_flag f (clear_flags g d)"
proof -
  have sub: "bit f n \<Longrightarrow> bit g n" for n
    using assms by (metis bit_and_iff)
  have "(sflags d AND NOT g) AND f = 0"
    by (rule bit_eqI) (auto simp: bit_and_iff bit_not_iff dest: sub)
  then show ?thesis by (simp add: has_flag_def clear_flags_def)
qed

lemma has_flag_set_flags_same: "f \<noteq> 0 \<Longrightarrow> has_flag f (set_flags f d)"
  by (simp add: has_flag_def set_flags_def word_bw_lcs(2) and.commute)

lemma clear_flags_clear_flags: "clear_flags g (clear_flags f d) = clear_flags (f OR g) d"
  by (simp add: clear_flags_def word16_eq_bits flag_bits)

end
