(* ===== verification/IEC_State.thy ===== *)
theory IEC_State
  imports IEC_Device
begin

text \<open>
  The state of one \<open>IECBusHandler\<close> object together with the bus it is
  attached to.

  \<^item> The object's fields (IECBusHandler.h) become record fields:
    \<open>m_flags\<close>, \<open>m_primary\<close>, \<open>m_secondary\<close>, \<open>m_inTask\<close>, \<open>m_timeoutStart\<close>,
    \<open>m_timeoutDuration\<close>, \<open>m_bufferSize\<close> and \<open>m_buffer\<close>, the pin numbers
    \<open>m_pinRESET\<close>, \<open>m_pinCTRL\<close> and whether the ATN pin has an interrupt.
    The device array \<open>m_devices[0..m_numDevices)\<close> is a list, and the
    pointer \<open>m_currentDevice\<close> is the bus address of the device it points to
    (addresses are unique in the table, see theory \<open>Device_Table\<close>).
  \<^item> The pins the handler drives are open-collector outputs: \<open>clkOut\<close> and
    \<open>dataOut\<close> are \<open>True\<close> when the pin is in INPUT (released) mode and
    \<open>False\<close> when it pulls the line low. \<open>ctrlOut\<close> is the level written to
    the optional CTRL pin, \<open>irqEnabled\<close> whether interrupts are enabled.
  \<^item> The environment is the list \<open>bus\<close> of samples of what the other parties
    (the computer and other drives) put on ATN, CLK, DATA and RESET, one sample
    per microsecond; past its end the bus is idle (every line released).
    \<open>micros\<close> is the value of the 32-bit microsecond counter and \<open>wire\<close> logs the
    handler's own CLK and DATA outputs at every microsecond that passes.
\<close>

record sample =
  s_atn :: bool
  s_clk :: bool
  s_data :: bool
  s_reset :: bool

definition idle :: sample where
  "idle = \<lparr>s_atn = True, s_clk = True, s_data = True, s_reset = True\<rparr>"

record 'd iec =
  pinRESET :: byte
  pinCTRL :: byte
  atnInterrupt :: bool
  currentDevice :: "byte option"
  devices :: "'d device list"
  flags :: byte
  primary :: byte
  secondary :: byte
  inTask :: bool
  timeoutStart :: word32
  timeoutDuration :: word16
  bufferSize :: byte
  buffer :: "byte list"
  clkOut :: bool
  dataOut :: bool
  ctrlOut :: bool
  irqEnabled :: bool
  micros :: word32
  bus :: "sample list"
  wire :: "(bool \<times> bool) list"

section \<open>Bus state flags (\<open>P_...\<close> in IECBusHandler.cpp)\<close>

abbreviation (input) P_ATN :: byte where "P_ATN \<equiv> 0x80"
abbreviation (input) P_LISTENING :: byte where "P_LISTENING \<equiv> 0x40"
abbreviation (input) P_TALKING :: byte where "P_TALKING \<equiv> 0x20"
abbreviation (input) P_DONE :: byte where "P_DONE \<equiv> 0x10"
abbreviation (input) P_RESET :: byte where "P_RESET \<equiv> 0x08"

definition flag_set :: "byte \<Rightarrow> 'd iec \<Rightarrow> bool" where
  "flag_set f s \<longleftrightarrow> flags s AND f \<noteq> 0"

declare flag_set_def [simp]

abbreviation under_atn :: "'d iec \<Rightarrow> bool" where
  "under_atn s \<equiv> flag_set P_ATN s"

text \<open>\<open>IEC_DEFAULT_FASTLOAD_BUFFER_SIZE\<close> (IECConfig.h) and \<open>MAX_DEVICES\<close>.\<close>

abbreviation (input) IEC_DEFAULT_FASTLOAD_BUFFER_SIZE :: byte where
  "IEC_DEFAULT_FASTLOAD_BUFFER_SIZE \<equiv> 128"

abbreviation (input) MAX_DEVICES :: nat where "MAX_DEVICES \<equiv> 4"

section \<open>Construction\<close>

text \<open>The constructor \<open>IECBusHandler(pinATN, pinCLK, pinDATA, pinRESET, pinCTRL)\<close>:
  no devices, \<open>m_flags = 0xFF\<close> (\<open>begin()\<close> not yet called), the default
  fast-load buffer. All pins are still inputs.\<close>

definition IECBusHandler :: "byte \<Rightarrow> byte \<Rightarrow> bool \<Rightarrow> sample list \<Rightarrow> 'd iec" where
  "IECBusHandler pinRst pinCtrl atnIrq env =
     \<lparr>pinRESET = pinRst, pinCTRL = pinCtrl, atnInterrupt = atnIrq,
      currentDevice = None, devices = [], flags = 0xFF, primary = 0, secondary = 0,
      inTask = False, timeoutStart = 0, timeoutDuration = 0,
      bufferSize = IEC_DEFAULT_FASTLOAD_BUFFER_SIZE,
      buffer = replicate (unat IEC_DEFAULT_FASTLOAD_BUFFER_SIZE) 0,
      clkOut = True, dataOut = True, ctrlOut = True, irqEnabled = True,
      micros = 0, bus = env, wire = []\<rparr>"

end
