(* ===== verification/Bus_Lines.thy ===== *)
theory Bus_Lines
  imports IEC_State
begin

text \<open>
  The pin primitives and the timing primitives of IECBusHandler.cpp
  (\<open>writePin*\<close>, \<open>readPin*\<close>, \<open>waitTimeoutFrom\<close>, \<open>waitTimeout\<close>, \<open>waitPinDATA\<close>,
  \<open>waitPinCLK\<close>). A read returns the level of the line: low if the handler
  pulls it low or another party does (open collector). Every polling loop
  reads the current sample and lets one microsecond pass (\<open>tick\<close>) per
  iteration. A loop with a timeout always returns; a loop without one
  (timeout \<open>0\<close>) returns \<open>None\<close> when the bus, idle past the end of the trace,
  never meets its exit condition.
\<close>

section \<open>Pins\<close>

definition cur_sample :: "'d iec \<Rightarrow> sample" where
  "cur_sample s = (case bus s of [] \<Rightarrow> idle | x # _ \<Rightarrow> x)"

definition readPinATN :: "'d iec \<Rightarrow> bool" where
  "readPinATN s = s_atn (cur_sample s)"

definition readPinCLK :: "'d iec \<Rightarrow> bool" where
  "readPinCLK s \<longleftrightarrow> s_clk (cur_sample s) \<and> clkOut s"

definition readPinDATA :: "'d iec \<Rightarrow> bool" where
  "readPinDATA s \<longleftrightarrow> s_data (cur_sample s) \<and> dataOut s"

definition readPinRESET :: "'d iec \<Rightarrow> bool" where
  "readPinRESET s = (if pinRESET s = 0xFF then True else s_reset (cur_sample s))"

definition writePinCLK :: "bool \<Rightarrow> 'd iec \<Rightarrow> 'd iec" where
  "writePinCLK v s = s\<lparr>clkOut := v\<rparr>"

definition writePinDATA :: "bool \<Rightarrow> 'd iec \<Rightarrow> 'd iec" where
  "writePinDATA v s = s\<lparr>dataOut := v\<rparr>"

declare writePinCLK_def [simp] writePinDATA_def [simp]

definition writePinCTRL :: "bool \<Rightarrow> 'd iec \<Rightarrow> 'd iec" where
  "writePinCTRL v s = (if pinCTRL s \<noteq> 0xFF then s\<lparr>ctrlOut := v\<rparr> else s)"

text \<open>One microsecond passes: the bus moves to its next sample, the clock counts
  (wrapping at \<open>2^32\<close> like \<open>micros()\<close>) and the handler's outputs are logged.\<close>

definition tick :: "'d iec \<Rightarrow> 'd iec" where
  "tick s = s\<lparr>bus := tl (bus s), micros := micros s + 1, wire := wire s @ [(clkOut s, dataOut s)]\<rparr>"

text \<open>\<^verbatim>\<open>((m_flags & P_ATN)!=0) == readPinATN()\<close>: the ATN line no longer matches
  the handler's idea of it (ATN was asserted or released behind its back).\<close>

definition atn_changed :: "'d iec \<Rightarrow> bool" where
  "atn_changed s \<longleftrightarrow> under_atn s = readPinATN s"

section \<open>Waiting\<close>

text \<open>\<open>waitTimeoutFrom(start, timeout)\<close> spins until \<open>timeout\<close> microseconds have
  passed since \<open>start\<close>, failing if ATN is asserted while the handler is not
  under ATN. \<open>wait_us n\<close> is the loop with \<open>n\<close> microseconds left.\<close>

primrec wait_us :: "nat \<Rightarrow> 'd iec \<Rightarrow> bool \<times> 'd iec" where
  "wait_us 0 s = (True, s)"
| "wait_us (Suc n) s =
     (if \<not> under_atn s \<and> \<not> readPinATN s then (False, s) else wait_us n (tick s))"

definition waitTimeoutFrom :: "word32 \<Rightarrow> nat \<Rightarrow> 'd iec \<Rightarrow> bool \<times> 'd iec" where
  "waitTimeoutFrom start timeout s = wait_us (timeout - unat (micros s - start)) s"

definition waitTimeout :: "nat \<Rightarrow> 'd iec \<Rightarrow> bool \<times> 'd iec" where
  "waitTimeout timeout s = waitTimeoutFrom (micros s) timeout s"

text \<open>The loop of \<open>waitPinCLK\<close>/\<open>waitPinDATA\<close> with a timeout; \<open>n\<close> counts the
  microseconds since the call. \<open>rd\<close> is the pin read.\<close>

function wait_line_timed :: "('d iec \<Rightarrow> bool) \<Rightarrow> bool \<Rightarrow> nat \<Rightarrow> nat \<Rightarrow> 'd iec \<Rightarrow> bool \<times> 'd iec" where
  "wait_line_timed rd st timeout n s =
     (if rd s = st then (True, s)
      else if atn_changed s \<or> timeout \<le> n then (False, s)
      else wait_line_timed rd st timeout (Suc n) (tick s))"
  by pat_completeness auto
termination
  by (relation "measure (\<lambda>(rd, st, timeout, n, s). timeout - n)") auto

text \<open>The loop without a timeout. It only ends when the line reaches the level
  or ATN changes; on the idle bus past the trace neither may ever happen.\<close>

function wait_line_forever :: "('d iec \<Rightarrow> bool) \<Rightarrow> bool \<Rightarrow> 'd iec \<Rightarrow> (bool \<times> 'd iec) option" where
  "wait_line_forever rd st s =
     (if rd s = st then Some (True, s)
      else if atn_changed s then Some (False, s)
      else if bus s = [] then None
      else wait_line_forever rd st (tick s))"
  by pat_completeness auto
termination
  by (relation "measure (\<lambda>(rd, st, s). length (bus s))") (auto simp: tick_def)

definition wait_line :: "('d iec \<Rightarrow> bool) \<Rightarrow> bool \<Rightarrow> nat \<Rightarrow> 'd iec \<Rightarrow> (bool \<times> 'd iec) option" where
  "wait_line rd st timeout s =
     (if timeout = 0 then wait_line_forever rd st s else Some (wait_line_timed rd st timeout 0 s))"

definition waitPinCLK :: "bool \<Rightarrow> nat \<Rightarrow> 'd iec \<Rightarrow> (bool \<times> 'd iec) option" where
  "waitPinCLK st timeout s = wait_line readPinCLK st timeout s"

text \<open>\<open>waitPinDATA\<close> adds a final check: DATA low only counts if ATN did not
  change, since other devices may be holding DATA low.\<close>

definition waitPinDATA :: "bool \<Rightarrow> nat \<Rightarrow> 'd iec \<Rightarrow> (bool \<times> 'd iec) option" where
  "waitPinDATA st timeout s =
     (case wait_line readPinDATA st timeout s of
        None \<Rightarrow> None
      | Some (False, s') \<Rightarrow> Some (False, s')
      | Some (True, s') \<Rightarrow> Some (st \<or> under_atn s' \<or> readPinATN s', s'))"

section \<open>Time passing\<close>

text \<open>\<open>ticks n\<close>: \<open>n\<close> microseconds pass with the handler's outputs unchanged.
  The lemmas below say how the polling loops consume the bus trace.\<close>

definition ticks :: "nat \<Rightarrow> 'd iec \<Rightarrow> 'd iec" where
  "ticks n s = s\<lparr>bus := drop n (bus s), micros := micros s + of_nat n,
                 wire := wire s @ replicate n (clkOut s, dataOut s)\<rparr>"

section \<open>Timing of the fast-loader routines\<close>

text \<open>The fast-loader routines run with interrupts disabled and time themselves
  with the macros of lines 125--130 (32-bit platforms): \<open>timer_start()\<close> records
  \<open>micros()\<close> and \<^verbatim>\<open>timer_wait_until(us)\<close> spins while
  \<^verbatim>\<open>micros()-timer_start_us < (int)(us+0.5)\<close>, so a deadline of 16.5us is 17us.
  The loop is over the unsigned 32-bit difference.\<close>

function timer_wait_until :: "word32 \<Rightarrow> word32 \<Rightarrow> 'd iec \<Rightarrow> 'd iec" where
  "timer_wait_until start us s = (if micros s - start < us then timer_wait_until start us (tick s) else s)"
  by pat_completeness auto
termination
proof (relation "measure (\<lambda>(start, us, s). unat us - unat (micros s - start))")
  fix start us and s :: "'d iec"
  assume lt: "micros s - start < us"
  then have "unat (micros s - start + 1) = Suc (unat (micros s - start))" by (rule unat_plus_one_less)
  moreover have "unat (micros s - start) < unat us" using lt by (simp add: word_less_nat_alt)
  ultimately show "((start, us, tick s), start, us, s) \<in> measure (\<lambda>(start, us, s). unat us - unat (micros s - start))"
    by (simp add: tick_def algebra_simps)
qed auto

declare timer_wait_until.simps [simp del]

text \<open>A busy loop without timeout or ATN check, such as
  \<^verbatim>\<open>while( !readPinCLK() && readPinATN() );\<close>: it spins until \<open>p\<close> holds.
  On the idle bus past the trace nothing changes any more, so \<open>None\<close> there is
  a loop that never ends.\<close>

function spin_until :: "('d iec \<Rightarrow> bool) \<Rightarrow> 'd iec \<Rightarrow> 'd iec option" where
  "spin_until p s = (if p s then Some s else if bus s = [] then None else spin_until p (tick s))"
  by pat_completeness auto
termination
  by (relation "measure (\<lambda>(p, s). length (bus s))") (auto simp: tick_def)

declare spin_until.simps [simp del]


text \<open>Putting two bits of a byte on CLK and DATA: \<^verbatim>\<open>writePinCLK(data & m1); writePinDATA(data & m2);\<close>\<close>

definition put_bits :: "byte \<Rightarrow> byte \<Rightarrow> byte \<Rightarrow> 'd iec \<Rightarrow> 'd iec" where
  "put_bits m1 m2 data s = writePinDATA (data AND m2 \<noteq> 0) (writePinCLK (data AND m1 \<noteq> 0) s)"


lemma ticks_0 [simp]: "ticks 0 s = s"
  by (simp add: ticks_def)

lemma tick_ticks [simp]: "tick (ticks n s) = ticks (Suc n) s"
  by (simp add: ticks_def tick_def drop_Suc tl_drop replicate_append_same)

lemma ticks_add: "ticks m (ticks n s) = ticks (n + m) s"
  by (simp add: ticks_def replicate_add[symmetric] ac_simps)

lemma tick_eq_ticks: "tick s = ticks 1 s"
  using tick_ticks[of 0 s] by simp

lemma cur_sample_ticks: "i < length (bus s) \<Longrightarrow> cur_sample (ticks i s) = bus s ! i"
  by (simp add: ticks_def cur_sample_def Cons_nth_drop_Suc[symmetric])

lemma ticks_fields [simp]:
  "clkOut (ticks n s) = clkOut s" "dataOut (ticks n s) = dataOut s" "flags (ticks n s) = flags s"
  "devices (ticks n s) = devices s" "currentDevice (ticks n s) = currentDevice s"
  "primary (ticks n s) = primary s" "secondary (ticks n s) = secondary s"
  "bus (ticks n s) = drop n (bus s)" "pinCTRL (ticks n s) = pinCTRL s" "pinRESET (ticks n s) = pinRESET s"
  by (simp_all add: ticks_def)

lemma wait_line_timed_skip:
  "(\<forall>i<k. rd (ticks i s) \<noteq> st \<and> \<not> atn_changed (ticks i s)) \<Longrightarrow> n + k \<le> timeout \<Longrightarrow>
   wait_line_timed rd st timeout n s = wait_line_timed rd st timeout (n + k) (ticks k s)"
proof (induction k arbitrary: n s)
  case 0
  then show ?case by simp
next
  case (Suc k)
  have h0: "rd s \<noteq> st" "\<not> atn_changed s" using Suc.prems(1)[rule_format, of 0] by simp_all
  have "\<forall>i<k. rd (ticks i (tick s)) \<noteq> st \<and> \<not> atn_changed (ticks i (tick s))"
    using Suc.prems(1) by (auto simp: tick_eq_ticks ticks_add)
  then have "wait_line_timed rd st timeout (Suc n) (tick s) = wait_line_timed rd st timeout (Suc n + k) (ticks k (tick s))"
    using Suc.prems(2) by (intro Suc.IH) simp_all
  then show ?case using h0 Suc.prems(2)
    by (subst wait_line_timed.simps) (simp add: tick_eq_ticks ticks_add)
qed

lemma wait_line_forever_skip:
  "(\<forall>i<k. rd (ticks i s) \<noteq> st \<and> \<not> atn_changed (ticks i s)) \<Longrightarrow> k \<le> length (bus s) \<Longrightarrow>
   wait_line_forever rd st s = wait_line_forever rd st (ticks k s)"
proof (induction k arbitrary: s)
  case 0
  then show ?case by simp
next
  case (Suc k)
  have h0: "rd s \<noteq> st" "\<not> atn_changed s" using Suc.prems(1)[rule_format, of 0] by simp_all
  have "\<forall>i<k. rd (ticks i (tick s)) \<noteq> st \<and> \<not> atn_changed (ticks i (tick s))"
    using Suc.prems(1) by (auto simp: tick_eq_ticks ticks_add)
  then have "wait_line_forever rd st (tick s) = wait_line_forever rd st (ticks k (tick s))"
    using Suc.prems(2) by (intro Suc.IH) (simp_all add: tick_def)
  moreover have "bus s \<noteq> []" using Suc.prems(2) by auto
  ultimately show ?case using h0
    by (subst wait_line_forever.simps) (simp add: tick_eq_ticks ticks_add)
qed

text \<open>A wait whose line reaches the level after \<open>k\<close> microseconds, ATN steady.\<close>

lemma wait_line_reaches:
  assumes "\<forall>i<k. rd (ticks i s) \<noteq> st \<and> \<not> atn_changed (ticks i s)" "rd (ticks k s) = st"
    and "if timeout = 0 then k \<le> length (bus s) else k \<le> timeout"
  shows "wait_line rd st timeout s = Some (True, ticks k s)"
proof (cases "timeout = 0")
  case True
  have "wait_line_forever rd st (ticks k s) = Some (True, ticks k s)"
    by (subst wait_line_forever.simps) (simp add: assms(2))
  then show ?thesis using True assms wait_line_forever_skip[OF assms(1)]
    by (simp add: wait_line_def)
next
  case False
  have "wait_line_timed rd st timeout k (ticks k s) = (True, ticks k s)"
    by (subst wait_line_timed.simps) (simp add: assms(2))
  then show ?thesis using False assms wait_line_timed_skip[OF assms(1), of 0 timeout]
    by (simp add: wait_line_def)
qed

text \<open>A wait whose line stays away from the level for the whole timeout.\<close>

lemma wait_line_times_out:
  assumes "\<forall>i<timeout. rd (ticks i s) \<noteq> st \<and> \<not> atn_changed (ticks i s)" "rd (ticks timeout s) \<noteq> st"
    and "0 < timeout"
  shows "wait_line rd st timeout s = Some (False, ticks timeout s)"
proof -
  have "wait_line_timed rd st timeout timeout (ticks timeout s) = (False, ticks timeout s)"
    by (subst wait_line_timed.simps) (simp add: assms(2))
  then show ?thesis using assms wait_line_timed_skip[OF assms(1), of 0 timeout]
    by (simp add: wait_line_def)
qed

lemma wait_us_ticks:
  "(\<forall>i<k. under_atn s \<or> readPinATN (ticks i s)) \<Longrightarrow> wait_us k s = (True, ticks k s)"
proof (induction k arbitrary: s)
  case 0
  then show ?case by simp
next
  case (Suc k)
  have "\<forall>i<k. under_atn (tick s) \<or> readPinATN (ticks i (tick s))"
    using Suc.prems by (auto simp: tick_eq_ticks ticks_add flag_set_def)
  then show ?case using Suc.prems[rule_format, of 0] Suc.IH[of "tick s"]
    by (auto simp: tick_eq_ticks ticks_add flag_set_def)
qed

lemma waitTimeout_ticks:
  "(\<forall>i<k. under_atn s \<or> readPinATN (ticks i s)) \<Longrightarrow> waitTimeout k s = (True, ticks k s)"
  by (simp add: waitTimeout_def waitTimeoutFrom_def wait_us_ticks)

lemma readPinCLK_ticks: "i < length (bus s) \<Longrightarrow> readPinCLK (ticks i s) \<longleftrightarrow> s_clk (bus s ! i) \<and> clkOut s"
  by (simp add: readPinCLK_def cur_sample_ticks)

lemma readPinDATA_ticks: "i < length (bus s) \<Longrightarrow> readPinDATA (ticks i s) \<longleftrightarrow> s_data (bus s ! i) \<and> dataOut s"
  by (simp add: readPinDATA_def cur_sample_ticks)

lemma readPinATN_ticks: "i < length (bus s) \<Longrightarrow> readPinATN (ticks i s) \<longleftrightarrow> s_atn (bus s ! i)"
  by (simp add: readPinATN_def cur_sample_ticks)

lemma atn_changed_ticks: "i < length (bus s) \<Longrightarrow> atn_changed (ticks i s) \<longleftrightarrow> under_atn s = s_atn (bus s ! i)"
  by (simp add: atn_changed_def readPinATN_ticks flag_set_def)

lemma waitPinCLK_block:
  assumes bus: "bus s = replicate m x @ y # rest"
    and x: "(s_clk x \<and> clkOut s) \<noteq> st" "s_atn x \<noteq> under_atn s"
    and y: "(s_clk y \<and> clkOut s) = st"
    and m: "if timeout = 0 then m \<le> length (bus s) else m \<le> timeout"
  shows "waitPinCLK st timeout s = Some (True, ticks m s)"
  unfolding waitPinCLK_def
proof (rule wait_line_reaches)
  show "\<forall>i<m. readPinCLK (ticks i s) \<noteq> st \<and> \<not> atn_changed (ticks i s)"
    using bus x by (auto simp: readPinCLK_ticks atn_changed_ticks nth_append)
  show "readPinCLK (ticks m s) = st"
    using bus y by (simp add: readPinCLK_ticks nth_append)
qed (rule m)

lemma waitPinCLK_times_out:
  assumes bus: "bus s = replicate m x @ rest"
    and x: "(s_clk x \<and> clkOut s) \<noteq> st" "s_atn x \<noteq> under_atn s"
    and m: "0 < timeout" "timeout < m"
  shows "waitPinCLK st timeout s = Some (False, ticks timeout s)"
  unfolding waitPinCLK_def
proof (rule wait_line_times_out)
  show "\<forall>i<timeout. readPinCLK (ticks i s) \<noteq> st \<and> \<not> atn_changed (ticks i s)"
    using bus x m by (auto simp: readPinCLK_ticks atn_changed_ticks nth_append)
  show "readPinCLK (ticks timeout s) \<noteq> st"
    using bus x m by (simp add: readPinCLK_ticks nth_append)
qed (rule m)

lemma waitPinDATA_block:
  assumes bus: "bus s = replicate m x @ y # rest"
    and x: "(s_data x \<and> dataOut s) \<noteq> st" "s_atn x \<noteq> under_atn s"
    and y: "(s_data y \<and> dataOut s) = st" "s_atn y"
    and m: "if timeout = 0 then m \<le> length (bus s) else m \<le> timeout"
  shows "waitPinDATA st timeout s = Some (True, ticks m s)"
proof -
  have "wait_line readPinDATA st timeout s = Some (True, ticks m s)"
  proof (rule wait_line_reaches)
    show "\<forall>i<m. readPinDATA (ticks i s) \<noteq> st \<and> \<not> atn_changed (ticks i s)"
      using bus x by (auto simp: readPinDATA_ticks atn_changed_ticks nth_append)
    show "readPinDATA (ticks m s) = st"
      using bus y by (simp add: readPinDATA_ticks nth_append)
  qed (rule m)
  moreover have "readPinATN (ticks m s)"
    using bus y by (simp add: readPinATN_ticks nth_append)
  ultimately show ?thesis by (simp add: waitPinDATA_def)
qed


lemma readPinATN_prefix:
  assumes "\<forall>x\<in>set (take k (bus s)). s_atn x" "i < k"
  shows "readPinATN (ticks i s)"
proof (cases "i < length (bus s)")
  case True
  then have "bus s ! i \<in> set (take k (bus s))" using assms(2) by (simp add: in_set_conv_nth) (metis nth_take)
  then show ?thesis using True assms(1) by (simp add: readPinATN_ticks)
next
  case False
  then show ?thesis by (simp add: readPinATN_def cur_sample_def idle_def)
qed

lemma atn_prefix_ticks:
  "\<forall>x\<in>set (take k (bus s)). s_atn x \<Longrightarrow> \<forall>x\<in>set (take (k - j) (bus (ticks j s))). s_atn x"
  by (cases "j \<le> k") (auto simp: take_drop dest: in_set_dropD)

lemma writePinCTRL_upd: "writePinCTRL v s = s\<lparr>ctrlOut := (if pinCTRL s \<noteq> 0xFF then v else ctrlOut s)\<rparr>"
  by (simp add: writePinCTRL_def)

lemma timer_wait_until_ticks:
  "timer_wait_until start us s = ticks (unat us - unat (micros s - start)) s"
proof (induction start us s rule: timer_wait_until.induct)
  case (1 start us s)
  show ?case
  proof (cases "micros s - start < us")
    case True
    have "micros (tick s) - start = (micros s - start) + 1" by (simp add: tick_def)
    have m: "unat (micros (tick s) - start) = Suc (unat (micros s - start))"
      unfolding \<open>micros (tick s) - start = (micros s - start) + 1\<close> by (rule unat_plus_one_less[OF True])
    have lt: "unat (micros s - start) < unat us" using True by (simp add: word_less_nat_alt)
    have "timer_wait_until start us s = ticks (unat us - unat (micros (tick s) - start)) (tick s)"
      using True "1.IH" by (subst timer_wait_until.simps) simp
    also have "\<dots> = ticks (unat us - unat (micros s - start)) s"
      using m lt by (simp add: tick_eq_ticks ticks_add Suc_diff_Suc)
    finally show ?thesis .
  next
    case False
    then show ?thesis by (subst timer_wait_until.simps) (simp add: word_less_nat_alt)
  qed
qed

lemma spin_until_reaches:
  "(\<forall>i<k. \<not> p (ticks i s)) \<Longrightarrow> p (ticks k s) \<Longrightarrow> k \<le> length (bus s) \<Longrightarrow> spin_until p s = Some (ticks k s)"
proof (induction k arbitrary: s)
  case 0
  then show ?case by (subst spin_until.simps) simp
next
  case (Suc k)
  have "\<not> p s" using Suc.prems(1) by (metis ticks_0 zero_less_Suc)
  moreover have "bus s \<noteq> []" using Suc.prems(3) by auto
  moreover have "spin_until p (tick s) = Some (ticks k (tick s))"
    using Suc.prems by (intro Suc.IH) (auto simp: tick_eq_ticks ticks_add tick_def)
  ultimately show ?case by (subst spin_until.simps) (simp add: tick_eq_ticks ticks_add)
qed

lemma timer_wait_until_from:
  assumes "micros s = t0 + of_nat k" "k \<le> unat us"
  shows "timer_wait_until t0 us s = ticks (unat us - k) s"
proof -
  have "unat us < 2 ^ 32" using unsigned_less[of us] by simp
  then have "k < 2 ^ 32" using assms(2) by linarith
  then have "unat (micros s - t0) = k" using assms(1) by (simp add: unat_of_nat)
  then show ?thesis by (simp add: timer_wait_until_ticks)
qed

lemma micros_ticks: "micros (ticks k s) = micros s + of_nat k"
  by (simp add: ticks_def)

lemma put_bits_sel [simp]:
  "clkOut (put_bits m1 m2 data s) = (data AND m1 \<noteq> 0)" "dataOut (put_bits m1 m2 data s) = (data AND m2 \<noteq> 0)"
  "micros (put_bits m1 m2 data s) = micros s" "bus (put_bits m1 m2 data s) = bus s"
  "wire (put_bits m1 m2 data s) = wire s" "devices (put_bits m1 m2 data s) = devices s"
  "currentDevice (put_bits m1 m2 data s) = currentDevice s" "flags (put_bits m1 m2 data s) = flags s"
  by (simp_all add: put_bits_def)

lemma waitPinCLK_prefix:
  assumes bus: "bus s = ys @ y # rest"
    and ys: "\<forall>x\<in>set ys. (s_clk x \<and> clkOut s) \<noteq> st \<and> s_atn x \<noteq> under_atn s"
    and y: "(s_clk y \<and> clkOut s) = st"
    and m: "if timeout = 0 then length ys \<le> length (bus s) else length ys \<le> timeout"
  shows "waitPinCLK st timeout s = Some (True, ticks (length ys) s)"
  unfolding waitPinCLK_def
proof (rule wait_line_reaches)
  show "\<forall>i<length ys. readPinCLK (ticks i s) \<noteq> st \<and> \<not> atn_changed (ticks i s)"
    using bus ys by (auto simp: readPinCLK_ticks atn_changed_ticks nth_append)
  show "readPinCLK (ticks (length ys) s) = st"
    using bus y by (simp add: readPinCLK_ticks nth_append)
qed (rule m)

end
