(* ===== verification/Device_Table.thy ===== *)
theory Device_Table
  imports Bus_Lines
begin

text \<open>
  The device table of the bus handler (\<open>m_devices\<close>, \<open>m_numDevices\<close>) and its
  operations \<open>findDevice\<close>, \<open>attachDevice\<close>, \<open>detachDevice\<close>, together with
  \<open>begin()\<close>, \<open>canServeATN()\<close> and the helpers through which the handler
  calls the virtual methods of a device it has found. The invariant is that
  the table holds at most \<open>MAX_DEVICES\<close> devices with pairwise distinct bus
  addresses. \<open>findDevice\<close> and \<open>attachDevice\<close> compare bus addresses;
  \<open>detachDevice\<close> compares the object pointer (the device's \<open>oid\<close>).
\<close>

section \<open>Operations\<close>

primrec findDevice :: "byte \<Rightarrow> 'd device list \<Rightarrow> 'd device option" where
  "findDevice n [] = None"
| "findDevice n (d # ds) = (if n = devnr d then Some d else findDevice n ds)"

text \<open>Updating the device object a pointer returned by \<open>findDevice\<close> refers to.\<close>

primrec update_device :: "byte \<Rightarrow> ('d device \<Rightarrow> 'd device) \<Rightarrow> 'd device list \<Rightarrow> 'd device list" where
  "update_device n f [] = []"
| "update_device n f (d # ds) = (if n = devnr d then f d # ds else d # update_device n f ds)"

definition attachDevice :: "'d dev_ops \<Rightarrow> 'd device \<Rightarrow> 'd iec \<Rightarrow> bool \<times> 'd iec" where
  "attachDevice ops d s =
     (if length (devices s) < MAX_DEVICES \<and> findDevice (devnr d) (devices s) = None then
        let d1 = clear_flags transient_flags d;
            d2 = (if flags s \<noteq> 0xFF then dev_begin ops d1 else d1)
        in (True, s\<lparr>devices := devices s @ [d2]\<rparr>)
      else (False, s))"

text \<open>The search loop of \<open>detachDevice(dev)\<close> (lines 447--458): the entry that
  is the object \<open>dev\<close> (the pointers are compared, line 448) is overwritten by
  the last one and the count decremented. \<open>p\<close> is the object's address.\<close>

function detach_from :: "nat \<Rightarrow> nat \<Rightarrow> 'd device list \<Rightarrow> 'd device list option" where
  "detach_from p i ds =
     (if i < length ds then
        (if oid (ds ! i) = p then Some (butlast (ds[i := last ds])) else detach_from p (Suc i) ds)
      else None)"
  by pat_completeness auto
termination
  by (relation "measure (\<lambda>(p, i, ds). length ds - i)") auto

definition detachDevice :: "'d device \<Rightarrow> 'd iec \<Rightarrow> bool \<times> 'd iec" where
  "detachDevice d s =
     (case detach_from (oid d) 0 (devices s) of
        None \<Rightarrow> (False, s)
      | Some ds \<Rightarrow> (True, s\<lparr>devices := ds\<rparr>))"

declare detach_from.simps [simp del]

definition canServeATN :: "'d iec \<Rightarrow> bool" where
  "canServeATN s \<longleftrightarrow> pinCTRL s \<noteq> 0xFF \<or> atnInterrupt s"

text \<open>\<open>begin()\<close>: CLK and DATA are configured as released inputs, \<open>m_flags\<close> is
  cleared, CTRL is driven low (ATN may pull DATA low in hardware) and every
  attached device's \<open>begin()\<close> runs. The registration of the ATN interrupt
  routine is modelled in theory \<open>Scheduler\<close>.\<close>

definition handler_begin :: "'d dev_ops \<Rightarrow> 'd iec \<Rightarrow> 'd iec" where
  "handler_begin ops s =
     (let s1 = writePinCTRL False (s\<lparr>clkOut := True, dataOut := True, flags := 0\<rparr>)
      in s1\<lparr>devices := map (dev_begin ops) (devices s1)\<rparr>)"

section \<open>Calling the current device\<close>

text \<open>A call through \<open>m_currentDevice\<close>: \<open>None\<close> when the pointer is null
  (the call would dereference \<open>NULL\<close>).\<close>

definition call_current :: "('d device \<Rightarrow> 'a \<times> 'd device) \<Rightarrow> 'd iec \<Rightarrow> ('a \<times> 'd iec) option" where
  "call_current f s =
     (case currentDevice s of
        None \<Rightarrow> None
      | Some n \<Rightarrow>
          (case findDevice n (devices s) of
             None \<Rightarrow> None
           | Some d \<Rightarrow> (let (r, d') = f d in Some (r, s\<lparr>devices := update_device n (\<lambda>_. d') (devices s)\<rparr>))))"

definition update_current :: "('d device \<Rightarrow> 'd device) \<Rightarrow> 'd iec \<Rightarrow> 'd iec option" where
  "update_current f s = map_option snd (call_current (\<lambda>d. ((), f d)) s)"

section \<open>The table invariant and its abstract view\<close>

definition table_ok :: "'d device list \<Rightarrow> bool" where
  "table_ok ds \<longleftrightarrow> length ds \<le> MAX_DEVICES \<and> distinct (map devnr ds)"

text \<open>What the table promises: a finite map from bus addresses to devices.\<close>

definition table_abs :: "'d device list \<Rightarrow> byte \<rightharpoonup> 'd device" where
  "table_abs ds = map_of (map (\<lambda>d. (devnr d, d)) ds)"

lemma findDevice_None_iff: "findDevice n ds = None \<longleftrightarrow> n \<notin> devnr ` set ds"
  by (induction ds) auto

lemma findDevice_devnr: "findDevice n ds = Some d \<Longrightarrow> devnr d = n"
  by (induction ds) (auto split: if_splits)

lemma findDevice_in_set: "findDevice n ds = Some d \<Longrightarrow> d \<in> set ds"
  by (induction ds) (auto split: if_splits)

lemma findDevice_append_new:
  "n \<notin> devnr ` set ds \<Longrightarrow> findDevice n (ds @ [d]) = (if devnr d = n then Some d else None)"
  by (induction ds) auto

lemma findDevice_append_old:
  "findDevice n ds = Some d \<Longrightarrow> findDevice n (ds @ ds') = Some d"
  by (induction ds) auto

lemma map_devnr_update_device [simp]:
  "(\<And>d. devnr (f d) = devnr d) \<Longrightarrow> map devnr (update_device n f ds) = map devnr ds"
  by (induction ds) auto

lemma length_update_device [simp]: "length (update_device n f ds) = length ds"
  by (induction ds) auto

lemma findDevice_update_device_same:
  "(\<And>d. devnr (f d) = devnr d) \<Longrightarrow> findDevice n ds = Some d \<Longrightarrow> findDevice n (update_device n f ds) = Some (f d)"
  by (induction ds) (auto split: if_splits)

lemma set_butlast_update_last:
  assumes "i < length ds" "distinct ds"
  shows "set (butlast (ds[i := last ds])) = set ds - {ds ! i}"
proof -
  obtain xs x where ds: "ds = xs @ [x]"
    using assms(1) by (cases ds rule: rev_cases) auto
  show ?thesis
  proof (cases "i = length xs")
    case True
    then show ?thesis using ds assms(2) by auto
  next
    case False
    then have i: "i < length xs" using assms(1) ds by simp
    have "butlast (ds[i := last ds]) = xs[i := x]" using ds i by (simp add: list_update_append)
    moreover have "set (xs[i := x]) = insert x (set xs - {xs ! i})"
      using assms(2) ds i by (auto simp: set_update_distinct)
    ultimately show ?thesis using ds i assms(2) by (auto simp: nth_append)
  qed
qed

lemma update_device_const:
  "findDevice n ds = Some d \<Longrightarrow> update_device n (\<lambda>_. f d) ds = update_device n f ds"
  by (induction ds) (auto split: if_splits)

lemma update_current_Some:
  "currentDevice s = Some n \<Longrightarrow> findDevice n (devices s) = Some d \<Longrightarrow>
   update_current f s = Some (s\<lparr>devices := update_device n f (devices s)\<rparr>)"
  by (simp add: update_current_def call_current_def update_device_const)

lemma findDevice_distinct:
  "distinct (map devnr ds) \<Longrightarrow> findDevice m ds = Some d \<longleftrightarrow> d \<in> set ds \<and> devnr d = m"
  by (induction ds) (auto dest: findDevice_in_set simp: image_iff split: if_splits)

lemma detach_from_None:
  "detach_from n i ds = None \<longleftrightarrow> (\<forall>j. i \<le> j \<longrightarrow> j < length ds \<longrightarrow> oid (ds ! j) \<noteq> n)"
proof (induction n i ds rule: detach_from.induct)
  case (1 n i ds)
  show ?case
  proof (cases "i < length ds")
    case True
    have split: "(\<forall>j. i \<le> j \<longrightarrow> j < length ds \<longrightarrow> oid (ds ! j) \<noteq> n) \<longleftrightarrow>
        oid (ds ! i) \<noteq> n \<and> (\<forall>j. Suc i \<le> j \<longrightarrow> j < length ds \<longrightarrow> oid (ds ! j) \<noteq> n)"
    proof
      assume "\<forall>j. i \<le> j \<longrightarrow> j < length ds \<longrightarrow> oid (ds ! j) \<noteq> n"
      then show "oid (ds ! i) \<noteq> n \<and> (\<forall>j. Suc i \<le> j \<longrightarrow> j < length ds \<longrightarrow> oid (ds ! j) \<noteq> n)"
        using True by auto
    next
      assume B: "oid (ds ! i) \<noteq> n \<and> (\<forall>j. Suc i \<le> j \<longrightarrow> j < length ds \<longrightarrow> oid (ds ! j) \<noteq> n)"
      show "\<forall>j. i \<le> j \<longrightarrow> j < length ds \<longrightarrow> oid (ds ! j) \<noteq> n"
      proof (intro allI impI)
        fix j assume "i \<le> j" "j < length ds"
        then show "oid (ds ! j) \<noteq> n" using B by (cases "j = i") auto
      qed
    qed
    show ?thesis
      using True "1.IH" by (subst detach_from.simps) (simp add: split)
  next
    case False
    then show ?thesis by (subst detach_from.simps) simp
  qed
qed

lemma detach_from_Some:
  "detach_from n i ds = Some ds' \<Longrightarrow> \<exists>j<length ds. oid (ds ! j) = n \<and> ds' = butlast (ds[j := last ds])"
proof (induction n i ds rule: detach_from.induct)
  case (1 n i ds)
  have "i < length ds" using "1.prems" by (subst (asm) detach_from.simps) (simp split: if_splits)
  show ?case
  proof (cases "oid (ds ! i) = n")
    case True
    then show ?thesis using "1.prems" \<open>i < length ds\<close> by (subst (asm) detach_from.simps) auto
  next
    case False
    then have "detach_from n (Suc i) ds = Some ds'" using "1.prems" \<open>i < length ds\<close>
      by (subst (asm) detach_from.simps) simp
    then show ?thesis using "1.IH" \<open>i < length ds\<close> False by blast
  qed
qed

lemma distinct_butlast_update_last:
  assumes "distinct xs" "i < length xs"
  shows "distinct (butlast (xs[i := last xs]))"
proof -
  obtain ys x where xs: "xs = ys @ [x]" using assms(2) by (cases xs rule: rev_cases) auto
  show ?thesis
  proof (cases "i = length ys")
    case False
    then have "butlast (xs[i := last xs]) = ys[i := x]" using xs assms(2) by (simp add: list_update_append)
    then show ?thesis using xs assms by (auto intro!: distinct_list_update)
  qed (use xs assms in simp)
qed

lemma map_butlast_update: "map f (butlast (xs[i := last xs])) = butlast ((map f xs)[i := last (map f xs)])"
  by (cases xs rule: rev_cases) (simp_all add: map_update butlast_list_update last_map)


lemma findDevice_table_abs: "findDevice n ds = table_abs ds n"
  by (induction ds) (simp_all add: table_abs_def)

lemma option_eq_via_Some: "(\<And>x. a = Some x \<longleftrightarrow> b = Some x) \<Longrightarrow> a = b"
  by (cases a; cases b) auto

lemma table_abs_distinct:
  "distinct (map devnr ds) \<Longrightarrow> table_abs ds m = Some x \<longleftrightarrow> x \<in> set ds \<and> devnr x = m"
  by (simp add: findDevice_table_abs[symmetric] findDevice_distinct)

lemma dom_table_abs: "dom (table_abs ds) = devnr ` set ds"
  by (simp add: table_abs_def dom_map_of_conv_image_fst image_image)

lemma card_dom_table_abs: "distinct (map devnr ds) \<Longrightarrow> card (dom (table_abs ds)) = length ds"
  using distinct_card[of "map devnr ds"] by (simp add: dom_table_abs)

lemma findDevice_append:
  "findDevice n (ds @ [x]) = (case findDevice n ds of None \<Rightarrow> if devnr x = n then Some x else None | Some d \<Rightarrow> Some d)"
  by (induction ds) auto

lemma table_abs_append_new:
  "devnr x \<notin> devnr ` set ds \<Longrightarrow> table_abs (ds @ [x]) = (table_abs ds)(devnr x \<mapsto> x)"
proof (rule ext)
  fix m
  assume x: "devnr x \<notin> devnr ` set ds"
  show "table_abs (ds @ [x]) m = ((table_abs ds)(devnr x \<mapsto> x)) m"
  proof (cases "findDevice m ds")
    case (Some d)
    then have "devnr d = m" "d \<in> set ds" by (simp_all add: findDevice_devnr findDevice_in_set)
    then have "m \<noteq> devnr x" using x by (metis image_eqI)
    then show ?thesis using Some by (simp add: findDevice_table_abs[symmetric] findDevice_append)
  qed (simp add: findDevice_table_abs[symmetric] findDevice_append)
qed

section \<open>Refinement of the abstract table\<close>

lemma attachDevice_table_ok:
  assumes "table_ok (devices s)" "\<And>x. devnr (dev_begin ops x) = devnr x" "attachDevice ops d s = (b, s')"
  shows "table_ok (devices s')"
  using assms by (auto simp: attachDevice_def table_ok_def Let_def findDevice_None_iff split: if_splits)

lemma detach_from_table_ok:
  assumes "table_ok ds" "detach_from n 0 ds = Some ds'"
  shows "table_ok ds'"
proof -
  obtain j where j: "j < length ds" and ds': "ds' = butlast (ds[j := last ds])"
    using detach_from_Some[OF assms(2)] by blast
  have "distinct (map devnr ds')"
    unfolding ds' map_butlast_update using assms(1) j by (simp add: distinct_butlast_update_last table_ok_def)
  moreover have "length ds' \<le> MAX_DEVICES" using assms(1) ds' by (auto simp: table_ok_def)
  ultimately show ?thesis by (simp add: table_ok_def)
qed

text \<open>C3: \<open>attachDevice\<close> keeps the table invariant and refines adding an entry
  to the abstract map: it succeeds exactly when fewer than \<open>MAX_DEVICES\<close>
  addresses are taken and the device's address is free, and the new entry is
  the device with its transient flags cleared (and begun, once the handler
  has begun).\<close>

theorem attachDevice_refines:
  assumes ok: "table_ok (devices s)" and begin_nr: "\<And>x. devnr (dev_begin ops x) = devnr x"
    and at: "attachDevice ops d s = (b, s')"
  shows "table_ok (devices s') \<and>
    (b \<longleftrightarrow> card (dom (table_abs (devices s))) < MAX_DEVICES \<and> devnr d \<notin> dom (table_abs (devices s))) \<and>
    table_abs (devices s') =
      (if b then (table_abs (devices s))(devnr d \<mapsto> (if flags s \<noteq> 0xFF then dev_begin ops else id) (clear_flags transient_flags d))
       else table_abs (devices s))"
proof -
  have dist: "distinct (map devnr (devices s))" using ok by (simp add: table_ok_def)
  note card = card_dom_table_abs[OF dist] and dom = dom_table_abs[of "devices s"]
  show ?thesis
  proof (cases "length (devices s) < MAX_DEVICES \<and> devnr d \<notin> devnr ` set (devices s)")
    case True
    then show ?thesis using at ok card dom
      by (auto simp: attachDevice_def table_ok_def Let_def begin_nr findDevice_None_iff table_abs_append_new)
  next
    case False
    then show ?thesis using at ok card dom
      by (auto simp: attachDevice_def Let_def findDevice_None_iff)
  qed
qed

lemma table_abs_remove:
  assumes ok: "table_ok ds" and j: "j < length ds"
  shows "table_ok (butlast (ds[j := last ds])) \<and>
         table_abs (butlast (ds[j := last ds])) = (table_abs ds)(devnr (ds ! j) := None)"
proof -
  let ?ds' = "butlast (ds[j := last ds])"
  have dist: "distinct (map devnr ds)" using ok by (simp add: table_ok_def)
  then have dist_ds: "distinct ds" by (simp add: distinct_map)
  have dist': "distinct (map devnr ?ds')"
    unfolding map_butlast_update using dist j by (simp add: distinct_butlast_update_last)
  have set': "set ?ds' = set ds - {ds ! j}" by (rule set_butlast_update_last[OF j dist_ds])
  have "table_abs ?ds' m = ((table_abs ds)(devnr (ds ! j) := None)) m" for m
  proof (rule option_eq_via_Some)
    fix x
    have inj: "inj_on devnr (set ds)" using dist by (simp add: distinct_map)
    have "x \<in> set ds \<Longrightarrow> devnr x = m \<Longrightarrow> x \<noteq> ds ! j \<longleftrightarrow> m \<noteq> devnr (ds ! j)"
      using inj_onD[OF inj, of x "ds ! j"] j by auto
    then show "table_abs ?ds' m = Some x \<longleftrightarrow> ((table_abs ds)(devnr (ds ! j) := None)) m = Some x"
      using dist dist' set' by (auto simp: table_abs_distinct)
  qed
  moreover have "length ?ds' \<le> MAX_DEVICES" using ok by (auto simp: table_ok_def)
  ultimately show ?thesis using dist' by (auto simp: table_ok_def)
qed

text \<open>C4: \<open>detachDevice(dev)\<close> keeps the table invariant; it succeeds exactly
  when the object \<open>dev\<close> itself is in the table (another object with the same
  bus address does not count), and then refines removing that entry's address
  from the abstract map, changing nothing else; otherwise it changes nothing.\<close>

theorem detachDevice_refines:
  assumes ok: "table_ok (devices s)" and dt: "detachDevice d s = (b, s')"
  shows "table_ok (devices s') \<and> (b \<longleftrightarrow> oid d \<in> oid ` set (devices s)) \<and>
    (b \<longrightarrow> (\<exists>e\<in>set (devices s). oid e = oid d \<and>
              table_abs (devices s') = (table_abs (devices s))(devnr e := None) \<and>
              s' = s\<lparr>devices := devices s'\<rparr>)) \<and>
    (\<not> b \<longrightarrow> s' = s)"
proof (cases "detach_from (oid d) 0 (devices s)")
  case None
  then have "oid d \<notin> oid ` set (devices s)"
    unfolding detach_from_None by (auto simp: in_set_conv_nth)
  then show ?thesis using None ok dt by (auto simp: detachDevice_def)
next
  case (Some ds')
  let ?ds = "devices s"
  obtain j where j: "j < length ?ds" "oid (?ds ! j) = oid d" and ds': "ds' = butlast (?ds[j := last ?ds])"
    using detach_from_Some[OF Some] by blast
  have s': "s' = s\<lparr>devices := ds'\<rparr>" "b" using dt Some by (simp_all add: detachDevice_def)
  have mem: "?ds ! j \<in> set ?ds" using j(1) by simp
  have t: "table_ok ds'" "table_abs ds' = (table_abs ?ds)(devnr (?ds ! j) := None)"
    using table_abs_remove[OF ok j(1)] ds' by simp_all
  show ?thesis
  proof (intro conjI impI)
    show "table_ok (devices s')" using t s' by simp
    show "b \<longleftrightarrow> oid d \<in> oid ` set ?ds" using s'(2) mem j(2) by (metis image_eqI)
    show "\<exists>e\<in>set ?ds. oid e = oid d \<and> table_abs (devices s') = (table_abs ?ds)(devnr e := None) \<and>
            s' = s\<lparr>devices := devices s'\<rparr>"
      using mem j(2) t s' by (intro bexI[of _ "?ds ! j"]) simp_all
    show "s' = s" if "\<not> b" using that s'(2) by simp
  qed
qed

lemma update_device_same_self: "findDevice a ds = Some d \<Longrightarrow> update_device a (\<lambda>_. d) ds = ds"
  by (induction ds) (auto split: if_splits dest: findDevice_devnr)

lemma update_device_overwrite:
  "(\<And>x. devnr (f x) = devnr x) \<Longrightarrow> update_device a g (update_device a f ds) = update_device a (g \<circ> f) ds"
  by (induction ds) auto

end
