(* ===== verification/IEC_Host.thy ===== *)
theory IEC_Host
  imports IEC_State
begin

text \<open>
  The bus master's side of the standard IEC frame (spec, section 6, "Wire
  format"), used to state what the handler's routines do on a well-formed
  frame. The master releases CLK ("ready to send") for \<open>k\<close> microseconds,
  then sends eight bits, least significant first: for each bit it pulls CLK
  low with the bit on DATA and then releases CLK with the bit still on DATA.
  A ready phase of 200us or more is the EOI signal. \<open>a\<close> is the level of ATN
  during the frame (\<open>False\<close> under ATN).
\<close>

definition hsample :: "bool \<Rightarrow> bool \<Rightarrow> bool \<Rightarrow> sample" where
  "hsample a c d = \<lparr>s_atn = a, s_clk = c, s_data = d, s_reset = True\<rparr>"

definition host_bit :: "bool \<Rightarrow> nat \<times> nat \<Rightarrow> bool \<Rightarrow> sample list" where
  "host_bit a t c = replicate (Suc (fst t)) (hsample a False c) @ replicate (Suc (snd t)) (hsample a True c)"

definition host_bits :: "bool \<Rightarrow> (nat \<times> nat) list \<Rightarrow> bool list \<Rightarrow> sample list" where
  "host_bits a ts cs = concat (map (\<lambda>(t, c). host_bit a t c) (zip ts cs))"

definition host_byte :: "bool \<Rightarrow> nat \<Rightarrow> (nat \<times> nat) list \<Rightarrow> byte \<Rightarrow> sample list" where
  "host_byte a k ts b = replicate k (hsample a True True) @ host_bits a ts (lsb_bits b)"

text \<open>Bit timings the handler accepts: CLK low for less than 200us before each bit
  is clocked, CLK high for less than 1000us while it is held.\<close>

definition timing_ok :: "(nat \<times> nat) list \<Rightarrow> bool" where
  "timing_ok ts \<longleftrightarrow> (\<forall>t \<in> set ts. fst t < 200 \<and> snd t < 1000)"

text \<open>What a receiver sees of one bit sent by \<open>transmitIECByte\<close>: DATA carries the
  bit while CLK is held low for 80us and then released for 60us.\<close>

definition talker_bit :: "bool \<Rightarrow> (bool \<times> bool) list" where
  "talker_bit c = replicate 80 (False, c) @ replicate 60 (True, c)"

definition talker_bits :: "byte \<Rightarrow> (bool \<times> bool) list" where
  "talker_bits b = concat (map talker_bit (lsb_bits b))"

text \<open>The sender's side of a JiffyDOS byte (the C64 routine at FC51--FC82 as the
  comments of \<open>receiveJiffyByte\<close> describe it, one cycle taken as 1us): time 0
  is the sender's CLK rising edge; from 11us the pair of bits 4 and 5 is on
  CLK and DATA (a low line is a 1 bit), from 24us bits 6 and 7, from 35us bits
  3 and 1, from 48us bits 2 and 0, from 61us CLK carries EOI.\<close>

definition jiffy_level :: "byte \<Rightarrow> bool \<Rightarrow> nat \<Rightarrow> bool \<times> bool" where
  "jiffy_level b eoi t =
     (if t < 11 then (True, True)
      else if t < 24 then (\<not> bit b 4, \<not> bit b 5)
      else if t < 35 then (\<not> bit b 6, \<not> bit b 7)
      else if t < 48 then (\<not> bit b 3, \<not> bit b 1)
      else if t < 61 then (\<not> bit b 2, \<not> bit b 0)
      else (eoi, True))"

definition jiffy_frame :: "byte \<Rightarrow> bool \<Rightarrow> sample list" where
  "jiffy_frame b eoi = map (\<lambda>t. hsample True (fst (jiffy_level b eoi t)) (snd (jiffy_level b eoi t))) [0..<83]"

text \<open>The receiver's side of a JiffyDOS byte sent by the drive (C64 routine at
  FBCB--FBF2): with time 0 the receiver's DATA release, it reads bits 0 and 1
  from CLK and DATA at 16us, bits 2 and 3 at 26us, 4 and 5 at 37us, 6 and 7 at
  48us (a high line is a 1 bit) and the status at 59us.\<close>

definition jiffy_decode :: "(bool \<times> bool) list \<Rightarrow> byte" where
  "jiffy_decode w =
     (if fst (w ! 16) then 0x01 else 0) OR (if snd (w ! 16) then 0x02 else 0) OR
     (if fst (w ! 26) then 0x04 else 0) OR (if snd (w ! 26) then 0x08 else 0) OR
     (if fst (w ! 37) then 0x10 else 0) OR (if snd (w ! 37) then 0x20 else 0) OR
     (if fst (w ! 48) then 0x40 else 0) OR (if snd (w ! 48) then 0x80 else 0)"

text \<open>The computer's side of an Epyx FastLoad byte sent by the drive: with time
  0 the computer's DATA release, it reads bits 7 and 5 from CLK and DATA at
  15us, bits 6 and 4 at 25us, 3 and 1 at 35us, 2 and 0 at 45us; the bits are
  inverted on the wire (a low line is a 1 bit).\<close>

definition epyx_decode :: "(bool \<times> bool) list \<Rightarrow> byte" where
  "epyx_decode w =
     (if \<not> fst (w ! 15) then 0x80 else 0) OR (if \<not> snd (w ! 15) then 0x20 else 0) OR
     (if \<not> fst (w ! 25) then 0x40 else 0) OR (if \<not> snd (w ! 25) then 0x10 else 0) OR
     (if \<not> fst (w ! 35) then 0x08 else 0) OR (if \<not> snd (w ! 35) then 0x02 else 0) OR
     (if \<not> fst (w ! 45) then 0x04 else 0) OR (if \<not> snd (w ! 45) then 0x01 else 0)"

text \<open>The computer's side of an Epyx byte sent to the drive: for bit \<open>i\<close> it
  puts the inverted bit on DATA, holds CLK for \<open>t\<close> microseconds and then
  toggles CLK (falling for bit 0, then alternating). \<open>epyx_blocks c\<close> starts
  with CLK at level \<open>c\<close>.\<close>

fun epyx_blocks :: "bool \<Rightarrow> (nat \<times> bool) list \<Rightarrow> sample list" where
  "epyx_blocks c [] = []"
| "epyx_blocks c ((t, d) # xs) = replicate t (hsample True c d) @ hsample True (\<not> c) d # epyx_blocks (\<not> c) xs"

definition epyx_host_byte :: "(nat list) \<Rightarrow> byte \<Rightarrow> sample list" where
  "epyx_host_byte ts b = epyx_blocks True (zip ts (map (\<lambda>i. \<not> bit b i) [0..<8]))"

text \<open>A listener's view of a talker's frame: the DATA level at every rising
  edge of CLK, shifted in least significant bit first.\<close>

fun sample_rising :: "bool \<Rightarrow> (bool \<times> bool) list \<Rightarrow> bool list" where
  "sample_rising p [] = []"
| "sample_rising p ((c, d) # w) = (if \<not> p \<and> c then d # sample_rising c w else sample_rising c w)"

definition listener_decode :: "(bool \<times> bool) list \<Rightarrow> byte" where
  "listener_decode w = foldl (\<lambda>x c. shift_in_msb c x) 0 (sample_rising True w)"

lemma host_bits_Cons:
  "host_bits a (t # ts) (c # cs) = host_bit a t c @ host_bits a ts cs"
  by (simp add: host_bits_def)

lemma host_bits_Nil [simp]: "host_bits a [] cs = []" "host_bits a ts [] = []"
  by (simp_all add: host_bits_def)

lemma length_host_bit [simp]: "length (host_bit a t c) = Suc (fst t) + Suc (snd t)"
  by (simp add: host_bit_def)

lemma hsample_sel [simp]:
  "s_atn (hsample a c d) = a" "s_clk (hsample a c d) = c" "s_data (hsample a c d) = d"
  "s_reset (hsample a c d)"
  by (simp_all add: hsample_def)

lemma host_bits_head:
  assumes "length ts = length cs" "\<not> s_clk y" "s_atn y = a"
  shows "\<exists>z rest'. host_bits a ts cs @ y # rest = z # rest' \<and> \<not> s_clk z \<and> s_atn z = a"
proof (cases ts)
  case Nil
  then show ?thesis using assms by simp
next
  case (Cons t ts')
  then obtain c cs' where "cs = c # cs'" using assms(1) by (cases cs) auto
  then show ?thesis using Cons by (simp add: host_bits_Cons host_bit_def)
qed

lemma sample_rising_replicate_low:
  "sample_rising p (replicate (Suc n) (False, d) @ w) = sample_rising False w"
  by (induction n arbitrary: p) auto

lemma sample_rising_replicate_high:
  "sample_rising True (replicate n (True, d) @ w) = sample_rising True w"
  by (induction n) auto

lemma sample_rising_talker_bit:
  "sample_rising p (talker_bit c @ w) = c # sample_rising True w"
proof -
  have "talker_bit c @ w = replicate 80 (False, c) @ (True, c) # (replicate 59 (True, c) @ w)"
    by (simp add: talker_bit_def numeral_eq_Suc)
  then show ?thesis
    by (simp only: sample_rising_replicate_low[where n=79, simplified] sample_rising.simps sample_rising_replicate_high) simp
qed

lemma sample_rising_talker_bits_gen:
  "sample_rising p (concat (map talker_bit cs) @ w) = cs @ sample_rising (if cs = [] then p else True) w"
  by (induction cs arbitrary: p) (auto simp: sample_rising_talker_bit)

lemma listener_decode_talker_bits: "listener_decode (talker_bits b) = b"
  using sample_rising_talker_bits_gen[of True "lsb_bits b" "[]"]
  by (simp add: listener_decode_def talker_bits_def foldl_shift_in_lsb_bits)

lemma length_jiffy_frame [simp]: "length (jiffy_frame b eoi) = 83"
  by (simp add: jiffy_frame_def)

lemma jiffy_frame_nth:
  "t < 83 \<Longrightarrow> jiffy_frame b eoi ! t = hsample True (fst (jiffy_level b eoi t)) (snd (jiffy_level b eoi t))"
  by (simp add: jiffy_frame_def)

lemma epyx_blocks_nonempty: "xs \<noteq> [] \<Longrightarrow> epyx_blocks c xs \<noteq> []"
  by (cases xs) auto

lemma last_epyx_blocks:
  "xs \<noteq> [] \<Longrightarrow> last (epyx_blocks c xs) = hsample True (if even (length xs) then c else \<not> c) (snd (last xs))"
proof (induction c xs rule: epyx_blocks.induct)
  case (2 c t d xs)
  then show ?case by (cases "xs = []") (simp_all add: epyx_blocks_nonempty)
qed simp

end
