(* ===== verification/IEC_Receive.thy ===== *)
theory IEC_Receive
  imports Device_Table IEC_Host "HOL-Library.Monad_Syntax"
begin

text \<open>
  \<open>receiveIECByte()\<close> of IECBusHandler.cpp: one byte from the bus master,
  either under ATN (a command: primary and secondary address) or as listener
  (a data byte for the current device). The routine is split into its phases
  in source order; a phase whose result is \<open>None\<close> does not return. The
  configuration modelled is the one of IECConfig.h: JiffyDOS and Epyx support
  compiled in, DolphinDOS not. The main result is that a byte framed by the
  master as the protocol prescribes is received and handed to the device.
\<close>

section \<open>receiveIECByte\<close>

text \<open>Lines 1798--1803: release DATA ("ready for data"); under ATN wait until the
  other devices have released DATA too.\<close>

definition rx_start :: "'d iec \<Rightarrow> (bool \<times> 'd iec) option" where
  "rx_start s =
     (let s1 = writePinDATA True s
      in if under_atn s1 then waitPinDATA True 1000 s1 else Some (True, s1))"

text \<open>Lines 1805--1821: wait up to 200us for CLK low. A timeout outside ATN is the
  talker's EOI signal, acknowledged by pulling DATA low for 80us. The result is
  \<open>Some eoi\<close>, or \<open>None\<close> for an abort.\<close>

definition rx_wait_ready :: "'d iec \<Rightarrow> (bool option \<times> 'd iec) option" where
  "rx_wait_ready s = do {
     (ok, s1) \<leftarrow> waitPinCLK False 200 s;
     if ok then Some (Some False, s1)
     else if \<not> under_atn s1 \<and> \<not> readPinATN s1 then Some (None, s1)
     else (case waitTimeout 80 (writePinDATA False s1) of
             (False, s2) \<Rightarrow> Some (None, s2)
           | (True, s2) \<Rightarrow> do {
               (ok3, s3) \<leftarrow> waitPinCLK False 1000 (writePinDATA True s2);
               Some (if ok3 then Some True else None, s3) }) }"

text \<open>Lines 1830--1847: CLK did not go high within 200us. Under ATN, on the last
  bit of the primary address, with JiffyDOS enabled for the device whose
  address is the low nibble received so far, this is the JiffyDOS request:
  set \<open>S_JIFFY_DETECTED\<close> and answer with an 80us DATA pulse.\<close>

definition jiffy_detect :: "bool \<Rightarrow> byte \<Rightarrow> 'd iec \<Rightarrow> (bool \<times> 'd iec) option" where
  "jiffy_detect last_bit data s =
     (let d = findDevice (drop_bit 1 data AND 0x0F) (devices s) in
      if \<not> under_atn s \<and> \<not> readPinATN s then Some (False, s)
      else do {
        (ok, s1) \<leftarrow>
          (case d of
             Some dv \<Rightarrow>
               if under_atn s \<and> primary s = 0 \<and> last_bit \<and> has_flag S_JIFFY_ENABLED dv then
                 (case waitTimeout 80 (writePinDATA False
                          (s\<lparr>devices := update_device (devnr dv) (set_flags S_JIFFY_DETECTED) (devices s)\<rparr>)) of
                    (False, s') \<Rightarrow> Some (False, s')
                  | (True, s') \<Rightarrow> Some (True, writePinDATA True s'))
               else Some (True, s)
           | None \<Rightarrow> Some (True, s));
        if ok then waitPinCLK True 1000 s1 else Some (False, s1) })"

text \<open>Lines 1823--1859: the eight data bits, least significant first, each
  sampled from DATA while CLK is high. \<open>rx_bits n\<close> has \<open>n\<close> bits left, so the
  bit with index 7 is the one received by \<open>rx_bits 1\<close>.\<close>

primrec rx_bits :: "nat \<Rightarrow> byte \<Rightarrow> 'd iec \<Rightarrow> (byte option \<times> 'd iec) option" where
  "rx_bits 0 data s = Some (Some data, s)"
| "rx_bits (Suc n) data s = do {
     (ok, s1) \<leftarrow> waitPinCLK True 200 s;
     (ok1, s2) \<leftarrow> (if ok then Some (True, s1) else jiffy_detect (n = 0) data s1);
     if \<not> ok1 then Some (None, s2)
     else do {
       (ok2, s3) \<leftarrow> waitPinCLK False 1000 s2;
       if ok2 then rx_bits n (shift_in_msb (readPinDATA s2) data) s3 else Some (None, s3) } }"

text \<open>Lines 1865--1875: under ATN the first non-zero byte is the primary address
  (selecting \<open>m_currentDevice\<close> by its low nibble), the next one the secondary
  address. The secondary address is reported through \<open>m_currentDevice\<close>
  without a null check.\<close>

definition record_address :: "'d dev_ops \<Rightarrow> byte \<Rightarrow> 'd iec \<Rightarrow> 'd iec option" where
  "record_address ops data s =
     (if primary s = 0 then
        (let s1 = s\<lparr>primary := data,
                    currentDevice := map_option devnr (findDevice (data AND 0x0f) (devices s))\<rparr>
         in if currentDevice s1 = None then Some s1
            else update_current (dev_primary_address ops data) s1)
      else if secondary s = 0 then
        update_current (dev_secondary_address ops data) (s\<lparr>secondary := data\<rparr>)
      else Some s)"

text \<open>Lines 1861--1930: under ATN, acknowledge the frame unless it is addressed to
  no attached device (and is not UNLISTEN/UNTALK); as listener, acknowledge and
  pass the byte to the device if \<open>canWrite()\<close> allowed it.\<close>

definition rx_finish :: "'d dev_ops \<Rightarrow> bool \<Rightarrow> bool \<Rightarrow> byte \<Rightarrow> 'd iec \<Rightarrow> (bool \<times> 'd iec) option" where
  "rx_finish ops canWriteOk eoi data s =
     (if under_atn s then do {
        s1 \<leftarrow> record_address ops data s;
        if primary s1 \<noteq> 0x3f \<and> primary s1 \<noteq> 0x5f \<and> findDevice (primary s1 AND 0x1f) (devices s1) = None
        then Some (False, s1)
        else Some (True, writePinDATA False s1) }
      else if canWriteOk then do {
        s1 \<leftarrow> update_current (dev_write ops data eoi) (writePinDATA False s);
        Some (True, s1) }
      else Some (False, s))"

definition receiveIECByte :: "'d dev_ops \<Rightarrow> bool \<Rightarrow> 'd iec \<Rightarrow> (bool \<times> 'd iec) option" where
  "receiveIECByte ops canWriteOk s = do {
     (ok, s1) \<leftarrow> rx_start s;
     if \<not> ok then Some (False, s1)
     else do {
       (r, s2) \<leftarrow> rx_wait_ready s1;
       (case r of
          None \<Rightarrow> Some (False, s2)
        | Some eoi \<Rightarrow> do {
            (rd, s3) \<leftarrow> rx_bits 8 0 s2;
            (case rd of
               None \<Rightarrow> Some (False, s3)
             | Some data \<Rightarrow> rx_finish ops canWriteOk eoi data s3) }) } }"

section \<open>Properties of receiveIECByte\<close>

lemma rx_bit_step:
  assumes bus: "bus s = host_bit a t c @ y # rest"
    and y: "\<not> s_clk y" "s_atn y = a"
    and a: "a \<noteq> under_atn s" and out: "clkOut s" "dataOut s"
    and t: "fst t < 200" "snd t < 1000"
  shows "rx_bits (Suc n) data s = rx_bits n (shift_in_msb c data) (ticks (length (host_bit a t c)) s)"
proof -
  let ?s1 = "ticks (Suc (fst t)) s"
  have w1: "waitPinCLK True 200 s = Some (True, ?s1)"
    by (rule waitPinCLK_block[where x = "hsample a False c" and y = "hsample a True c"])
       (use bus t a out in \<open>simp_all add: host_bit_def\<close>)
  have bus1: "bus ?s1 = replicate (Suc (snd t)) (hsample a True c) @ y # rest"
    using bus by (simp add: host_bit_def)
  have d: "readPinDATA ?s1 = c"
    using bus1 out by (simp add: readPinDATA_def cur_sample_def)
  have w2: "waitPinCLK False 1000 ?s1 = Some (True, ticks (Suc (snd t)) ?s1)"
    by (rule waitPinCLK_block[OF bus1]) (use y t a out in simp_all)
  show ?thesis
    using w1 w2 d by (simp add: ticks_add)
qed

lemma rx_bits_host:
  "length ts = length cs \<Longrightarrow> timing_ok ts \<Longrightarrow>
   bus s = host_bits a ts cs @ y # rest \<Longrightarrow> \<not> s_clk y \<Longrightarrow> s_atn y = a \<Longrightarrow>
   a \<noteq> under_atn s \<Longrightarrow> clkOut s \<Longrightarrow> dataOut s \<Longrightarrow>
   rx_bits (length cs) data s =
     Some (Some (foldl (\<lambda>x c. shift_in_msb c x) data cs), ticks (length (host_bits a ts cs)) s)"
proof (induction ts cs arbitrary: s data rule: list_induct2)
  case Nil
  then show ?case by simp
next
  case (Cons t ts c cs)
  obtain z rest' where z: "host_bits a ts cs @ y # rest = z # rest'" "\<not> s_clk z" "s_atn z = a"
    using host_bits_head[OF Cons.hyps(1) Cons.prems(3,4)] by blast
  have t: "fst t < 200" "snd t < 1000" using Cons.prems(1) by (auto simp: timing_ok_def)
  have bus: "bus s = host_bit a t c @ z # rest'"
    using Cons.prems(2) z(1) by (simp add: host_bits_Cons)
  have step: "rx_bits (Suc (length cs)) data s =
      rx_bits (length cs) (shift_in_msb c data) (ticks (length (host_bit a t c)) s)"
    by (rule rx_bit_step[OF bus z(2,3)]) (use Cons.prems t in simp_all)
  have "rx_bits (length cs) (shift_in_msb c data) (ticks (length (host_bit a t c)) s) =
      Some (Some (foldl (\<lambda>x c. shift_in_msb c x) (shift_in_msb c data) cs),
            ticks (length (host_bits a ts cs)) (ticks (length (host_bit a t c)) s))"
    by (rule Cons.IH) (use Cons.prems in \<open>simp_all add: timing_ok_def host_bits_Cons\<close>)
  then show ?case using step by (simp add: ticks_add host_bits_Cons)
qed

lemma rx_wait_ready_prompt:
  assumes bus: "bus s = replicate k (hsample a True True) @ z # rest"
    and z: "\<not> s_clk z" "s_atn z = a" and a: "a \<noteq> under_atn s" and out: "clkOut s"
    and k: "k \<le> 200"
  shows "rx_wait_ready s = Some (Some False, ticks k s)"
proof -
  have "waitPinCLK False 200 s = Some (True, ticks k s)"
    by (rule waitPinCLK_block[OF bus]) (use z a out k in simp_all)
  then show ?thesis by (simp add: rx_wait_ready_def)
qed

lemma rx_wait_ready_eoi:
  assumes bus: "bus s = replicate k (hsample a True True) @ z # rest"
    and z: "\<not> s_clk z" "s_atn z = a" and a: "a \<noteq> under_atn s" and out: "clkOut s"
    and k: "280 \<le> k" "k \<le> 1280"
  shows "rx_wait_ready s =
    Some (Some True, ticks (k - 280) (writePinDATA True (ticks 80 (writePinDATA False (ticks 200 s)))))"
proof -
  let ?s1 = "ticks 200 s"
  have w1: "waitPinCLK False 200 s = Some (False, ?s1)"
    by (rule waitPinCLK_times_out[OF bus]) (use a out k in simp_all)
  have atn1: "under_atn ?s1 \<or> readPinATN ?s1"
    using bus a k by (auto simp: readPinATN_ticks nth_append)
  have w2: "waitTimeout 80 (writePinDATA False ?s1) = (True, ticks 80 (writePinDATA False ?s1))"
  proof (rule waitTimeout_ticks, intro allI impI)
    fix i :: nat assume "i < 80"
    then have "i < length (bus (writePinDATA False ?s1))" "bus (writePinDATA False ?s1) ! i = hsample a True True"
      using bus k by (simp_all add: writePinDATA_def nth_append)
    then show "under_atn (writePinDATA False ?s1) \<or> readPinATN (ticks i (writePinDATA False ?s1))"
      using a by (auto simp: readPinATN_ticks)
  qed
  let ?s2 = "writePinDATA True (ticks 80 (writePinDATA False ?s1))"
  have bus2: "bus ?s2 = replicate (k - 280) (hsample a True True) @ z # rest"
    using bus k by (simp add: writePinDATA_def ticks_def)
  have w3: "waitPinCLK False 1000 ?s2 = Some (True, ticks (k - 280) ?s2)"
    by (rule waitPinCLK_block[OF bus2]) (use z a out k in \<open>simp_all add: writePinDATA_def flag_set_def ticks_def\<close>)
  show ?thesis using w1 w2 w3 atn1 by (simp add: rx_wait_ready_def)
qed

lemma receiveIECByte_after_ready:
  assumes rdy: "rx_wait_ready (writePinDATA True s) = Some (Some e, s2)"
    and bus: "bus s2 = host_bits True ts (lsb_bits b) @ z # rest" and z: "\<not> s_clk z" "s_atn z"
    and ts: "length ts = 8" "timing_ok ts"
    and st: "\<not> under_atn s" "\<not> under_atn s2" "clkOut s2" "dataOut s2"
    and cur: "currentDevice s2 = Some n" "findDevice n (devices s2) = Some d"
  shows "receiveIECByte ops True s =
    Some (True, (writePinDATA False (ticks (length (host_bits True ts (lsb_bits b))) s2))
                  \<lparr>devices := update_device n (dev_write ops b e) (devices s2)\<rparr>)"
proof -
  have rx: "rx_bits 8 0 s2 = Some (Some b, ticks (length (host_bits True ts (lsb_bits b))) s2)"
    using rx_bits_host[of ts "lsb_bits b" s2 True z rest 0] ts bus z st
    by (simp add: foldl_shift_in_lsb_bits)
  show ?thesis
    using rdy rx st cur
    by (simp add: receiveIECByte_def rx_start_def rx_finish_def update_current_Some writePinDATA_def flag_set_def)
qed

text \<open>C1: a byte framed by the bus master as the standard IEC serial protocol
  prescribes (ready phase of \<open>k\<close> microseconds, eight bits LSB first within
  the accepted timing windows) is received by \<open>receiveIECByte\<close> as listener:
  it returns success, passes exactly that byte to the current device's
  \<open>write\<close> with the EOI flag set exactly when the ready phase exceeded 200us,
  acknowledges by pulling DATA low and consumes exactly the frame.\<close>

theorem receiveIECByte_roundtrip:
  assumes st: "\<not> under_atn s" "clkOut s"
    and cur: "currentDevice s = Some n" "findDevice n (devices s) = Some d"
    and bus: "bus s = host_byte True k ts b @ z # rest" and z: "\<not> s_clk z" "s_atn z"
    and ts: "length ts = 8" "timing_ok ts"
    and k: "k \<le> 200 \<or> 280 \<le> k \<and> k \<le> 1280"
  shows "\<exists>s'. receiveIECByte ops True s = Some (True, s') \<and> bus s' = z # rest \<and> \<not> dataOut s' \<and>
           devices s' = update_device n (dev_write ops b (200 < k)) (devices s)"
proof -
  let ?s1 = "writePinDATA True s"
  let ?hb = "host_bits True ts (lsb_bits b)"
  obtain z' rest' where z': "?hb @ z # rest = z' # rest'" "\<not> s_clk z'" "s_atn z'"
    using host_bits_head[of ts "lsb_bits b" z True rest] ts z by auto
  have bus1: "bus ?s1 = replicate k (hsample True True True) @ z' # rest'"
    using bus z' by (simp add: host_byte_def writePinDATA_def)
  show ?thesis
  proof (cases "k \<le> 200")
    case True
    have rdy: "rx_wait_ready ?s1 = Some (Some False, ticks k ?s1)"
      by (rule rx_wait_ready_prompt[OF bus1 z'(2)]) (use st True z'(3) in \<open>simp_all add: writePinDATA_def\<close>)
    have bus2: "bus (ticks k ?s1) = ?hb @ z # rest"
      using bus by (simp add: host_byte_def writePinDATA_def)
    show ?thesis
      using receiveIECByte_after_ready[OF rdy bus2 z ts, of n d ops] st cur True bus
      by (simp add: host_byte_def)
  next
    case False
    then have k': "280 \<le> k" "k \<le> 1280" using k by auto
    let ?s2 = "ticks (k - 280) (writePinDATA True (ticks 80 (writePinDATA False (ticks 200 ?s1))))"
    have rdy: "rx_wait_ready ?s1 = Some (Some True, ?s2)"
      by (rule rx_wait_ready_eoi[OF bus1 z'(2)]) (use st k' z'(3) in \<open>simp_all add: writePinDATA_def\<close>)
    have bus2: "bus ?s2 = ?hb @ z # rest"
      using bus k' by (simp add: host_byte_def writePinDATA_def)
    show ?thesis
      using receiveIECByte_after_ready[OF rdy bus2 z ts, of n d ops] st cur False bus k'
      by (simp add: host_byte_def)
  qed
qed

end
