(* ===== verification/IEC_Transmit.thy ===== *)
theory IEC_Transmit
  imports Device_Table IEC_Host "HOL-Library.Monad_Syntax"
begin

text \<open>
  \<open>transmitIECByte()\<close> of IECBusHandler.cpp: one byte from the current device
  to the bus master, the handler being talker. The main result is that, on a
  listener following the protocol, the routine puts on the wire exactly the
  frame a listener decodes back to the byte the device's \<open>read()\<close> returned.
\<close>

section \<open>transmitIECByte\<close>

text \<open>Lines 1977--1996: each bit is put on DATA while CLK is low for 80us, then
  CLK is released for 60us ("data valid").\<close>

primrec tx_bits :: "nat \<Rightarrow> byte \<Rightarrow> 'd iec \<Rightarrow> bool \<times> 'd iec" where
  "tx_bits 0 data s = (True, s)"
| "tx_bits (Suc n) data s =
     (case waitTimeout 80 (writePinDATA (data AND 1 \<noteq> 0) (writePinCLK False s)) of
        (False, s1) \<Rightarrow> (False, s1)
      | (True, s1) \<Rightarrow>
          (case waitTimeout 60 (writePinCLK True s1) of
             (False, s2) \<Rightarrow> (False, s2)
           | (True, s2) \<Rightarrow> tx_bits n (drop_bit 1 data) s2))"

text \<open>Lines 1955--1963: on the last byte (or a verify error) keep CLK released
  and wait for the receiver's EOI acknowledgement, a DATA low pulse.\<close>

definition tx_eoi :: "bool \<Rightarrow> 'd iec \<Rightarrow> (bool \<times> 'd iec) option" where
  "tx_eoi verifyError s = do {
     (ok, s1) \<leftarrow> waitPinDATA False (if verifyError then 0 else 1000) s;
     if ok then waitPinDATA True 1000 s1 else Some (False, s1) }"

definition transmitIECByte :: "'d dev_ops \<Rightarrow> byte \<Rightarrow> 'd iec \<Rightarrow> (bool \<times> 'd iec) option" where
  "transmitIECByte ops numData s = do {
     let verifyError = readPinDATA s;
     (ok, s1) \<leftarrow> waitPinDATA True 0 (writePinCLK True s);
     if \<not> ok then Some (False, s1)
     else do {
       (ok2, s2) \<leftarrow> (if numData = 1 \<or> verifyError then tx_eoi verifyError s1 else Some (True, s1));
       if \<not> ok2 \<or> numData = 0 then Some (False, s2)
       else do {
         (data, s3) \<leftarrow> call_current (dev_read ops) (writePinCLK False s2);
         (case tx_bits 8 data s3 of
            (False, s4) \<Rightarrow> Some (False, s4)
          | (True, s4) \<Rightarrow> waitPinDATA False 1000 (writePinDATA True (writePinCLK False s4))) } } }"

section \<open>Properties of transmitIECByte\<close>

lemma tx_bits_wire:
  "\<forall>x\<in>set (take (140 * k) (bus s)). s_atn x \<Longrightarrow> \<not> under_atn s \<Longrightarrow>
   \<exists>c d. tx_bits k data s =
     (True, s\<lparr>bus := drop (140 * k) (bus s), micros := micros s + of_nat (140 * k),
              wire := wire s @ concat (map talker_bit (map (bit data) [0..<k])), clkOut := c, dataOut := d\<rparr>)"
proof (induction k arbitrary: data s)
  case 0
  show ?case by (rule exI[of _ "clkOut s"], rule exI[of _ "dataOut s"]) simp
next
  case (Suc k)
  let ?s1 = "writePinDATA (data AND 1 \<noteq> 0) (writePinCLK False s)"
  have w1: "waitTimeout 80 ?s1 = (True, ticks 80 ?s1)"
    using Suc.prems(1)
    by (intro waitTimeout_ticks allI impI disjI2 readPinATN_prefix[where k = "140 * Suc k"]) simp_all
  let ?s2 = "writePinCLK True (ticks 80 ?s1)"
  have atn2: "\<forall>x\<in>set (take (140 * Suc k - 80) (bus (ticks 80 ?s1))). s_atn x"
    using atn_prefix_ticks[OF Suc.prems(1), of 80] by simp
  have w2: "waitTimeout 60 ?s2 = (True, ticks 60 ?s2)"
    using atn2
    by (intro waitTimeout_ticks allI impI disjI2 readPinATN_prefix[where k = "140 * Suc k - 80"]) simp_all
  have atn3: "\<forall>x\<in>set (take (140 * k) (bus (ticks 60 ?s2))). s_atn x"
    using atn_prefix_ticks[OF atn2, of 60] by (simp add: ticks_def)
  have "\<exists>c d. tx_bits k (drop_bit 1 data) (ticks 60 ?s2) =
     (True, (ticks 60 ?s2)\<lparr>bus := drop (140 * k) (bus (ticks 60 ?s2)),
        micros := micros (ticks 60 ?s2) + of_nat (140 * k),
        wire := wire (ticks 60 ?s2) @ concat (map talker_bit (map (bit (drop_bit 1 data)) [0..<k])),
        clkOut := c, dataOut := d\<rparr>)"
    by (rule Suc.IH) (use atn3 Suc.prems(2) in simp_all)
  then obtain c d where ih: "tx_bits k (drop_bit 1 data) (ticks 60 ?s2) =
     (True, (ticks 60 ?s2)\<lparr>bus := drop (140 * k) (bus (ticks 60 ?s2)),
        micros := micros (ticks 60 ?s2) + of_nat (140 * k),
        wire := wire (ticks 60 ?s2) @ concat (map talker_bit (map (bit (drop_bit 1 data)) [0..<k])),
        clkOut := c, dataOut := d\<rparr>)"
    by blast
  have bit0: "(data AND 1 \<noteq> 0) = bit data 0"
    using drop_bit_and_one_byte[of 0 data] by simp
  have "tx_bits (Suc k) data s = tx_bits k (drop_bit 1 data) (ticks 60 ?s2)"
    using w1 w2 by simp
  also have "\<dots> = (True, s\<lparr>bus := drop (140 * Suc k) (bus s), micros := micros s + of_nat (140 * Suc k),
              wire := wire s @ concat (map talker_bit (map (bit data) [0..<Suc k])), clkOut := c, dataOut := d\<rparr>)"
    using ih
    by (simp add: ticks_def talker_bit_def bit0 bit_list_shift[symmetric] add_ac mult_ac del: upt_Suc)
  finally show ?case by blast
qed


text \<open>C2: as talker, with a listener that releases DATA after \<open>j+1\<close>
  microseconds, leaves it released while the bits are clocked and acknowledges
  the byte within 1000us, \<open>transmitIECByte\<close> with more than one byte left
  reads one byte from the current device, drives CLK and DATA exactly as the
  standard frame (ready, eight bits of 80us CLK low and 60us CLK high with the
  bit on DATA, least significant first, then CLK low until the acknowledgement),
  consumes exactly the listener's trace and returns success.\<close>

theorem transmitIECByte_wire:
  assumes st: "\<not> under_atn s" "dataOut s"
    and cur: "currentDevice s = Some n" "findDevice n (devices s) = Some d"
    and bus: "bus s = replicate (Suc j) (hsample True True False) @
                      replicate (1120 + m) (hsample True True True) @ hsample True True False # rest"
    and nd: "numData \<noteq> 0" "numData \<noteq> 1"
    and m: "m \<le> 1000"
  shows "\<exists>s'. transmitIECByte ops numData s = Some (True, s') \<and>
     wire s' = wire s @ replicate (Suc j) (True, True) @ talker_bits (fst (dev_read ops d)) @
               replicate m (False, True) \<and>
     devices s' = update_device n (\<lambda>_. snd (dev_read ops d)) (devices s) \<and>
     bus s' = hsample True True False # rest"
proof -
  let ?lo = "hsample True True False" and ?hi = "hsample True True True"
  define s1 where "s1 = ticks (Suc j) (writePinCLK True s)"
  have ve: "\<not> readPinDATA s" using bus by (simp add: readPinDATA_def cur_sample_def)
  have w1: "waitPinDATA True 0 (writePinCLK True s) = Some (True, s1)"
    unfolding s1_def
  proof (rule waitPinDATA_block[where x = ?lo and y = ?hi and rest = "replicate (1119 + m) ?hi @ ?lo # rest"])
    have "replicate (1120 + m) ?hi = ?hi # replicate (1119 + m) ?hi" by (simp add: numeral_eq_Suc)
    then show "bus (writePinCLK True s) = replicate (Suc j) ?lo @ ?hi # replicate (1119 + m) ?hi @ ?lo # rest"
      using bus by simp
  qed (use st bus in simp_all)
  define data where "data = fst (dev_read ops d)"
  define s3 where "s3 = (writePinCLK False s1)\<lparr>devices := update_device n (\<lambda>_. snd (dev_read ops d)) (devices s)\<rparr>"
  have rd: "call_current (dev_read ops) (writePinCLK False s1) = Some (data, s3)"
    using cur by (simp add: call_current_def s1_def s3_def data_def split: prod.splits)
  have atn3: "\<forall>x\<in>set (take (140 * 8) (bus s3)). s_atn x"
    using bus by (simp add: s3_def s1_def)
  obtain c e where tx: "tx_bits 8 data s3 = (True, s3\<lparr>bus := drop 1120 (bus s3), micros := micros s3 + 1120,
      wire := wire s3 @ concat (map talker_bit (map (bit data) [0..<8])), clkOut := c, dataOut := e\<rparr>)"
    using tx_bits_wire[OF atn3, of data] st by (auto simp: s3_def s1_def)
  define s4 where "s4 = writePinDATA True (writePinCLK False (s3\<lparr>bus := drop 1120 (bus s3), micros := micros s3 + 1120,
      wire := wire s3 @ concat (map talker_bit (map (bit data) [0..<8])), clkOut := c, dataOut := e\<rparr>))"
  have w2: "waitPinDATA False 1000 s4 = Some (True, ticks m s4)"
    by (rule waitPinDATA_block[where x = ?hi and y = ?lo and rest = rest])
       (use bus st m in \<open>simp_all add: s4_def s3_def s1_def\<close>)
  have "transmitIECByte ops numData s = Some (True, ticks m s4)"
    using w1 rd tx w2 ve nd by (simp add: transmitIECByte_def s4_def)
  moreover have "wire (ticks m s4) = wire s @ replicate (Suc j) (True, True) @ talker_bits data @ replicate m (False, True)"
    using st by (simp add: s4_def s3_def s1_def ticks_def talker_bits_def lsb_bits_def)
  moreover have "devices (ticks m s4) = update_device n (\<lambda>_. snd (dev_read ops d)) (devices s)"
    by (simp add: s4_def s3_def)
  moreover have "bus (ticks m s4) = ?lo # rest"
    using bus by (simp add: s4_def s3_def s1_def)
  ultimately show ?thesis unfolding data_def by blast
qed

end
