(* ===== verification/IEC_Atn.thy ===== *)
theory IEC_Atn
  imports Device_Table "HOL-Library.Monad_Syntax"
begin

text \<open>
  The edges of ATN (IECBusHandler.cpp): \<open>atnRequest()\<close> on the falling edge
  and the part of \<open>task()\<close> that runs on the rising edge and turns the
  captured primary address into LISTEN, TALK, UNLISTEN or UNTALK.
\<close>

text \<open>\<open>atnRequest()\<close> (lines 2011--2045): falling edge on ATN.\<close>

definition atnRequest :: "'d iec \<Rightarrow> 'd iec" where
  "atnRequest s =
     (let s1 = s\<lparr>flags := (flags s OR P_ATN) AND NOT P_DONE, currentDevice := None,
                 primary := 0, secondary := 0, timeoutStart := micros s\<rparr>;
          s2 = writePinCTRL True (writePinDATA False (writePinCLK True s1))
      in s2\<lparr>devices := map (clear_flags (S_EPYX_HEADER OR S_EPYX_LOAD OR S_EPYX_SECTOROP) \<circ>
                             clear_flags (S_JIFFY_DETECTED OR S_JIFFY_BLOCK)) (devices s2)\<rparr>)"

text \<open>Lines 2090--2102: the primary address was a LISTEN to an attached device.\<close>

definition atn_listen :: "'d dev_ops \<Rightarrow> 'd iec \<Rightarrow> 'd iec option" where
  "atn_listen ops s = do {
     s1 \<leftarrow> update_current (dev_listen ops (secondary s)) s;
     Some (writePinDATA False (s1\<lparr>flags := (flags s1 AND NOT P_TALKING) OR P_LISTENING\<rparr>)) }"

text \<open>Lines 2103--2132: a TALK to an attached device. A JiffyDOS talk on
  secondary 0x61 becomes channel 0x60 in block mode. Then the role reversal:
  wait for the master to release CLK, take CLK, release DATA.\<close>

definition atn_talk :: "'d dev_ops \<Rightarrow> 'd iec \<Rightarrow> 'd iec option" where
  "atn_talk ops s = do {
     (jiffy, _) \<leftarrow> call_current (\<lambda>d. (has_flag S_JIFFY_DETECTED d, d)) s;
     s1 \<leftarrow> (if jiffy \<and> secondary s = 0x61
            then update_current (set_flags S_JIFFY_BLOCK) (s\<lparr>secondary := 0x60\<rparr>)
            else Some s);
     s2 \<leftarrow> update_current (dev_talk ops (secondary s1)) s1;
     let s3 = s2\<lparr>flags := (flags s2 AND NOT P_LISTENING) OR P_TALKING\<rparr>;
     (ok, s4) \<leftarrow> waitPinCLK True 1000 s3;
     Some (if ok then writePinDATA True (writePinCLK False s4)\<lparr>timeoutStart := micros s4, timeoutDuration := 80\<rparr>
           else s4) }"

text \<open>Lines 2082--2155: rising edge on ATN. Note that the address test assigns
  \<open>m_currentDevice\<close> whenever the role bits are LISTEN (0x20) or TALK (0x40),
  and that UNLISTEN (0x3F) and UNTALK (0x5F) carry those role bits.\<close>

definition atn_release :: "'d dev_ops \<Rightarrow> 'd iec \<Rightarrow> 'd iec option" where
  "atn_release ops s0 = do {
     let s = writePinCTRL False (s0\<lparr>flags := flags s0 AND NOT P_ATN\<rparr>);
     let role = primary s AND 0xE0;
     let target = map_option devnr (findDevice (primary s AND 0x1F) (devices s));
     s' \<leftarrow>
       (if role = 0x20 \<and> target \<noteq> None then atn_listen ops (s\<lparr>currentDevice := target\<rparr>)
        else if role = 0x40 \<and> target \<noteq> None then atn_talk ops (s\<lparr>currentDevice := target\<rparr>)
        else
          (let s1 = (if role = 0x20 \<or> role = 0x40 then s\<lparr>currentDevice := target\<rparr> else s) in
           if primary s1 = 0x3f \<and> flag_set P_LISTENING s1 then
             Some (s1\<lparr>flags := flags s1 AND NOT P_LISTENING, devices := map (dev_unlisten ops) (devices s1)\<rparr>)
           else if primary s1 = 0x5f \<and> flag_set P_TALKING s1 then
             Some (s1\<lparr>flags := flags s1 AND NOT P_TALKING, devices := map (dev_untalk ops) (devices s1)\<rparr>)
           else Some s1));
     Some (if flags s' AND (P_LISTENING OR P_TALKING) = 0
           then writePinDATA True (writePinCLK True s') else s') }"

section \<open>Properties of the ATN edges\<close>

lemma atnRequest_sel:
  "flags (atnRequest s) = (flags s OR P_ATN) AND NOT P_DONE" "currentDevice (atnRequest s) = None"
  "primary (atnRequest s) = 0" "secondary (atnRequest s) = 0" "timeoutStart (atnRequest s) = micros s"
  "clkOut (atnRequest s)" "\<not> dataOut (atnRequest s)" "bus (atnRequest s) = bus s" "wire (atnRequest s) = wire s"
  "micros (atnRequest s) = micros s" "pinCTRL (atnRequest s) = pinCTRL s"
  "devices (atnRequest s) = map (clear_flags (S_EPYX_HEADER OR S_EPYX_LOAD OR S_EPYX_SECTOROP) \<circ>
                             clear_flags (S_JIFFY_DETECTED OR S_JIFFY_BLOCK)) (devices s)"
  by (simp_all add: atnRequest_def writePinCTRL_def Let_def)

text \<open>C5: on the falling edge of ATN the handler enters the addressing state:
  \<open>P_ATN\<close> set and \<open>P_DONE\<close> cleared, no current device, both addresses reset to
  "not yet received", CLK released and DATA pulled low ("I am here"), the
  timeout restarted, and the JiffyDOS and Epyx detection flags of every device
  cleared, the table itself unchanged.\<close>

theorem atnRequest_post:
  "under_atn (atnRequest s) \<and> \<not> flag_set P_DONE (atnRequest s) \<and>
   currentDevice (atnRequest s) = None \<and> primary (atnRequest s) = 0 \<and> secondary (atnRequest s) = 0 \<and>
   clkOut (atnRequest s) \<and> \<not> dataOut (atnRequest s) \<and> timeoutStart (atnRequest s) = micros s \<and>
   map devnr (devices (atnRequest s)) = map devnr (devices s) \<and>
   (\<forall>d\<in>set (devices (atnRequest s)).
      \<not> has_flag (S_JIFFY_DETECTED OR S_JIFFY_BLOCK OR S_EPYX_HEADER OR S_EPYX_LOAD OR S_EPYX_SECTOROP) d) \<and>
   bus (atnRequest s) = bus s \<and> wire (atnRequest s) = wire s"
  by (auto simp: atnRequest_sel byte_eq_bits flag_bits clear_flags_clear_flags intro!: has_flag_clear_flags)

text \<open>The flag word after a LISTEN: \<open>P_ATN\<close> and \<open>P_TALKING\<close> cleared,
  \<open>P_LISTENING\<close> set.\<close>

lemma listen_flags:
  fixes f :: byte
  defines "g \<equiv> (f AND NOT P_ATN AND NOT P_TALKING) OR P_LISTENING"
  shows "g AND (P_LISTENING OR P_TALKING) \<noteq> 0" "g AND P_ATN = 0" "g AND P_LISTENING \<noteq> 0" "g AND P_TALKING = 0"
  by (simp_all add: g_def byte_eq_bits flag_bits)

lemma atn_release_listen_eq:
  assumes role: "primary s AND 0xE0 = 0x20" and d: "findDevice (primary s AND 0x1F) (devices s) = Some d"
  shows "atn_release ops s = Some (writePinDATA False ((writePinCTRL False s)\<lparr>currentDevice := Some (devnr d),
     devices := update_device (devnr d) (dev_listen ops (secondary s)) (devices s),
     flags := (flags s AND NOT P_ATN AND NOT P_TALKING) OR P_LISTENING\<rparr>))"
proof -
  have n: "devnr d = primary s AND 0x1F" using d by (rule findDevice_devnr)
  show ?thesis
    using role d listen_flags(1)[of "flags s"]
    by (simp add: atn_release_def atn_listen_def Let_def writePinCTRL_upd update_current_Some n word_bw_assocs)
qed

text \<open>C6: on the rising edge of ATN after a LISTEN to an attached device, that
  device becomes the current one and is told to listen on the secondary
  address; the handler is LISTENING, not TALKING, no longer under ATN, and
  holds DATA low ("I am here").\<close>

theorem atn_release_listen:
  assumes role: "primary s AND 0xE0 = 0x20" and d: "findDevice (primary s AND 0x1F) (devices s) = Some d"
  shows "\<exists>s'. atn_release ops s = Some s' \<and> \<not> under_atn s' \<and> flag_set P_LISTENING s' \<and>
     \<not> flag_set P_TALKING s' \<and> currentDevice s' = Some (devnr d) \<and>
     devices s' = update_device (devnr d) (dev_listen ops (secondary s)) (devices s) \<and>
     \<not> dataOut s' \<and> clkOut s' = clkOut s \<and> bus s' = bus s"
  using atn_release_listen_eq[OF role d, of ops] listen_flags(2-4)[of "flags s"]
  by (simp add: writePinCTRL_upd)

text \<open>C7: on the rising edge of ATN after UNLISTEN (0x3F) while LISTENING (and
  no device has address 31), every device is told to unlisten, \<open>P_LISTENING\<close>
  is cleared, there is no current device, and unless the handler is also
  TALKING both CLK and DATA are released.\<close>

theorem atn_release_unlisten:
  assumes p: "primary s = 0x3f" and l: "flag_set P_LISTENING s" and no31: "findDevice 0x1F (devices s) = None"
  shows "atn_release ops s = Some (
     let s1 = (writePinCTRL False s)\<lparr>flags := flags s AND NOT P_ATN AND NOT P_LISTENING, currentDevice := None,
                                       devices := map (dev_unlisten ops) (devices s)\<rparr>
     in if flag_set P_TALKING s1 then s1 else writePinDATA True (writePinCLK True s1))"
proof -
  have f: "flags s AND NOT P_ATN AND P_LISTENING \<noteq> 0"
    "flags s AND NOT P_ATN AND NOT P_LISTENING = (flags s AND NOT P_ATN) AND NOT P_LISTENING"
    "(flags s AND NOT P_ATN AND NOT P_LISTENING) AND (P_LISTENING OR P_TALKING) = 0 \<longleftrightarrow>
     (flags s AND NOT P_ATN AND NOT P_LISTENING) AND P_TALKING = 0"
    using l by (simp_all add: byte_eq_bits flag_bits)
  show ?thesis
    using p no31 f by (simp add: atn_release_def Let_def writePinCTRL_upd word_bw_assocs)
qed

text \<open>C8: \<open>atnRequest\<close> leaves \<open>P_LISTENING\<close> and \<open>P_TALKING\<close> as they were: under
  ATN the handler may still be LISTENING or TALKING (the UNLISTEN and UNTALK
  handling of the rising edge relies on it).\<close>

theorem atnRequest_keeps_roles:
  "flags (atnRequest s) AND (P_LISTENING OR P_TALKING) = flags s AND (P_LISTENING OR P_TALKING)"
  by (simp add: atnRequest_sel byte_eq_bits flag_bits)

end
