(* ===== verification/IEC_Jiffy.thy ===== *)
theory IEC_Jiffy
  imports Device_Table IEC_Host "HOL-Library.Monad_Syntax"
begin

text \<open>
  The JiffyDOS routines of IECBusHandler.cpp (lines 500--838):
  \<open>enableJiffyDosSupport\<close>, \<open>receiveJiffyByte\<close>, \<open>transmitJiffyByte\<close> and
  \<open>transmitJiffyBlock\<close>. They run with interrupts disabled, wait for the other
  side without timeout, and then put or sample two bits at a time on CLK and
  DATA at fixed offsets from the handshake edge (\<open>timer_wait_until\<close>).
\<close>

section \<open>Enabling\<close>

text \<open>Lines 500--511. The handler's part of it reads only \<open>m_bufferSize\<close>, passed
  as \<open>bufSize\<close>: the fast-load buffer is the static \<open>m_buffer\<close> of
  \<open>IEC_DEFAULT_FASTLOAD_BUFFER_SIZE\<close> bytes, so \<open>m_buffer!=NULL\<close> holds.\<close>

definition enableJiffyDosSupport :: "bool \<Rightarrow> byte \<Rightarrow> 'd device \<Rightarrow> bool \<times> 'd device" where
  "enableJiffyDosSupport enable bufSize d =
     (let d1 = (if enable \<and> bufSize > 0 then set_flags S_JIFFY_ENABLED d else clear_flags S_JIFFY_ENABLED d);
          d2 = clear_flags (S_JIFFY_DETECTED OR S_JIFFY_BLOCK) d1
      in (has_flag S_JIFFY_ENABLED d2, d2))"

section \<open>Receiving a byte\<close>

text \<open>Two bits sampled at once: \<^verbatim>\<open>if( !readPinCLK() ) data |= m1; if( !readPinDATA() ) data |= m2;\<close>\<close>

definition sample_bits :: "byte \<Rightarrow> byte \<Rightarrow> 'd iec \<Rightarrow> byte" where
  "sample_bits m1 m2 s = (if \<not> readPinCLK s then m1 else 0) OR (if \<not> readPinDATA s then m2 else 0)"

text \<open>Lines 514--607.\<close>

definition receiveJiffyByte :: "'d dev_ops \<Rightarrow> bool \<Rightarrow> 'd iec \<Rightarrow> (bool \<times> 'd iec) option" where
  "receiveJiffyByte ops canWriteOk s = do {
     let s1 = writePinDATA True (s\<lparr>irqEnabled := False\<rparr>);
     s2 \<leftarrow> spin_until (\<lambda>s. readPinCLK s \<or> \<not> readPinATN s) s1;
     if \<not> readPinATN s2 then Some (False, s2\<lparr>irqEnabled := True\<rparr>)
     else do {
       let t0 = micros s2;
       let s3 = timer_wait_until t0 14 s2;
       let data = sample_bits 0x10 0x20 s3;
       let s4 = timer_wait_until t0 27 s3;
       let data = data OR sample_bits 0x40 0x80 s4;
       let s5 = timer_wait_until t0 38 s4;
       let data = data OR sample_bits 0x08 0x02 s5;
       let s6 = timer_wait_until t0 51 s5;
       let data = data OR sample_bits 0x04 0x01 s6;
       let s7 = timer_wait_until t0 64 s6;
       let eoi = readPinCLK s7;
       let s8 = (timer_wait_until t0 83 (writePinDATA False s7))\<lparr>irqEnabled := True\<rparr>;
       if canWriteOk then do {
         s9 \<leftarrow> update_current (dev_write ops data eoi) s8;
         Some (True, s9) }
       else Some (False, s8) } }"

section \<open>Transmitting a byte\<close>

text \<open>\<open>m_currentDevice->peek()\<close>; \<open>None\<close> for a null pointer.\<close>

definition peek_current :: "'d dev_ops \<Rightarrow> 'd iec \<Rightarrow> byte option" where
  "peek_current ops s =
     (case currentDevice s of
        None \<Rightarrow> None
      | Some n \<Rightarrow> map_option (dev_peek ops) (findDevice n (devices s)))"

text \<open>Lines 610--710. \<open>numData\<close>: 0 for no data (error), 1 for the last byte,
  more for "more to come".\<close>

definition transmitJiffyByte :: "'d dev_ops \<Rightarrow> byte \<Rightarrow> 'd iec \<Rightarrow> (bool \<times> 'd iec) option" where
  "transmitJiffyByte ops numData s = do {
     data \<leftarrow> (if numData > 0 then peek_current ops s else Some 0);
     let s1 = writePinCLK True (s\<lparr>irqEnabled := False\<rparr>);
     s2 \<leftarrow> spin_until (\<lambda>s. readPinDATA s \<or> \<not> readPinATN s) s1;
     if \<not> readPinATN s2 then Some (False, s2\<lparr>irqEnabled := True\<rparr>)
     else do {
       let t0 = micros s2;
       let s3 = timer_wait_until t0 17 (put_bits 0x01 0x02 data s2);
       let s4 = timer_wait_until t0 28 (put_bits 0x04 0x08 data s3);
       let s5 = timer_wait_until t0 39 (put_bits 0x10 0x20 data s4);
       let s6 = timer_wait_until t0 50 (put_bits 0x40 0x80 data s5);
       let s7 = (if numData > 1 then writePinDATA True (writePinCLK False s6)
                 else writePinDATA (numData = 0) (writePinCLK True s6));
       let s8 = timer_wait_until t0 60 (s7\<lparr>irqEnabled := True\<rparr>);
       (ok, s9) \<leftarrow> waitPinDATA False 1000 s8;
       if \<not> ok then Some (False, s9)
       else if numData > 0 then do {
         (_, s10) \<leftarrow> call_current (dev_read ops) s9;
         Some (True, s10) }
       else Some (False, s9) } }"

section \<open>Transmitting a block\<close>

text \<open>The loop of lines 755--825 over the bytes of the block.\<close>

primrec jiffy_block_bytes :: "byte list \<Rightarrow> 'd iec \<Rightarrow> (bool \<times> 'd iec) option" where
  "jiffy_block_bytes [] s = Some (True, s)"
| "jiffy_block_bytes (data # ds) s = do {
     let s1 = ticks 2 (writePinCLK True (writePinDATA True s));
     s2 \<leftarrow> spin_until (\<lambda>s. \<not> readPinDATA s \<or> \<not> readPinATN s) s1;
     if \<not> readPinATN s2 then Some (False, s2\<lparr>irqEnabled := True\<rparr>)
     else do {
       let t0 = micros s2;
       let s3 = timer_wait_until t0 6 s2;
       let s4 = timer_wait_until t0 17 (put_bits 0x01 0x02 data s3);
       let s5 = timer_wait_until t0 27 (put_bits 0x04 0x08 data s4);
       let s6 = timer_wait_until t0 39 (put_bits 0x10 0x20 data s5);
       let s7 = timer_wait_until t0 50 (put_bits 0x40 0x80 data s6);
       jiffy_block_bytes ds s7 } }"

text \<open>Lines 714--838. The block is the first \<open>numBytes\<close> bytes of the buffer,
  passed as a list.\<close>

definition transmitJiffyBlock :: "byte list \<Rightarrow> 'd iec \<Rightarrow> (bool \<times> 'd iec) option" where
  "transmitJiffyBlock blk s = do {
     s1 \<leftarrow> spin_until (\<lambda>s. readPinDATA s \<or> \<not> readPinATN s) s;
     if \<not> readPinDATA s1 then Some (False, s1)
     else if blk = [] then
       (case waitTimeout 100 (writePinCLK True (writePinDATA True s1)) of
          (False, s2) \<Rightarrow> Some (False, s2)
        | (True, s2) \<Rightarrow> Some (False, snd (waitTimeout 100 (writePinCLK False s2))))
     else
       (case waitTimeout 50 (writePinCLK True (writePinDATA False s1)) of
          (False, s2) \<Rightarrow> Some (False, s2)
        | (True, s2) \<Rightarrow> do {
            (ok, s3) \<leftarrow> jiffy_block_bytes blk (s2\<lparr>irqEnabled := False\<rparr>);
            if ok then Some (True, (writePinDATA True (writePinCLK False s3))\<lparr>irqEnabled := True\<rparr>)
            else Some (False, s3) }) }"

section \<open>Properties\<close>

lemma jiffy_assemble:
  "((((if bit b 4 then 0x10 else 0) OR (if bit b 5 then 0x20 else 0)) OR
     ((if bit b 6 then 0x40 else 0) OR (if bit b 7 then 0x80 else 0))) OR
     ((if bit b 3 then 0x08 else 0) OR (if bit b 1 then 0x02 else 0))) OR
     ((if bit b 2 then 0x04 else 0) OR (if bit b 0 then 0x01 else 0)) = (b::byte)"
  by (simp add: byte_eq_bits flag_bits)

lemma sample_bits_ticks:
  "i < length xs \<Longrightarrow> bus s = xs @ rest \<Longrightarrow> clkOut s \<Longrightarrow> dataOut s \<Longrightarrow>
   sample_bits m1 m2 (ticks i s) = (if \<not> s_clk (xs ! i) then m1 else 0) OR (if \<not> s_data (xs ! i) then m2 else 0)"
proof -
  assume a: "i < length xs" "bus s = xs @ rest" "clkOut s" "dataOut s"
  then have "i < length (bus s)" by simp
  then show ?thesis using a by (simp add: sample_bits_def readPinCLK_ticks readPinDATA_ticks nth_append)
qed

text \<open>C9: a JiffyDOS byte sent by the computer with the timing of its ROM routine
  (after any delay before its CLK edge) is received by \<open>receiveJiffyByte\<close>
  with every bit and the EOI flag, handed to the current device's
  \<open>write\<close>, acknowledged with DATA low, and exactly the frame is consumed.\<close>

theorem receiveJiffyByte_roundtrip:
  assumes out: "clkOut s" and cur: "currentDevice s = Some n" "findDevice n (devices s) = Some d"
    and bus: "bus s = replicate k (hsample True False True) @ jiffy_frame b eoi @ rest"
  shows "\<exists>s'. receiveJiffyByte ops True s = Some (True, s') \<and>
     devices s' = update_device n (dev_write ops b eoi) (devices s) \<and> bus s' = rest \<and> \<not> dataOut s'"
proof -
  define s1 where "s1 = writePinDATA True (s\<lparr>irqEnabled := False\<rparr>)"
  define s2 where "s2 = ticks k s1"
  let ?F = "jiffy_frame b eoi"
  have spin: "spin_until (\<lambda>s. readPinCLK s \<or> \<not> readPinATN s) s1 = Some s2"
    unfolding s2_def
    by (rule spin_until_reaches)
       (use bus out in \<open>auto simp: s1_def readPinCLK_ticks readPinATN_ticks nth_append jiffy_frame_nth jiffy_level_def\<close>)
  have bus2: "bus s2 = ?F @ rest" and out2: "clkOut s2" "dataOut s2"
    using bus out by (simp_all add: s2_def s1_def)
  have atn2: "readPinATN s2"
    using readPinATN_ticks[of 0 s2] bus2 by (simp add: nth_append jiffy_frame_nth)
  have tw: "timer_wait_until (micros s2) us (ticks j s2) = ticks (unat us) s2"
    if "j \<le> unat us" for j us
    using timer_wait_until_from[of "ticks j s2" "micros s2" j us] that by (simp add: micros_ticks ticks_add)
  have tw0: "timer_wait_until (micros s2) 14 s2 = ticks 14 s2"
    using tw[of 0 14] by simp
  have tw83: "timer_wait_until (micros s2) 83 ((ticks 64 s2)\<lparr>dataOut := False\<rparr>) = ticks 19 ((ticks 64 s2)\<lparr>dataOut := False\<rparr>)"
    using timer_wait_until_from[of "(ticks 64 s2)\<lparr>dataOut := False\<rparr>" "micros s2" 64 83] by (simp add: micros_ticks)
  have sb: "sample_bits m1 m2 (ticks i s2) = (if \<not> s_clk (?F ! i) then m1 else 0) OR (if \<not> s_data (?F ! i) then m2 else 0)"
    if "i < 83" for i m1 m2
    using sample_bits_ticks[OF _ bus2 out2] that by simp
  have eoi: "readPinCLK (ticks 64 s2) = eoi"
    using bus2 out2 by (simp add: readPinCLK_ticks nth_append jiffy_frame_nth jiffy_level_def)
  have data: "((sample_bits 0x10 0x20 (ticks 14 s2) OR sample_bits 0x40 0x80 (ticks 27 s2)) OR
               sample_bits 0x08 0x02 (ticks 38 s2)) OR sample_bits 0x04 0x01 (ticks 51 s2) = b"
    using jiffy_assemble[of b] by (simp add: sb jiffy_frame_nth jiffy_level_def)
  let ?s8 = "(ticks 19 (writePinDATA False (ticks 64 s2)))\<lparr>irqEnabled := True\<rparr>"
  have "receiveJiffyByte ops True s = Some (True, ?s8\<lparr>devices := update_device n (dev_write ops b eoi) (devices ?s8)\<rparr>)"
  proof -
    have ds: "devices s2 = devices s" "currentDevice s2 = currentDevice s" by (simp_all add: s2_def s1_def)
    show ?thesis
      unfolding receiveJiffyByte_def s1_def[symmetric]
      using spin atn2 cur data eoi ds by (simp add: Let_def tw0 tw tw83 update_current_Some)
  qed
  moreover have "bus ?s8 = rest" using bus2 by (simp add: ticks_def)
  ultimately show ?thesis using cur by (simp add: s2_def s1_def ticks_def)
qed

lemma put_bits_decode:
  "(if data AND 0x01 \<noteq> 0 then 0x01 else 0) OR (if data AND 0x02 \<noteq> 0 then 0x02 else 0) OR
   (if data AND 0x04 \<noteq> 0 then 0x04 else 0) OR (if data AND 0x08 \<noteq> 0 then 0x08 else 0) OR
   (if data AND 0x10 \<noteq> 0 then 0x10 else 0) OR (if data AND 0x20 \<noteq> 0 then 0x20 else 0) OR
   (if data AND 0x40 \<noteq> 0 then 0x40 else 0) OR (if data AND 0x80 \<noteq> 0 then (0x80::byte) else 0) = data"
  by (simp add: byte_eq_bits flag_bits)

text \<open>C10: as JiffyDOS talker with more bytes to follow, once the computer
  releases DATA \<open>transmitJiffyByte\<close> drives CLK and DATA so that the computer's
  ROM routine, reading at its fixed offsets, decodes exactly the byte the
  device's \<open>peek()\<close> returned and the status "more to come" (CLK low, DATA
  high); after the computer's acknowledgement the byte is consumed with
  \<open>read()\<close> and the routine returns success.\<close>

theorem transmitJiffyByte_wire:
  assumes st: "\<not> under_atn s" "dataOut s" and nd: "1 < numData"
    and cur: "currentDevice s = Some n" "findDevice n (devices s) = Some d"
    and bus: "bus s = replicate j (hsample True True False) @ replicate 63 (hsample True True True) @
                      hsample True True False # rest"
  shows "\<exists>s'. transmitJiffyByte ops numData s = Some (True, s') \<and>
     jiffy_decode (drop (length (wire s) + j) (wire s')) = dev_peek ops d \<and>
     drop (length (wire s) + j) (wire s') ! 59 = (False, True) \<and>
     devices s' = update_device n (\<lambda>_. snd (dev_read ops d)) (devices s) \<and>
     bus s' = hsample True True False # rest"
proof -
  let ?hi = "hsample True True True" and ?lo = "hsample True True False"
  define data where "data = dev_peek ops d"
  define s1 where "s1 = writePinCLK True (s\<lparr>irqEnabled := False\<rparr>)"
  define s2 where "s2 = ticks j s1"
  have nd0: "0 < numData" using nd by (simp add: word_less_nat_alt)
  have pk: "peek_current ops s = Some data" using cur by (simp add: peek_current_def data_def)
  have spin: "spin_until (\<lambda>s. readPinDATA s \<or> \<not> readPinATN s) s1 = Some s2"
    unfolding s2_def
    by (rule spin_until_reaches)
       (use bus st in \<open>auto simp: s1_def readPinDATA_ticks readPinATN_ticks nth_append\<close>)
  have bus2: "bus s2 = replicate 63 ?hi @ ?lo # rest" using bus by (simp add: s2_def s1_def)
  have atn2: "readPinATN s2" using readPinATN_ticks[of 0 s2] bus2 by (simp add: nth_append)
  have tw: "timer_wait_until (micros s2) us s' = ticks (unat us - k) s'"
    if "micros s' = micros s2 + of_nat k" "k \<le> unat us" for s' :: "'a iec" and k us
    using timer_wait_until_from[OF that] .
  define s3 where "s3 = ticks 17 (put_bits 0x01 0x02 data s2)"
  define s4 where "s4 = ticks 11 (put_bits 0x04 0x08 data s3)"
  define s5 where "s5 = ticks 11 (put_bits 0x10 0x20 data s4)"
  define s6 where "s6 = ticks 11 (put_bits 0x40 0x80 data s5)"
  define s8 where "s8 = ticks 10 ((writePinDATA True (writePinCLK False s6))\<lparr>irqEnabled := True\<rparr>)"
  have w3: "timer_wait_until (micros s2) 17 (put_bits 0x01 0x02 data s2) = s3"
    using tw[of "put_bits 0x01 0x02 data s2" 0 17] by (simp add: s3_def)
  have w4: "timer_wait_until (micros s2) 28 (put_bits 0x04 0x08 data s3) = s4"
    using tw[of "put_bits 0x04 0x08 data s3" 17 28] by (simp add: s4_def s3_def micros_ticks)
  have w5: "timer_wait_until (micros s2) 39 (put_bits 0x10 0x20 data s4) = s5"
    using tw[of "put_bits 0x10 0x20 data s4" 28 39] by (simp add: s5_def s4_def s3_def micros_ticks)
  have w6: "timer_wait_until (micros s2) 50 (put_bits 0x40 0x80 data s5) = s6"
    using tw[of "put_bits 0x40 0x80 data s5" 39 50] by (simp add: s6_def s5_def s4_def s3_def micros_ticks)
  have w8: "timer_wait_until (micros s2) 60 ((writePinDATA True (writePinCLK False s6))\<lparr>irqEnabled := True\<rparr>) = s8"
    using tw[of "(writePinDATA True (writePinCLK False s6))\<lparr>irqEnabled := True\<rparr>" 50 60]
    by (simp add: s8_def s6_def s5_def s4_def s3_def micros_ticks)
  have bus8: "bus s8 = replicate 3 ?hi @ ?lo # rest"
    using bus2 by (simp add: s8_def s6_def s5_def s4_def s3_def numeral_eq_Suc)
  have atn0: "flags s AND 128 = 0" using st(1) by simp
  have wd: "waitPinDATA False 1000 s8 = Some (True, ticks 3 s8)"
    by (rule waitPinDATA_block[OF bus8]) (simp_all add: s8_def s6_def s5_def s4_def s3_def s2_def s1_def atn0)
  define s10 where "s10 = (ticks 3 s8)\<lparr>devices := update_device n (\<lambda>_. snd (dev_read ops d)) (devices s)\<rparr>"
  have rd: "call_current (dev_read ops) (ticks 3 s8) = Some (fst (dev_read ops d), s10)"
    using cur by (simp add: call_current_def s10_def s8_def s6_def s5_def s4_def s3_def s2_def s1_def split: prod.split)
  have "transmitJiffyByte ops numData s = Some (True, s10)"
    unfolding transmitJiffyByte_def s1_def[symmetric]
    using nd nd0 pk spin atn2 w3 w4 w5 w6 w8 wd rd
    by (simp add: Let_def)
  moreover have "drop (length (wire s) + j) (wire s10) =
      replicate 17 (data AND 0x01 \<noteq> 0, data AND 0x02 \<noteq> 0) @ replicate 11 (data AND 0x04 \<noteq> 0, data AND 0x08 \<noteq> 0) @
      replicate 11 (data AND 0x10 \<noteq> 0, data AND 0x20 \<noteq> 0) @ replicate 11 (data AND 0x40 \<noteq> 0, data AND 0x80 \<noteq> 0) @
      replicate 10 (False, True) @ replicate 3 (False, True)"
    by (simp add: s10_def s8_def s6_def s5_def s4_def s3_def s2_def s1_def ticks_def)
  moreover have "bus s10 = ?lo # rest" using bus8 by (simp add: s10_def)
  ultimately show ?thesis
    using put_bits_decode[of data]
    by (simp add: s10_def jiffy_decode_def nth_append data_def)
qed

end
