(* ===== verification/IEC_Epyx.thy ===== *)
theory IEC_Epyx
  imports Device_Table IEC_Host "HOL-Library.Monad_Syntax"
begin

text \<open>
  The Epyx FastLoad routines of IECBusHandler.cpp (lines 1402--1785, without
  the sector operations, which IECConfig.h leaves out):
  \<open>enableEpyxFastLoadSupport\<close>, \<open>epyxLoadRequest\<close>, \<open>receiveEpyxByte\<close>,
  \<open>transmitEpyxByte\<close>, \<open>receiveEpyxHeader\<close> and \<open>transmitEpyxBlock\<close>. The
  computer clocks the transfer; all waits are without timeout.
\<close>

section \<open>Enabling\<close>

text \<open>Lines 1402--1413, reading \<open>m_bufferSize\<close> as \<open>bufSize\<close>.\<close>

definition enableEpyxFastLoadSupport :: "bool \<Rightarrow> byte \<Rightarrow> 'd device \<Rightarrow> bool \<times> 'd device" where
  "enableEpyxFastLoadSupport enable bufSize d =
     (let d1 = (if enable \<and> bufSize \<ge> 32 then set_flags S_EPYX_ENABLED d else clear_flags S_EPYX_ENABLED d);
          d2 = clear_flags (S_EPYX_HEADER OR S_EPYX_LOAD OR S_EPYX_SECTOROP) d1
      in (has_flag S_EPYX_ENABLED d2, d2))"

text \<open>Lines 1416--1420.\<close>

definition epyxLoadRequest :: "'d device \<Rightarrow> 'd device" where
  "epyxLoadRequest d = (if has_flag S_EPYX_ENABLED d then set_flags S_EPYX_HEADER d else d)"

section \<open>Bytes\<close>

text \<open>Lines 1423--1442: eight bits, each clocked by a CLK edge (first falling,
  then alternating), sampled inverted from DATA and shifted in from the top.
  \<open>epyx_rx_bits n clk\<close> has \<open>n\<close> bits left and the CLK level \<open>clk\<close> last waited for.\<close>

primrec epyx_rx_bits :: "nat \<Rightarrow> bool \<Rightarrow> byte \<Rightarrow> 'd iec \<Rightarrow> (byte option \<times> 'd iec) option" where
  "epyx_rx_bits 0 clk data s = Some (Some data, s)"
| "epyx_rx_bits (Suc n) clk data s = do {
     (ok, s1) \<leftarrow> waitPinCLK (\<not> clk) 0 s;
     if \<not> ok then Some (None, s1)
     else epyx_rx_bits n (\<not> clk) (shift_in_msb (\<not> readPinDATA s1) data) s1 }"

text \<open>\<open>receiveEpyxByte(data)\<close>: \<open>data\<close> is passed by reference; the result is the
  received byte, or \<open>None\<close> for \<open>false\<close>.\<close>

definition receiveEpyxByte :: "byte \<Rightarrow> 'd iec \<Rightarrow> (byte option \<times> 'd iec) option" where
  "receiveEpyxByte data s = epyx_rx_bits 8 True data s"

text \<open>Lines 1445--1512: the bits are sent inverted, two at a time, at fixed
  offsets from the receiver's DATA release.\<close>

definition transmitEpyxByte :: "byte \<Rightarrow> 'd iec \<Rightarrow> (bool \<times> 'd iec) option" where
  "transmitEpyxByte data0 s = do {
     let data = NOT data0;
     s1 \<leftarrow> spin_until (\<lambda>s. readPinDATA s \<or> \<not> readPinATN s) s;
     if \<not> readPinATN s1 then Some (False, s1)
     else do {
       let t0 = micros s1;
       let s2 = timer_wait_until t0 17 (put_bits 0x80 0x20 data s1);
       let s3 = timer_wait_until t0 27 (put_bits 0x40 0x10 data s2);
       let s4 = timer_wait_until t0 37 (put_bits 0x08 0x02 data s3);
       let s5 = timer_wait_until t0 47 (put_bits 0x04 0x01 data s4);
       let s6 = timer_wait_until t0 49 (writePinDATA True s5);
       waitPinDATA False 0 s6 } }"

section \<open>The header\<close>

text \<open>The 256-byte upload of the fast-load routine, summed (lines 1683--1688).\<close>

primrec epyx_sum_bytes :: "nat \<Rightarrow> byte \<Rightarrow> byte \<Rightarrow> 'd iec \<Rightarrow> (byte option \<times> 'd iec) option" where
  "epyx_sum_bytes 0 data checksum s = Some (Some checksum, s)"
| "epyx_sum_bytes (Suc n) data checksum s = do {
     (r, s1) \<leftarrow> receiveEpyxByte data s;
     (case r of
        None \<Rightarrow> Some (None, s1)
      | Some b \<Rightarrow> epyx_sum_bytes n b (checksum + b) s1) }"

text \<open>The file name, received last character first into \<open>m_buffer[i-1]\<close>
  (lines 1698--1700); \<open>i\<close> counts down.\<close>

primrec epyx_name_bytes :: "nat \<Rightarrow> 'd iec \<Rightarrow> (bool \<times> 'd iec) option" where
  "epyx_name_bytes 0 s = Some (True, s)"
| "epyx_name_bytes (Suc i) s = do {
     (r, s1) \<leftarrow> receiveEpyxByte (buffer s ! i) s;
     (case r of
        None \<Rightarrow> Some (False, s1)
      | Some b \<Rightarrow> epyx_name_bytes i (s1\<lparr>buffer := (buffer s1)[i := b]\<rparr>)) }"

text \<open>\<^verbatim>\<open>while( (ok = m_currentDevice->canWrite())<0 ) if( !readPinATN() ) return false;\<close>
  (lines 1715--1717): the device decides when it is ready, so the loop may not
  end. The result is \<open>Some ok\<close> for a non-negative \<open>canWrite()\<close>, \<open>None\<close> for the
  ATN abort.\<close>

partial_function (option) canWrite_loop :: "'d dev_ops \<Rightarrow> 'd iec \<Rightarrow> (int option \<times> 'd iec) option" where
  "canWrite_loop ops s = do {
     (ok, s1) \<leftarrow> call_current (dev_canWrite ops) s;
     if ok \<ge> 0 then Some (Some ok, s1)
     else if \<not> readPinATN s1 then Some (None, s1)
     else canWrite_loop ops (tick s1) }"

text \<open>Lines 1712--1725: send the file name to the device, \<open>eoi\<close> being
  \<open>i<n-1\<close> as written.\<close>

primrec epyx_send_name :: "'d dev_ops \<Rightarrow> nat \<Rightarrow> nat \<Rightarrow> 'd iec \<Rightarrow> (bool \<times> 'd iec) option" where
  "epyx_send_name ops n 0 s = Some (True, s)"
| "epyx_send_name ops n (Suc k) s = do {
     let i = n - Suc k;
     (r, s1) \<leftarrow> canWrite_loop ops s;
     (case r of
        None \<Rightarrow> Some (False, s1)
      | Some ok \<Rightarrow>
          if ok = 0 then Some (False, s1)
          else do {
            s2 \<leftarrow> update_current (dev_write ops (buffer s1 ! i) (i < n - 1)) s1;
            epyx_send_name ops n k s2 }) }"

text \<open>Lines 1667--1755.\<close>

definition receiveEpyxHeader :: "'d dev_ops \<Rightarrow> 'd iec \<Rightarrow> (bool \<times> 'd iec) option" where
  "receiveEpyxHeader ops s = do {
     (ok, s1) \<leftarrow> waitPinDATA False 0 (writePinCLK False (s\<lparr>irqEnabled := False\<rparr>));
     if \<not> ok then Some (False, s1\<lparr>irqEnabled := True\<rparr>)
     else do {
       (r, s2) \<leftarrow> epyx_sum_bytes 256 0 0 (writePinCLK True s1);
       (case r of
          None \<Rightarrow> Some (False, s2\<lparr>irqEnabled := True\<rparr>)
        | Some checksum \<Rightarrow>
            if checksum = 0x26 \<or> checksum = 0x86 \<or> checksum = 0xAA then do {
              (rn, s3) \<leftarrow> receiveEpyxByte 0 s2;
              (case rn of
                 Some n \<Rightarrow>
                   if n > 0 \<and> n \<le> 32 then do {
                     (ok4, s4) \<leftarrow> epyx_name_bytes (unat n) s3;
                     if \<not> ok4 then Some (False, s4\<lparr>irqEnabled := True\<rparr>)
                     else do {
                       s5 \<leftarrow> update_current (dev_listen ops 0xF0) ((writePinCLK False s4)\<lparr>irqEnabled := True\<rparr>);
                       (ok6, s6) \<leftarrow> epyx_send_name ops (unat n) (unat n) s5;
                       if \<not> ok6 then Some (False, s6)
                       else do {
                         s7 \<leftarrow> update_current (set_flags S_EPYX_LOAD \<circ> dev_unlisten ops) s6;
                         Some (True, s7) } } }
                   else Some (False, s3\<lparr>irqEnabled := True\<rparr>)
               | None \<Rightarrow> Some (False, s3\<lparr>irqEnabled := True\<rparr>)) }
            else Some (False, s2\<lparr>irqEnabled := True\<rparr>)) } }"

section \<open>The file data\<close>

primrec epyx_tx_bytes :: "byte list \<Rightarrow> 'd iec \<Rightarrow> (bool \<times> 'd iec) option" where
  "epyx_tx_bytes [] s = Some (True, s)"
| "epyx_tx_bytes (b # bs) s = do {
     (ok, s1) \<leftarrow> transmitEpyxByte b s;
     if ok then epyx_tx_bytes bs s1 else Some (False, s1) }"

text \<open>Lines 1758--1785: one block of at most \<open>m_bufferSize\<close> bytes, preceded
  by its length; a block of length 0 ends the file.\<close>

definition transmitEpyxBlock :: "'d dev_ops \<Rightarrow> 'd iec \<Rightarrow> (bool \<times> 'd iec) option" where
  "transmitEpyxBlock ops s = do {
     (blk, s1) \<leftarrow> call_current (dev_read_block ops (bufferSize s)) s;
     let n = (of_nat (length blk) :: byte);
     let s2 = writePinCLK True (s1\<lparr>buffer := blk @ drop (length blk) (buffer s1), irqEnabled := False\<rparr>);
     (ok, s3) \<leftarrow> transmitEpyxByte n s2;
     if \<not> ok then Some (False, s3\<lparr>irqEnabled := True\<rparr>)
     else do {
       (ok4, s4) \<leftarrow> epyx_tx_bytes blk s3;
       if \<not> ok4 then Some (False, s4\<lparr>irqEnabled := True\<rparr>)
       else Some (n > 0, (writePinCLK False s4)\<lparr>irqEnabled := True\<rparr>) } }"

section \<open>Properties\<close>

lemma epyx_decode_not:
  "(if \<not> (NOT b AND 0x80 \<noteq> 0) then 0x80 else 0) OR (if \<not> (NOT b AND 0x20 \<noteq> 0) then 0x20 else 0) OR
   (if \<not> (NOT b AND 0x40 \<noteq> 0) then 0x40 else 0) OR (if \<not> (NOT b AND 0x10 \<noteq> 0) then 0x10 else 0) OR
   (if \<not> (NOT b AND 0x08 \<noteq> 0) then 0x08 else 0) OR (if \<not> (NOT b AND 0x02 \<noteq> 0) then 0x02 else 0) OR
   (if \<not> (NOT b AND 0x04 \<noteq> 0) then 0x04 else 0) OR (if \<not> (NOT b AND 0x01 \<noteq> 0) then 0x01 else 0) = (b::byte)"
  by (simp add: byte_eq_bits flag_bits)

text \<open>C11: once the computer releases DATA, \<open>transmitEpyxByte\<close> drives CLK and
  DATA so that the computer's loader, reading at its fixed offsets, decodes
  exactly the byte; the routine then releases DATA and returns success when the
  computer pulls DATA low again.\<close>

theorem transmitEpyxByte_wire:
  assumes st: "\<not> under_atn s" "dataOut s"
    and bus: "bus s = replicate j (hsample True True False) @ replicate (49 + m) (hsample True True True) @
                      hsample True True False # rest"
  shows "\<exists>s'. transmitEpyxByte b s = Some (True, s') \<and>
     epyx_decode (drop (length (wire s) + j) (wire s')) = b \<and> bus s' = hsample True True False # rest"
proof -
  let ?hi = "hsample True True True" and ?lo = "hsample True True False"
  define d where "d = NOT b"
  define s1 where "s1 = ticks j s"
  have spin: "spin_until (\<lambda>s. readPinDATA s \<or> \<not> readPinATN s) s = Some s1"
    unfolding s1_def
    by (rule spin_until_reaches) (use bus st in \<open>auto simp: readPinDATA_ticks readPinATN_ticks nth_append\<close>)
  have bus1: "bus s1 = replicate (49 + m) ?hi @ ?lo # rest" using bus by (simp add: s1_def)
  have atn1: "readPinATN s1" using readPinATN_ticks[of 0 s1] bus1 by (simp add: nth_append)
  have tw: "timer_wait_until (micros s1) us s' = ticks (unat us - k) s'"
    if "micros s' = micros s1 + of_nat k" "k \<le> unat us" for s' :: "'a iec" and k us
    using timer_wait_until_from[OF that] .
  define s2 where "s2 = ticks 17 (put_bits 0x80 0x20 d s1)"
  define s3 where "s3 = ticks 10 (put_bits 0x40 0x10 d s2)"
  define s4 where "s4 = ticks 10 (put_bits 0x08 0x02 d s3)"
  define s5 where "s5 = ticks 10 (put_bits 0x04 0x01 d s4)"
  define s6 where "s6 = ticks 2 (s5\<lparr>dataOut := True\<rparr>)"
  have w2: "timer_wait_until (micros s1) 17 (put_bits 0x80 0x20 d s1) = s2"
    using tw[of "put_bits 0x80 0x20 d s1" 0 17] by (simp add: s2_def)
  have w3: "timer_wait_until (micros s1) 27 (put_bits 0x40 0x10 d s2) = s3"
    using tw[of "put_bits 0x40 0x10 d s2" 17 27] by (simp add: s3_def s2_def micros_ticks)
  have w4: "timer_wait_until (micros s1) 37 (put_bits 0x08 0x02 d s3) = s4"
    using tw[of "put_bits 0x08 0x02 d s3" 27 37] by (simp add: s4_def s3_def s2_def micros_ticks)
  have w5: "timer_wait_until (micros s1) 47 (put_bits 0x04 0x01 d s4) = s5"
    using tw[of "put_bits 0x04 0x01 d s4" 37 47] by (simp add: s5_def s4_def s3_def s2_def micros_ticks)
  have w6: "timer_wait_until (micros s1) 49 (s5\<lparr>dataOut := True\<rparr>) = s6"
    using tw[of "s5\<lparr>dataOut := True\<rparr>" 47 49] by (simp add: s6_def s5_def s4_def s3_def s2_def micros_ticks)
  have bus6: "bus s6 = replicate m ?hi @ ?lo # rest"
    using bus1 by (simp add: s6_def s5_def s4_def s3_def s2_def)
  have atn0: "flags s AND 128 = 0" using st(1) by simp
  have wd: "waitPinDATA False 0 s6 = Some (True, ticks m s6)"
    by (rule waitPinDATA_block[OF bus6])
       (simp_all add: s6_def s5_def s4_def s3_def s2_def s1_def atn0 bus)
  have "transmitEpyxByte b s = Some (True, ticks m s6)"
    unfolding transmitEpyxByte_def d_def[symmetric]
    using spin atn1 w2 w3 w4 w5 w6 wd by (simp add: Let_def)
  moreover have "drop (length (wire s) + j) (wire (ticks m s6)) =
      replicate 17 (d AND 0x80 \<noteq> 0, d AND 0x20 \<noteq> 0) @ replicate 10 (d AND 0x40 \<noteq> 0, d AND 0x10 \<noteq> 0) @
      replicate 10 (d AND 0x08 \<noteq> 0, d AND 0x02 \<noteq> 0) @ replicate 10 (d AND 0x04 \<noteq> 0, d AND 0x01 \<noteq> 0) @
      replicate 2 (d AND 0x04 \<noteq> 0, True) @ replicate m (d AND 0x04 \<noteq> 0, True)"
    using st by (simp add: s6_def s5_def s4_def s3_def s2_def s1_def ticks_def)
  moreover have "bus (ticks m s6) = ?lo # rest" using bus6 by simp
  ultimately show ?thesis
    using epyx_decode_not[of b] by (simp add: epyx_decode_def nth_append d_def)
qed

lemma epyx_rx_blocks:
  "\<forall>x\<in>set pre. s_clk x = c \<and> s_atn x \<Longrightarrow> bus s = pre @ epyx_blocks c xs @ rest \<Longrightarrow>
   clkOut s \<Longrightarrow> dataOut s \<Longrightarrow> \<not> under_atn s \<Longrightarrow> xs \<noteq> [] \<Longrightarrow>
   \<exists>s'. epyx_rx_bits (length xs) c data s = Some (Some (foldl (\<lambda>acc x. shift_in_msb (\<not> snd x) acc) data xs), s') \<and>
        bus s' = last (epyx_blocks c xs) # rest \<and> clkOut s' \<and> dataOut s' \<and> flags s' = flags s"
proof (induction xs arbitrary: c pre data s)
  case Nil
  then show ?case by simp
next
  case (Cons x xs)
  obtain t d where x: "x = (t, d)" by (cases x)
  let ?e = "hsample True (\<not> c) d"
  let ?ys = "pre @ replicate t (hsample True c d)"
  have bus: "bus s = ?ys @ ?e # epyx_blocks (\<not> c) xs @ rest" using Cons.prems(2) x by simp
  have w: "waitPinCLK (\<not> c) 0 s = Some (True, ticks (length ?ys) s)"
    by (rule waitPinCLK_prefix[OF bus]) (use Cons.prems in \<open>auto simp: bus\<close>)
  define s1 where "s1 = ticks (length ?ys) s"
  have bus1: "bus s1 = ?e # epyx_blocks (\<not> c) xs @ rest" using bus by (simp add: s1_def)
  have rd: "readPinDATA s1 = d" using bus1 Cons.prems(4) by (simp add: s1_def readPinDATA_def cur_sample_def)
  have step: "epyx_rx_bits (length (x # xs)) c data s = epyx_rx_bits (length xs) (\<not> c) (shift_in_msb (\<not> d) data) s1"
    using w rd by (simp add: s1_def)
  show ?case
  proof (cases "xs = []")
    case True
    then show ?thesis using step bus1 Cons.prems(3,4) x by (simp add: s1_def)
  next
    case False
    obtain s' where "epyx_rx_bits (length xs) (\<not> c) (shift_in_msb (\<not> d) data) s1 =
        Some (Some (foldl (\<lambda>acc x. shift_in_msb (\<not> snd x) acc) (shift_in_msb (\<not> d) data) xs), s') \<and>
        bus s' = last (epyx_blocks (\<not> c) xs) # rest \<and> clkOut s' \<and> dataOut s' \<and> flags s' = flags s1"
      using Cons.IH[of "[?e]" "\<not> c" s1 "shift_in_msb (\<not> d) data"] bus1 Cons.prems(3-5) False
      by (auto simp: s1_def)
    moreover have "flags s1 = flags s" by (simp add: s1_def)
    ultimately show ?thesis using step x False by (auto simp: epyx_blocks_nonempty)
  qed
qed

lemma foldl_epyx_bits:
  "length ts = 8 \<Longrightarrow> foldl (\<lambda>acc x. shift_in_msb (\<not> snd x) acc) data (zip ts (map (\<lambda>i. \<not> bit b i) [0..<8])) = b"
proof -
  assume "length ts = 8"
  then have "map snd (zip ts (map (\<lambda>i. \<not> bit b i) [0..<8])) = map (\<lambda>i. \<not> bit b i) [0..<8]"
    by (simp add: map_snd_zip del: upt_Suc)
  then have "map (\<lambda>x. \<not> snd x) (zip ts (map (\<lambda>i. \<not> bit b i) [0..<8])) = lsb_bits b"
    using map_map[of Not snd "zip ts (map (\<lambda>i. \<not> bit b i) [0..<8])"]
    by (simp add: lsb_bits_def comp_def del: upt_Suc)
  moreover have "foldl (\<lambda>acc x. shift_in_msb (\<not> snd x) acc) data (zip ts (map (\<lambda>i. \<not> bit b i) [0..<8])) =
      foldl (\<lambda>x c. shift_in_msb c x) data (map (\<lambda>x. \<not> snd x) (zip ts (map (\<lambda>i. \<not> bit b i) [0..<8])))"
    by (simp only: foldl_map)
  ultimately show ?thesis
    using foldl_shift_in_lsb_bits[of data b] by simp
qed

text \<open>C12: a byte clocked in by the computer as the Epyx loader does (each
  inverted bit on DATA, then a CLK edge, falling first, after any hold time)
  is received by \<open>receiveEpyxByte\<close> whatever the initial value of the
  reference argument; the routine stops at the last CLK edge.\<close>

theorem receiveEpyxByte_roundtrip:
  assumes ts: "length ts = 8" and bus: "bus s = epyx_host_byte ts b @ rest"
    and st: "clkOut s" "dataOut s" "\<not> under_atn s"
  shows "\<exists>s'. receiveEpyxByte data s = Some (Some b, s') \<and> bus s' = hsample True True (\<not> bit b 7) # rest"
proof -
  let ?xs = "zip ts (map (\<lambda>i. \<not> bit b i) [0..<8])"
  have len: "length ?xs = 8" "?xs \<noteq> []" using ts by auto
  have "snd (last ?xs) = snd (?xs ! 7)" using len by (simp add: last_conv_nth)
  then have last: "snd (last ?xs) = (\<not> bit b 7)" using ts by (simp add: nth_zip del: upt_Suc)
  obtain s' where "epyx_rx_bits (length ?xs) True data s = Some (Some (foldl (\<lambda>acc x. shift_in_msb (\<not> snd x) acc) data ?xs), s') \<and>
      bus s' = last (epyx_blocks True ?xs) # rest"
    using epyx_rx_blocks[of "[]" True s ?xs rest data] bus st len by (auto simp: epyx_host_byte_def)
  then show ?thesis
    using len last foldl_epyx_bits[OF ts, of data b] last_epyx_blocks[OF len(2), of True]
    by (simp add: receiveEpyxByte_def)
qed

lemma canWrite_loop_ready:
  "currentDevice s = Some a \<Longrightarrow> findDevice a (devices s) = Some d \<Longrightarrow> dev_canWrite ops d = (w, d') \<Longrightarrow> 0 \<le> w \<Longrightarrow>
   canWrite_loop ops s = Some (Some w, s\<lparr>devices := update_device a (\<lambda>_. d') (devices s)\<rparr>)"
  by (subst canWrite_loop.simps) (simp add: call_current_def)

text \<open>C13: with a device that always accepts data, the file-name loop of
  \<open>receiveEpyxHeader\<close> writes the characters \<open>m_buffer[0..n)\<close> to the device in
  order, with the EOI flag \<open>i < n-1\<close>: set on every character but the last
  and clear on the last one, the reverse of the \<open>write(data, eoi)\<close>
  convention used by \<open>receiveIECByte\<close>.\<close>

theorem epyx_send_name_writes:
  assumes cw: "\<And>d. dev_canWrite ops d = (1, d)" and nr: "\<And>b e d. devnr (dev_write ops b e d) = devnr d"
  shows "currentDevice s = Some a \<Longrightarrow> findDevice a (devices s) = Some d \<Longrightarrow> k \<le> n \<Longrightarrow>
    epyx_send_name ops n k s =
    Some (True, s\<lparr>devices := update_device a (\<lambda>_. foldl (\<lambda>d i. dev_write ops (buffer s ! i) (i < n - 1) d) d [n - k..<n])
                                             (devices s)\<rparr>)"
proof (induction k arbitrary: s d)
  case 0
  then show ?case by (simp add: update_device_same_self)
next
  case (Suc k)
  let ?i = "n - Suc k"
  let ?w = "dev_write ops (buffer s ! ?i) (?i < n - 1)"
  define s1 where "s1 = s\<lparr>devices := update_device a ?w (devices s)\<rparr>"
  have loop: "canWrite_loop ops s = Some (Some 1, s)"
    using canWrite_loop_ready[OF Suc.prems(1,2) cw] Suc.prems(2) by (simp add: update_device_same_self)
  have upd: "update_current ?w s = Some s1"
    using Suc.prems(1,2) by (simp add: update_current_Some s1_def)
  have f1: "findDevice a (devices s1) = Some (?w d)"
    using Suc.prems(2) by (simp add: s1_def findDevice_update_device_same nr)
  have ih: "epyx_send_name ops n k s1 =
      Some (True, s1\<lparr>devices := update_device a (\<lambda>_. foldl (\<lambda>d i. dev_write ops (buffer s1 ! i) (i < n - 1) d) (?w d) [n - k..<n])
                                              (devices s1)\<rparr>)"
    using Suc.IH[of s1 "?w d"] Suc.prems(1,3) f1 by (simp add: s1_def)
  have ups: "[?i..<n] = ?i # [n - k..<n]" using Suc.prems(3) by (simp add: upt_conv_Cons Suc_diff_Suc)
  show ?case
    using loop upd ih ups by (simp add: s1_def update_device_overwrite nr comp_def Let_def)
qed

end
