(* ===== verification/Frame.thy ===== *)
theory Frame
  imports IEC_Receive IEC_Transmit IEC_Atn IEC_Jiffy IEC_Epyx
begin

text \<open>
  What the byte-level routines leave alone. The transfer routines of
  IECBusHandler.cpp drive the pins, let time pass, fill the fast-load buffer
  and call the current device, but they never write \<open>m_flags\<close>, the device
  table's addresses, the pin configuration or the buffer's size: only
  \<open>task()\<close>, \<open>atnRequest()\<close> and \<open>begin()\<close> do. \<open>ctl\<close> collects those fields,
  and each routine is shown to keep it, provided the device methods keep the
  device's address \<open>m_devnr\<close> (\<open>ops_keep_devnr\<close>; \<open>IECDevice\<close> only sets it in
  its constructor).
\<close>

definition ctl :: "'d iec \<Rightarrow> byte \<times> byte list \<times> byte \<times> byte \<times> byte \<times> bool" where
  "ctl s = (flags s, map devnr (devices s), bufferSize s, pinCTRL s, pinRESET s, atnInterrupt s)"

definition ops_keep_devnr :: "'d dev_ops \<Rightarrow> bool" where
  "ops_keep_devnr ops \<longleftrightarrow>
     (\<forall>d. devnr (dev_begin ops d) = devnr d \<and> devnr (dev_reset ops d) = devnr d \<and>
          devnr (dev_task ops d) = devnr d \<and> devnr (dev_unlisten ops d) = devnr d \<and>
          devnr (dev_untalk ops d) = devnr d \<and> devnr (snd (dev_canWrite ops d)) = devnr d \<and>
          devnr (snd (dev_canRead ops d)) = devnr d \<and> devnr (snd (dev_read ops d)) = devnr d \<and>
          (\<forall>b. devnr (dev_listen ops b d) = devnr d \<and> devnr (dev_talk ops b d) = devnr d \<and>
               devnr (dev_primary_address ops b d) = devnr d \<and> devnr (dev_secondary_address ops b d) = devnr d \<and>
               devnr (snd (dev_read_block ops b d)) = devnr d) \<and>
          (\<forall>b e. devnr (dev_write ops b e d) = devnr d) \<and>
          (\<forall>bs e. devnr (snd (dev_write_block ops bs e d)) = devnr d))"

section \<open>Time passing keeps the frame\<close>

lemma ctl_ticks [simp]: "ctl (ticks n s) = ctl s"
  and ctl_tick [simp]: "ctl (tick s) = ctl s"
  and ctl_writePinCTRL [simp]: "ctl (writePinCTRL v s) = ctl s"
  by (simp_all add: ctl_def ticks_def tick_def writePinCTRL_upd)

lemma wait_us_ticks_ex: "wait_us n s = (r, s') \<Longrightarrow> \<exists>k. s' = ticks k s"
proof (induction n arbitrary: s)
  case 0
  then show ?case by (auto intro: exI[of _ 0])
next
  case (Suc n)
  show ?case
  proof (cases "\<not> under_atn s \<and> \<not> readPinATN s")
    case True
    then show ?thesis using Suc.prems by (auto intro: exI[of _ 0])
  next
    case False
    then have "wait_us n (tick s) = (r, s')" using Suc.prems by (auto split: if_splits)
    then obtain k where "s' = ticks k (tick s)" using Suc.IH by blast
    then show ?thesis by (simp add: tick_eq_ticks ticks_add del: tick_ticks) blast
  qed
qed

lemma waitTimeout_ticks_ex: "waitTimeout n s = (r, s') \<Longrightarrow> \<exists>k. s' = ticks k s"
  unfolding waitTimeout_def waitTimeoutFrom_def by (rule wait_us_ticks_ex)

lemma wait_line_timed_ticks_ex: "wait_line_timed rd st t n s = (r, s') \<Longrightarrow> \<exists>k. s' = ticks k s"
proof (induction rd st t n s rule: wait_line_timed.induct)
  case (1 rd st t n s)
  show ?case
  proof (cases "rd s = st \<or> atn_changed s \<or> t \<le> n")
    case True
    then show ?thesis using "1.prems" by (auto simp: wait_line_timed.simps[of rd st t n s] intro: exI[of _ 0] split: if_splits)
  next
    case False
    then have "wait_line_timed rd st t (Suc n) (tick s) = (r, s')"
      using "1.prems" by (simp add: wait_line_timed.simps[of rd st t n s])
    then obtain k where "s' = ticks k (tick s)" using "1.IH" False by blast
    then show ?thesis by (simp add: tick_eq_ticks ticks_add del: tick_ticks) blast
  qed
qed

lemma wait_line_forever_ticks_ex: "wait_line_forever rd st s = Some (r, s') \<Longrightarrow> \<exists>k. s' = ticks k s"
proof (induction rd st s rule: wait_line_forever.induct)
  case (1 rd st s)
  show ?case
  proof (cases "rd s = st \<or> atn_changed s \<or> bus s = []")
    case True
    then show ?thesis using "1.prems" by (auto simp: wait_line_forever.simps[of rd st s] intro: exI[of _ 0] split: if_splits)
  next
    case False
    then have "wait_line_forever rd st (tick s) = Some (r, s')"
      using "1.prems" by (simp add: wait_line_forever.simps[of rd st s])
    then obtain k where "s' = ticks k (tick s)" using "1.IH" False by blast
    then show ?thesis by (simp add: tick_eq_ticks ticks_add del: tick_ticks) blast
  qed
qed

lemma wait_line_ticks_ex:
  assumes "wait_line rd st t s = Some (r, s')"
  shows "\<exists>k. s' = ticks k s"
proof (cases "t = 0")
  case True
  then have "wait_line_forever rd st s = Some (r, s')" using assms by (simp add: wait_line_def)
  then show ?thesis by (rule wait_line_forever_ticks_ex)
next
  case False
  then have "wait_line_timed rd st t 0 s = (r, s')" using assms by (simp add: wait_line_def)
  then show ?thesis by (rule wait_line_timed_ticks_ex)
qed

lemma waitPinCLK_ctl: "waitPinCLK st t s = Some (r, s') \<Longrightarrow> ctl s' = ctl s"
  unfolding waitPinCLK_def by (auto dest!: wait_line_ticks_ex)

lemma waitPinDATA_ctl: "waitPinDATA st t s = Some (r, s') \<Longrightarrow> ctl s' = ctl s"
  unfolding waitPinDATA_def
  by (auto split: option.splits bool.splits prod.splits dest!: wait_line_ticks_ex)

lemma waitTimeoutFrom_ctl: "waitTimeoutFrom t n s = (r, s') \<Longrightarrow> ctl s' = ctl s"
  unfolding waitTimeoutFrom_def by (auto dest!: wait_us_ticks_ex)

lemma waitTimeout_ctl: "waitTimeout n s = (r, s') \<Longrightarrow> ctl s' = ctl s"
  by (auto dest!: waitTimeout_ticks_ex)

lemma ctl_timer_wait_until [simp]: "ctl (timer_wait_until t0 us s) = ctl s"
  by (simp add: timer_wait_until_ticks)

lemma spin_until_ctl: "spin_until p s = Some s' \<Longrightarrow> ctl s' = ctl s"
proof (induction p s rule: spin_until.induct)
  case (1 p s)
  then show ?case by (auto simp: spin_until.simps[of p s] split: if_splits)
qed

lemma ctl_upd [simp]:
  "ctl (s\<lparr>clkOut := c\<rparr>) = ctl s" "ctl (s\<lparr>dataOut := c\<rparr>) = ctl s" "ctl (s\<lparr>ctrlOut := c\<rparr>) = ctl s"
  "ctl (s\<lparr>irqEnabled := c\<rparr>) = ctl s" "ctl (s\<lparr>primary := p\<rparr>) = ctl s" "ctl (s\<lparr>secondary := p\<rparr>) = ctl s"
  "ctl (s\<lparr>currentDevice := cd\<rparr>) = ctl s" "ctl (s\<lparr>timeoutStart := t\<rparr>) = ctl s"
  "ctl (s\<lparr>timeoutDuration := u\<rparr>) = ctl s" "ctl (s\<lparr>buffer := bs\<rparr>) = ctl s"
  "ctl (s\<lparr>micros := t\<rparr>) = ctl s" "ctl (s\<lparr>bus := xs\<rparr>) = ctl s" "ctl (s\<lparr>wire := w\<rparr>) = ctl s"
  by (simp_all add: ctl_def)

lemma ctl_inTask [simp]: "ctl (s\<lparr>inTask := c\<rparr>) = ctl s"
  by (simp add: ctl_def)

lemma ctl_devices_upd [simp]: "map devnr ds = map devnr (devices s) \<Longrightarrow> ctl (s\<lparr>devices := ds\<rparr>) = ctl s"
  by (simp add: ctl_def)

lemma ctl_put_bits [simp]: "ctl (put_bits m1 m2 b s) = ctl s"
  by (simp add: put_bits_def)

section \<open>Calls of device methods keep the frame\<close>

lemma map_devnr_update_device_at:
  "(\<And>d. devnr d = n \<Longrightarrow> devnr (f d) = n) \<Longrightarrow> map devnr (update_device n f ds) = map devnr ds"
  by (induction ds) auto

lemma call_current_ctl:
  assumes "call_current f s = Some (r, s')" "\<And>d. devnr (snd (f d)) = devnr d"
  shows "ctl s' = ctl s"
proof -
  obtain n d where n: "currentDevice s = Some n" "findDevice n (devices s) = Some d"
    and s': "s' = s\<lparr>devices := update_device n (\<lambda>_. snd (f d)) (devices s)\<rparr>"
    using assms(1) by (auto simp: call_current_def split: option.splits prod.splits)
  have "devnr (snd (f d)) = n" using assms(2)[of d] findDevice_devnr[OF n(2)] by simp
  then show ?thesis unfolding s' by (simp add: map_devnr_update_device_at)
qed

lemma update_current_ctl:
  "update_current f s = Some s' \<Longrightarrow> (\<And>d. devnr (f d) = devnr d) \<Longrightarrow> ctl s' = ctl s"
  unfolding update_current_def by (auto dest!: call_current_ctl)

lemma ops_keep_devnrD [simp]:
  assumes "ops_keep_devnr ops"
  shows "devnr (dev_begin ops d) = devnr d" "devnr (dev_reset ops d) = devnr d" "devnr (dev_task ops d) = devnr d"
    "devnr (dev_unlisten ops d) = devnr d" "devnr (dev_untalk ops d) = devnr d"
    "devnr (snd (dev_canWrite ops d)) = devnr d" "devnr (snd (dev_canRead ops d)) = devnr d"
    "devnr (snd (dev_read ops d)) = devnr d" "devnr (dev_listen ops b d) = devnr d" "devnr (dev_talk ops b d) = devnr d"
    "devnr (dev_primary_address ops b d) = devnr d" "devnr (dev_secondary_address ops b d) = devnr d"
    "devnr (snd (dev_read_block ops b d)) = devnr d" "devnr (dev_write ops b e d) = devnr d"
    "devnr (snd (dev_write_block ops bs e d)) = devnr d"
  using assms by (simp_all add: ops_keep_devnr_def)

lemmas frame_dests = waitPinCLK_ctl waitPinDATA_ctl waitTimeout_ctl spin_until_ctl call_current_ctl update_current_ctl

section \<open>The standard IEC routines\<close>

lemmas frame_split = if_splits option.splits prod.splits bool.splits

lemma rx_start_ctl: "rx_start s = Some (r, s') \<Longrightarrow> ctl s' = ctl s"
  unfolding rx_start_def by (auto simp: Let_def split: if_splits dest!: waitPinDATA_ctl)

lemma rx_wait_ready_ctl: "rx_wait_ready s = Some (r, s') \<Longrightarrow> ctl s' = ctl s"
  unfolding rx_wait_ready_def by (auto simp: bind_eq_Some_conv split: frame_split dest!: frame_dests)

lemma jiffy_detect_ctl: "jiffy_detect b data s = Some (r, s') \<Longrightarrow> ctl s' = ctl s"
  unfolding jiffy_detect_def by (auto simp: Let_def bind_eq_Some_conv split: frame_split dest!: frame_dests)

lemma rx_bits_ctl: "rx_bits n data s = Some (r, s') \<Longrightarrow> ctl s' = ctl s"
proof (induction n arbitrary: data s)
  case (Suc n)
  then show ?case by (auto simp: bind_eq_Some_conv split: frame_split dest!: frame_dests jiffy_detect_ctl)
qed simp

lemma record_address_ctl: "record_address ops data s = Some s' \<Longrightarrow> ops_keep_devnr ops \<Longrightarrow> ctl s' = ctl s"
  unfolding record_address_def by (auto simp: Let_def bind_eq_Some_conv split: frame_split dest!: frame_dests)

lemma rx_finish_ctl: "rx_finish ops c e data s = Some (r, s') \<Longrightarrow> ops_keep_devnr ops \<Longrightarrow> ctl s' = ctl s"
  unfolding rx_finish_def by (auto simp: bind_eq_Some_conv split: frame_split dest!: frame_dests record_address_ctl)

lemma receiveIECByte_ctl:
  assumes h: "receiveIECByte ops c s = Some (r, s')" and ops: "ops_keep_devnr ops"
  shows "ctl s' = ctl s"
proof -
  obtain ok s1 where 1: "rx_start s = Some (ok, s1)"
    using h by (auto simp: receiveIECByte_def bind_eq_Some_conv)
  show ?thesis
  proof (cases ok)
    case False
    then show ?thesis using h 1 rx_start_ctl[OF 1] by (simp add: receiveIECByte_def)
  next
    case True
    obtain q s2 where 2: "rx_wait_ready s1 = Some (q, s2)"
      using h 1 True by (auto simp: receiveIECByte_def bind_eq_Some_conv)
    show ?thesis
    proof (cases q)
      case None
      then show ?thesis using h 1 2 True rx_start_ctl[OF 1] rx_wait_ready_ctl[OF 2] by (simp add: receiveIECByte_def)
    next
      case (Some eoi)
      obtain rd s3 where 3: "rx_bits 8 0 s2 = Some (rd, s3)"
        using h 1 2 True Some by (auto simp: receiveIECByte_def bind_eq_Some_conv)
      have c3: "ctl s3 = ctl s" using rx_start_ctl[OF 1] rx_wait_ready_ctl[OF 2] rx_bits_ctl[OF 3] by simp
      show ?thesis
        using h 1 2 3 True Some c3 ops
        by (auto simp: receiveIECByte_def split: option.splits dest: rx_finish_ctl)
    qed
  qed
qed

lemma tx_bits_ctl: "tx_bits n data s = (r, s') \<Longrightarrow> ctl s' = ctl s"
proof (induction n arbitrary: data s)
  case (Suc n)
  then show ?case by (auto split: frame_split dest!: waitTimeout_ctl)
qed simp

lemma tx_eoi_ctl: "tx_eoi v s = Some (r, s') \<Longrightarrow> ctl s' = ctl s"
  unfolding tx_eoi_def by (auto simp: bind_eq_Some_conv split: frame_split dest!: frame_dests)

lemma transmitIECByte_ctl:
  assumes h: "transmitIECByte ops numData s = Some (r, s')" and ops: "ops_keep_devnr ops"
  shows "ctl s' = ctl s"
proof -
  obtain ok s1 where 1: "waitPinDATA True 0 (s\<lparr>clkOut := True\<rparr>) = Some (ok, s1)"
    using h by (auto simp: transmitIECByte_def Let_def bind_eq_Some_conv)
  have c1: "ctl s1 = ctl s" using waitPinDATA_ctl[OF 1] by simp
  show ?thesis
  proof (cases ok)
    case False
    then show ?thesis using h 1 c1 by (auto simp: transmitIECByte_def Let_def)
  next
    case True
    obtain ok2 s2 where 2: "(if numData = 1 \<or> readPinDATA s then tx_eoi (readPinDATA s) s1 else Some (True, s1)) = Some (ok2, s2)"
      using h 1 True by (auto simp: transmitIECByte_def Let_def bind_eq_Some_conv)
    have c2: "ctl s2 = ctl s" using 2 c1 by (auto split: if_splits dest!: tx_eoi_ctl)
    show ?thesis
    proof (cases "\<not> ok2 \<or> numData = 0")
      case True
      then show ?thesis using h 1 2 c2 \<open>ok\<close> by (auto simp: transmitIECByte_def Let_def)
    next
      case False
      obtain data s3 where 3: "call_current (dev_read ops) (s2\<lparr>clkOut := False\<rparr>) = Some (data, s3)"
        using h 1 2 \<open>ok\<close> False by (auto simp: transmitIECByte_def Let_def bind_eq_Some_conv)
      have c3: "ctl s3 = ctl s" using call_current_ctl[OF 3] ops c2 by simp
      obtain b s4 where 4: "tx_bits 8 data s3 = (b, s4)" by fastforce
      have c4: "ctl s4 = ctl s" using tx_bits_ctl[OF 4] c3 by simp
      have "(if b then waitPinDATA False 1000 (s4\<lparr>clkOut := False, dataOut := True\<rparr>) else Some (False, s4)) = Some (r, s')"
        using h 1 2 3 4 \<open>ok\<close> False by (cases b) (auto simp: transmitIECByte_def Let_def)
      then show ?thesis using c4 by (auto split: if_splits dest!: waitPinDATA_ctl)
    qed
  qed
qed

section \<open>The fast-loader routines\<close>

lemma receiveJiffyByte_ctl: "receiveJiffyByte ops c s = Some (r, s') \<Longrightarrow> ops_keep_devnr ops \<Longrightarrow> ctl s' = ctl s"
  unfolding receiveJiffyByte_def by (auto simp: Let_def bind_eq_Some_conv split: if_splits dest!: frame_dests)

lemma jiffy_block_bytes_ctl: "jiffy_block_bytes bs s = Some (r, s') \<Longrightarrow> ctl s' = ctl s"
proof (induction bs arbitrary: s)
  case (Cons b bs)
  then show ?case by (auto simp: Let_def bind_eq_Some_conv split: if_splits dest!: spin_until_ctl)
qed simp

lemma epyx_rx_bits_ctl: "epyx_rx_bits n c data s = Some (r, s') \<Longrightarrow> ctl s' = ctl s"
proof (induction n arbitrary: c data s)
  case (Suc n)
  then show ?case by (auto simp: bind_eq_Some_conv split: frame_split dest!: waitPinCLK_ctl)
qed simp

lemma transmitEpyxByte_ctl: "transmitEpyxByte b s = Some (r, s') \<Longrightarrow> ctl s' = ctl s"
  unfolding transmitEpyxByte_def by (auto simp: Let_def bind_eq_Some_conv split: if_splits dest!: frame_dests)

lemma epyx_tx_bytes_ctl: "epyx_tx_bytes bs s = Some (r, s') \<Longrightarrow> ctl s' = ctl s"
proof (induction bs arbitrary: s)
  case (Cons b bs)
  then show ?case by (auto simp: bind_eq_Some_conv split: frame_split dest!: transmitEpyxByte_ctl)
qed simp

lemma epyx_sum_bytes_ctl: "epyx_sum_bytes n d c s = Some (r, s') \<Longrightarrow> ctl s' = ctl s"
proof (induction n arbitrary: d c s)
  case (Suc n)
  then show ?case by (auto simp: receiveEpyxByte_def bind_eq_Some_conv split: frame_split dest!: epyx_rx_bits_ctl)
qed simp

lemma epyx_name_bytes_ctl: "epyx_name_bytes n s = Some (r, s') \<Longrightarrow> ctl s' = ctl s"
proof (induction n arbitrary: s)
  case (Suc n)
  then show ?case by (auto simp: receiveEpyxByte_def bind_eq_Some_conv split: frame_split dest!: epyx_rx_bits_ctl)
qed simp

lemma ctl_snd_waitTimeout [simp]: "ctl (snd (waitTimeout n s)) = ctl s"
  by (cases "waitTimeout n s") (auto dest: waitTimeout_ctl)

lemma transmitJiffyBlock_ctl: "transmitJiffyBlock bs s = Some (r, s') \<Longrightarrow> ctl s' = ctl s"
  unfolding transmitJiffyBlock_def
  by (auto simp: bind_eq_Some_conv split: frame_split dest!: frame_dests jiffy_block_bytes_ctl)

lemma canWrite_loop_ctl:
  assumes "canWrite_loop ops s = Some (r, s')" "ops_keep_devnr ops"
  shows "ctl s' = ctl s"
proof -
  have "ops_keep_devnr ops \<longrightarrow> ctl (snd y) = ctl s" if "canWrite_loop ops s = Some y" for y
  proof (rule canWrite_loop.raw_induct[where P = "\<lambda>ops s y. ops_keep_devnr ops \<longrightarrow> ctl (snd y) = ctl s", OF _ that])
    fix loop :: "'a dev_ops \<Rightarrow> 'a iec \<Rightarrow> (int option \<times> 'a iec) option" and ops s y
    assume ih: "\<And>ops s y. loop ops s = Some y \<Longrightarrow> ops_keep_devnr ops \<longrightarrow> ctl (snd y) = ctl s"
      and body: "call_current (dev_canWrite ops) s \<bind>
        (\<lambda>(ok, s1). if 0 \<le> ok then Some (Some ok, s1) else if \<not> readPinATN s1 then Some (None, s1)
                   else loop ops (tick s1)) = Some y"
    show "ops_keep_devnr ops \<longrightarrow> ctl (snd y) = ctl s"
    proof
      assume ops: "ops_keep_devnr ops"
      from body obtain ok s1 where cc: "call_current (dev_canWrite ops) s = Some (ok, s1)"
        and y: "(if 0 \<le> ok then Some (Some ok, s1) else if \<not> readPinATN s1 then Some (None, s1)
                 else loop ops (tick s1)) = Some y"
        by (auto simp: bind_eq_Some_conv)
      have c1: "ctl s1 = ctl s" using call_current_ctl[OF cc] ops by simp
      show "ctl (snd y) = ctl s"
      proof (cases "0 \<le> ok \<or> \<not> readPinATN s1")
        case True
        then show ?thesis using y c1 by (auto split: if_splits)
      next
        case False
        then have "loop ops (tick s1) = Some y" using y by simp
        then show ?thesis using ih ops c1 by fastforce
      qed
    qed
  qed
  then show ?thesis using assms by fastforce
qed

lemma transmitJiffyByte_ctl: "transmitJiffyByte ops n s = Some (r, s') \<Longrightarrow> ops_keep_devnr ops \<Longrightarrow> ctl s' = ctl s"
  unfolding transmitJiffyByte_def
  by (auto simp: Let_def bind_eq_Some_conv split: if_splits prod.splits dest!: frame_dests)

lemma transmitEpyxBlock_ctl:
  assumes h: "transmitEpyxBlock ops s = Some (r, s')" and ops: "ops_keep_devnr ops"
  shows "ctl s' = ctl s"
proof -
  obtain blk s1 where 1: "call_current (dev_read_block ops (bufferSize s)) s = Some (blk, s1)"
    and h1: "(let n = (of_nat (length blk) :: byte);
                  s2 = writePinCLK True (s1\<lparr>buffer := blk @ drop (length blk) (buffer s1), irqEnabled := False\<rparr>)
              in do {
                (ok, s3) \<leftarrow> transmitEpyxByte n s2;
                if \<not> ok then Some (False, s3\<lparr>irqEnabled := True\<rparr>)
                else do {
                  (ok4, s4) \<leftarrow> epyx_tx_bytes blk s3;
                  if \<not> ok4 then Some (False, s4\<lparr>irqEnabled := True\<rparr>)
                  else Some (n > 0, (writePinCLK False s4)\<lparr>irqEnabled := True\<rparr>) } }) = Some (r, s')"
    using h by (auto simp: transmitEpyxBlock_def bind_eq_Some_conv)
  define s2 where "s2 = s1\<lparr>buffer := blk @ drop (length blk) (buffer s1), irqEnabled := False, clkOut := True\<rparr>"
  have c2: "ctl s2 = ctl s" using call_current_ctl[OF 1] ops by (simp add: s2_def)
  obtain ok s3 where 3: "transmitEpyxByte (of_nat (length blk)) s2 = Some (ok, s3)"
    using h1 by (auto simp: Let_def s2_def[symmetric] bind_eq_Some_conv)
  have c3: "ctl s3 = ctl s" using transmitEpyxByte_ctl[OF 3] c2 by simp
  show ?thesis
  proof (cases ok)
    case False
    then show ?thesis using h1 3 c3 by (auto simp: Let_def s2_def[symmetric])
  next
    case True
    obtain ok4 s4 where 4: "epyx_tx_bytes blk s3 = Some (ok4, s4)"
      using h1 3 True by (auto simp: Let_def s2_def[symmetric] bind_eq_Some_conv)
    have "ctl s4 = ctl s" using epyx_tx_bytes_ctl[OF 4] c3 by simp
    then show ?thesis using h1 3 4 True by (auto simp: Let_def s2_def[symmetric] split: if_splits)
  qed
qed

lemma epyx_send_name_ctl: "epyx_send_name ops n k s = Some (r, s') \<Longrightarrow> ops_keep_devnr ops \<Longrightarrow> ctl s' = ctl s"
proof (induction k arbitrary: s)
  case (Suc k)
  then show ?case
    by (auto simp: Let_def bind_eq_Some_conv split: if_splits prod.splits option.splits dest!: canWrite_loop_ctl update_current_ctl)
qed simp

lemma receiveEpyxHeader_ctl:
  assumes h: "receiveEpyxHeader ops s = Some (r, s')" and ops: "ops_keep_devnr ops"
  shows "ctl s' = ctl s"
proof -
  obtain ok s1 where 1: "waitPinDATA False 0 (s\<lparr>irqEnabled := False, clkOut := False\<rparr>) = Some (ok, s1)"
    using h by (auto simp: receiveEpyxHeader_def bind_eq_Some_conv)
  have c1: "ctl s1 = ctl s" using waitPinDATA_ctl[OF 1] by simp
  show ?thesis
  proof (cases ok)
    case False
    then show ?thesis using h 1 c1 by (auto simp: receiveEpyxHeader_def)
  next
    case True
    obtain cs s2 where 2: "epyx_sum_bytes 256 0 0 (s1\<lparr>clkOut := True\<rparr>) = Some (cs, s2)"
      using h 1 True by (auto simp: receiveEpyxHeader_def bind_eq_Some_conv)
    have c2: "ctl s2 = ctl s" using epyx_sum_bytes_ctl[OF 2] c1 by simp
    show ?thesis
    proof (cases "\<exists>c. cs = Some c \<and> (c = 0x26 \<or> c = 0x86 \<or> c = 0xAA)")
      case False
      then show ?thesis using h 1 2 c2 \<open>ok\<close> by (auto simp: receiveEpyxHeader_def split: option.splits)
    next
      case True
      then obtain c where c: "cs = Some c" "c = 0x26 \<or> c = 0x86 \<or> c = 0xAA" by blast
      obtain rn s3 where 3: "receiveEpyxByte 0 s2 = Some (rn, s3)"
        using h 1 2 \<open>ok\<close> c by (auto simp: receiveEpyxHeader_def bind_eq_Some_conv)
      have c3: "ctl s3 = ctl s" using epyx_rx_bits_ctl[OF 3[unfolded receiveEpyxByte_def]] c2 by simp
      show ?thesis
      proof (cases "\<exists>n. rn = Some n \<and> n > 0 \<and> n \<le> 32")
        case False
        then show ?thesis using h 1 2 3 c3 \<open>ok\<close> c by (auto simp: receiveEpyxHeader_def split: option.splits)
      next
        case True
        then obtain n where n: "rn = Some n" "n > 0" "n \<le> 32" by blast
        obtain ok4 s4 where 4: "epyx_name_bytes (unat n) s3 = Some (ok4, s4)"
          using h 1 2 3 \<open>ok\<close> c n by (auto simp: receiveEpyxHeader_def bind_eq_Some_conv)
        have c4: "ctl s4 = ctl s" using epyx_name_bytes_ctl[OF 4] c3 by simp
        have rest: "(if \<not> ok4 then Some (False, s4\<lparr>irqEnabled := True\<rparr>)
                   else do {
                     s5 \<leftarrow> update_current (dev_listen ops 0xF0) (s4\<lparr>clkOut := False, irqEnabled := True\<rparr>);
                     (ok6, s6) \<leftarrow> epyx_send_name ops (unat n) (unat n) s5;
                     if \<not> ok6 then Some (False, s6)
                     else do {
                       s7 \<leftarrow> update_current (set_flags S_EPYX_LOAD \<circ> dev_unlisten ops) s6;
                       Some (True, s7) } }) = Some (r, s')"
          using h 1 2 3 4 \<open>ok\<close> c n by (auto simp: receiveEpyxHeader_def)
        show ?thesis
          using rest c4 ops
          by (auto simp: bind_eq_Some_conv split: if_splits prod.splits
                   dest!: update_current_ctl epyx_send_name_ctl)
      qed
    qed
  qed
qed

end
