(* ===== verification/Scheduler.thy ===== *)
theory Scheduler
  imports Frame
begin

text \<open>
  \<open>task()\<close> of IECBusHandler.cpp (lines 2048--2440), the ATN interrupt routine
  (\<open>atnInterruptFcn1/2\<close>, lines 473--486) and the way the sketch drives them:
  a step relation over the events \<open>begin()\<close>, one call of \<open>task()\<close>, the ATN
  interrupt, \<open>attachDevice\<close>, \<open>detachDevice\<close> and time passing between them.
  The invariant of the handler's state (device table well formed, never both
  listener and talker, \<open>m_inTask\<close> clear between calls) holds in every state
  reachable from the constructor.
\<close>

section \<open>The parts of \<open>task()\<close>\<close>

text \<open>Lines 2056--2073: RESET. \<open>readPinRESET()\<close> is true while RESET is high;
  the falling edge resets the handler and every device.\<close>

definition task_reset :: "'d dev_ops \<Rightarrow> 'd iec \<Rightarrow> 'd iec" where
  "task_reset ops s =
     (if readPinRESET s then s\<lparr>flags := flags s OR P_RESET\<rparr>
      else if flags s AND P_RESET \<noteq> 0 then
        (let s1 = writePinCTRL False (writePinDATA True (writePinCLK True (s\<lparr>flags := 0\<rparr>)))
         in s1\<lparr>devices := map (dev_reset ops) (devices s1)\<rparr>)
      else s)"

text \<open>Lines 2077--2155: the edges of ATN, see theory \<open>IEC_Atn\<close>.\<close>

definition task_atn :: "'d dev_ops \<Rightarrow> 'd iec \<Rightarrow> 'd iec option" where
  "task_atn ops s =
     (if \<not> under_atn s \<and> \<not> readPinATN s then Some (atnRequest s)
      else if under_atn s \<and> readPinATN s then atn_release ops s
      else Some s)"

text \<open>Lines 2225--2255: one device of the Epyx FastLoad loop (the sector
  operations are compiled out). \<open>m_currentDevice\<close> is set to the device only
  when one of the two branches is taken.\<close>

definition epyx_task_dev :: "'d dev_ops \<Rightarrow> nat \<Rightarrow> 'd iec \<Rightarrow> 'd iec option" where
  "epyx_task_dev ops i s =
     (let d = devices s ! i; s1 = s\<lparr>currentDevice := Some (devnr d)\<rparr> in
      if has_flag S_EPYX_HEADER d \<and> readPinDATA s then do {
        s2 \<leftarrow> update_current (clear_flags S_EPYX_HEADER) s1;
        (ok, s3) \<leftarrow> receiveEpyxHeader ops s2;
        Some (if ok then s3 else writePinDATA True (writePinCLK True s3)) }
      else if has_flag S_EPYX_LOAD d then do {
        (ok, s2) \<leftarrow> transmitEpyxBlock ops s1;
        if ok then Some s2
        else do {
          s3 \<leftarrow> update_current (dev_listen ops 0xE0) (writePinDATA True (writePinCLK True s2));
          s4 \<leftarrow> update_current (dev_unlisten ops) s3;
          update_current (clear_flags S_EPYX_LOAD) s4 } }
      else Some s)"

text \<open>The loop over \<open>m_devices[0..m_numDevices)\<close>; the table does not change
  while it runs.\<close>

primrec epyx_devs :: "'d dev_ops \<Rightarrow> nat list \<Rightarrow> 'd iec \<Rightarrow> 'd iec option" where
  "epyx_devs ops [] s = Some s"
| "epyx_devs ops (i # is) s = do { s1 \<leftarrow> epyx_task_dev ops i s; epyx_devs ops is s1 }"

text \<open>Lines 2274--2330: receiving, under ATN or as listener. \<open>canWrite()\<close>
  is asked with \<open>m_inTask\<close> cleared (0 when there is no current device). The
  JiffyDOS test reads \<open>m_currentDevice->m_sflags\<close> only outside ATN, where a
  null pointer makes the call \<open>None\<close>.\<close>

definition task_receive :: "'d dev_ops \<Rightarrow> 'd iec \<Rightarrow> 'd iec option" where
  "task_receive ops s =
     (if flags s AND (P_ATN OR P_LISTENING) \<noteq> 0 \<and> flags s AND P_DONE = 0 then do {
        (numData, s0) \<leftarrow> (if currentDevice s = None then Some (0, s\<lparr>inTask := False\<rparr>)
                          else call_current (dev_canWrite ops) (s\<lparr>inTask := False\<rparr>));
        let s1 = s0\<lparr>inTask := True\<rparr>;
        if \<not> under_atn s1 \<and> \<not> readPinATN s1 then Some (atnRequest s1)
        else if under_atn s1 \<and> micros s1 - timeoutStart s1 < 100 then Some s1
        else do {
          (jiffy, _) \<leftarrow> (if under_atn s1 then Some (False, s1)
                         else call_current (\<lambda>d. (has_flag S_JIFFY_DETECTED d, d)) s1);
          if jiffy \<and> numData \<ge> 0 then do {
            (ok, s2) \<leftarrow> receiveJiffyByte ops (numData > 0) s1;
            Some (if ok then s2 else (writePinDATA True s2)\<lparr>flags := flags s2 OR P_DONE\<rparr>) }
          else if (under_atn s1 \<or> numData \<ge> 0) \<and> readPinCLK s1 then do {
            (ok, s2) \<leftarrow> receiveIECByte ops (numData > 0) s1;
            Some (if ok then s2 else (writePinDATA True s2)\<lparr>flags := flags s2 OR P_DONE\<rparr>) }
          else Some s1 } }
      else Some s)"

text \<open>Lines 2334--2425: transmitting, as talker outside ATN. In JiffyDOS block
  mode the block is read into \<open>m_buffer\<close> and sent after a 150us pause;
  otherwise \<open>canRead()\<close> (with \<open>m_inTask\<close> cleared) decides, and the byte goes
  out by JiffyDOS or by the standard protocol once the "between bytes" time
  \<open>m_timeoutDuration\<close> has passed. The \<open>int8_t\<close> result of \<open>canRead()\<close> is
  passed on as a \<open>byte\<close>.\<close>

definition task_transmit :: "'d dev_ops \<Rightarrow> 'd iec \<Rightarrow> 'd iec option" where
  "task_transmit ops s =
     (if flags s AND (P_ATN OR P_TALKING OR P_DONE) = P_TALKING then do {
        (blockmode, _) \<leftarrow> call_current (\<lambda>d. (has_flag S_JIFFY_BLOCK d, d)) s;
        if blockmode then do {
          (blk, s0) \<leftarrow> call_current (dev_read_block ops (bufferSize s)) s;
          let s1 = s0\<lparr>buffer := blk @ drop (length blk) (buffer s0)\<rparr>;
          (case waitTimeoutFrom (timeoutStart s1) 150 s1 of
             (False, s2) \<Rightarrow> Some (s2\<lparr>flags := flags s2 OR P_DONE\<rparr>)
           | (True, s2) \<Rightarrow> do {
               (ok, s3) \<leftarrow> transmitJiffyBlock blk s2;
               Some (if ok then s3\<lparr>timeoutStart := micros s3\<rparr> else s3\<lparr>flags := flags s3 OR P_DONE\<rparr>) }) }
        else do {
          (numData, s0) \<leftarrow> call_current (dev_canRead ops) (s\<lparr>inTask := False\<rparr>);
          let s1 = s0\<lparr>inTask := True\<rparr>;
          if \<not> readPinATN s1 then Some (atnRequest s1)
          else if unat (micros s1 - timeoutStart s1) < unat (timeoutDuration s1) \<or> numData < 0 then Some s1
          else do {
            (jiffy, _) \<leftarrow> call_current (\<lambda>d. (has_flag S_JIFFY_DETECTED d, d)) s1;
            if jiffy then do {
              (ok, s2) \<leftarrow> transmitJiffyByte ops (word_of_int numData) s1;
              Some (if ok then s2 else s2\<lparr>flags := flags s2 OR P_DONE\<rparr>) }
            else do {
              (ok, s2) \<leftarrow> transmitIECByte ops (word_of_int numData) s1;
              Some (if ok then s2\<lparr>timeoutStart := micros s2, timeoutDuration := 200\<rparr>
                    else s2\<lparr>flags := flags s2 OR P_DONE\<rparr>) } } } }
      else Some s)"

text \<open>Lines 2427--2440: \<open>m_inTask\<close> cleared, a falling ATN edge the interrupt
  could not handle processed, then every device's \<open>task()\<close>.\<close>

definition task_end :: "'d dev_ops \<Rightarrow> 'd iec \<Rightarrow> 'd iec" where
  "task_end ops s =
     (let s1 = s\<lparr>inTask := False\<rparr>;
          s2 = (if atnInterrupt s1 \<and> \<not> readPinATN s1 \<and> \<not> under_atn s1 then atnRequest s1 else s1)
      in s2\<lparr>devices := map (dev_task ops) (devices s2)\<rparr>)"

text \<open>Lines 2048--2054 and the composition: nothing happens before \<open>begin()\<close>.\<close>

definition task :: "'d dev_ops \<Rightarrow> 'd iec \<Rightarrow> 'd iec option" where
  "task ops s =
     (if flags s = 0xFF then Some s
      else do {
        s2 \<leftarrow> task_atn ops (task_reset ops (s\<lparr>inTask := True\<rparr>));
        s3 \<leftarrow> epyx_devs ops [0..<length (devices s2)] s2;
        s4 \<leftarrow> task_receive ops s3;
        s5 \<leftarrow> task_transmit ops s4;
        Some (task_end ops s5) })"

text \<open>\<open>atnInterruptFcn1()\<close> (lines 473--477) for the handler registered by
  \<open>begin()\<close>: the falling edge is handled at once unless \<open>task()\<close> is
  running or the handler already is under ATN.\<close>

definition atnInterruptFcn :: "'d iec \<Rightarrow> 'd iec" where
  "atnInterruptFcn s = (if \<not> inTask s \<and> flags s AND P_ATN = 0 then atnRequest s else s)"

section \<open>The scheduler\<close>

datatype 'd event = Begin | Task | AtnIrq | Attach "'d device" | Detach "'d device" | Idle

text \<open>The ATN interrupt is attached by \<open>begin()\<close> (lines 395--409) when the ATN
  pin has one, and fires on a falling edge, i.e. while ATN is low.\<close>

inductive sched_step :: "'d dev_ops \<Rightarrow> 'd iec \<Rightarrow> 'd event \<Rightarrow> 'd iec \<Rightarrow> bool" for ops where
  call_begin: "sched_step ops s Begin (handler_begin ops s)"
| task: "task ops s = Some s' \<Longrightarrow> sched_step ops s Task s'"
| irq: "atnInterrupt s \<Longrightarrow> flags s \<noteq> 0xFF \<Longrightarrow> \<not> readPinATN s \<Longrightarrow> sched_step ops s AtnIrq (atnInterruptFcn s)"
| attach: "attachDevice ops d s = (b, s') \<Longrightarrow> sched_step ops s (Attach d) s'"
| detach: "detachDevice d s = (b, s') \<Longrightarrow> sched_step ops s (Detach d) s'"
| idle: "sched_step ops s Idle (tick s)"

inductive sched_steps :: "'d dev_ops \<Rightarrow> 'd iec \<Rightarrow> 'd event list \<Rightarrow> 'd iec \<Rightarrow> bool" for ops where
  nil: "sched_steps ops s [] s"
| cons: "sched_step ops s e s' \<Longrightarrow> sched_steps ops s' es s'' \<Longrightarrow> sched_steps ops s (e # es) s''"

section \<open>The invariant\<close>

text \<open>Never both listener and talker.\<close>

definition roles_ok :: "byte \<Rightarrow> bool" where
  "roles_ok f \<longleftrightarrow> f AND (P_LISTENING OR P_TALKING) \<noteq> (P_LISTENING OR P_TALKING)"

definition handler_inv :: "'d iec \<Rightarrow> bool" where
  "handler_inv s \<longleftrightarrow> table_ok (devices s) \<and> (flags s = 0xFF \<or> roles_ok (flags s)) \<and> \<not> inTask s"

text \<open>The part of the invariant that only depends on \<open>ctl\<close>.\<close>

definition ctl_ok :: "'d iec \<Rightarrow> bool" where
  "ctl_ok s \<longleftrightarrow> table_ok (devices s) \<and> roles_ok (flags s)"

section \<open>Each part of \<open>task()\<close> keeps the invariant\<close>


lemma roles_ok_flags:
  "roles_ok (f OR P_DONE) = roles_ok f" "roles_ok (f OR P_RESET) = roles_ok f"
  "roles_ok ((f OR P_ATN) AND NOT P_DONE) = roles_ok f" "roles_ok (f AND NOT P_ATN) = roles_ok f"
  "roles_ok ((f AND NOT P_TALKING) OR P_LISTENING)" "roles_ok ((f AND NOT P_LISTENING) OR P_TALKING)"
  "roles_ok (f AND NOT P_LISTENING)" "roles_ok (f AND NOT P_TALKING)" "roles_ok 0" "\<not> roles_ok 0xFF"
proof -
  have e1: "(f OR P_DONE) AND 0x60 = f AND 0x60" "(f OR P_RESET) AND 0x60 = f AND 0x60"
    "((f OR P_ATN) AND NOT P_DONE) AND 0x60 = f AND 0x60" "(f AND NOT P_ATN) AND 0x60 = f AND 0x60"
    by (simp_all add: byte_eq_bits flag_bits)
  have e2: "((f AND NOT P_TALKING) OR P_LISTENING) AND 0x60 = 0x40" "((f AND NOT P_LISTENING) OR P_TALKING) AND 0x60 = 0x20"
    "(f AND NOT P_LISTENING) AND 0x60 = f AND 0x20" "(f AND NOT P_TALKING) AND 0x60 = f AND 0x40"
    by (simp_all add: byte_eq_bits flag_bits)
  have e3: "f AND 0x20 \<noteq> 0x60" "f AND 0x40 \<noteq> 0x60"
    by (simp_all add: byte_eq_bits flag_bits)
  show "roles_ok (f OR P_DONE) = roles_ok f" "roles_ok (f OR P_RESET) = roles_ok f"
    "roles_ok ((f OR P_ATN) AND NOT P_DONE) = roles_ok f" "roles_ok (f AND NOT P_ATN) = roles_ok f"
    using e1 by (simp_all add: roles_ok_def)
  show "roles_ok ((f AND NOT P_TALKING) OR P_LISTENING)" "roles_ok ((f AND NOT P_LISTENING) OR P_TALKING)"
    "roles_ok (f AND NOT P_LISTENING)" "roles_ok (f AND NOT P_TALKING)"
    using e2 e3 by (simp_all add: roles_ok_def)
  show "roles_ok 0" "\<not> roles_ok 0xFF" by (simp_all add: roles_ok_def)
qed

lemmas roles_ok_simps [simp] = roles_ok_flags[simplified]

lemma table_ok_map_devnr: "map devnr ds' = map devnr ds \<Longrightarrow> table_ok ds' = table_ok ds"
  unfolding table_ok_def by (metis length_map)

lemma ctl_ok_ctl: "ctl s' = ctl s \<Longrightarrow> ctl_ok s' = ctl_ok s"
  unfolding ctl_ok_def ctl_def using table_ok_map_devnr[of "devices s'" "devices s"] by simp

lemma table_ok_map [simp]: "(\<And>d. devnr (g d) = devnr d) \<Longrightarrow> table_ok (map g ds) = table_ok ds"
  by (simp add: table_ok_def comp_def)

lemma ctl_ok_upd [simp]:
  "ctl_ok (s\<lparr>clkOut := c\<rparr>) = ctl_ok s" "ctl_ok (s\<lparr>dataOut := c\<rparr>) = ctl_ok s" "ctl_ok (s\<lparr>inTask := c\<rparr>) = ctl_ok s"
  "ctl_ok (s\<lparr>currentDevice := cd\<rparr>) = ctl_ok s" "ctl_ok (s\<lparr>timeoutStart := t\<rparr>) = ctl_ok s"
  "ctl_ok (s\<lparr>timeoutDuration := u\<rparr>) = ctl_ok s" "ctl_ok (s\<lparr>buffer := bs\<rparr>) = ctl_ok s"
  "ctl_ok (writePinCTRL v s) = ctl_ok s" "ctl_ok (tick s) = ctl_ok s"
  "ctl_ok (s\<lparr>flags := f\<rparr>) = (table_ok (devices s) \<and> roles_ok f)"
  by (simp_all add: ctl_ok_def writePinCTRL_upd tick_def)

lemma ctl_ok_devices_map [simp]:
  "(\<And>d. devnr (g d) = devnr d) \<Longrightarrow> ctl_ok (s\<lparr>devices := map g (devices s)\<rparr>) = ctl_ok s"
  by (simp add: ctl_ok_def)

lemma ctl_ok_atnRequest [simp]: "ctl_ok (atnRequest s) = ctl_ok s"
  by (simp add: ctl_ok_def atnRequest_sel roles_ok_flags)

lemma ctl_ok_task_reset: "ops_keep_devnr ops \<Longrightarrow> ctl_ok s \<Longrightarrow> ctl_ok (task_reset ops s)"
  by (simp add: task_reset_def Let_def roles_ok_flags ctl_ok_def writePinCTRL_upd)

lemma ctl_table_ok: "ctl s' = ctl s \<Longrightarrow> table_ok (devices s') = table_ok (devices s)"
  unfolding ctl_def using table_ok_map_devnr[of "devices s'" "devices s"] by simp

lemma atn_listen_ok:
  assumes h: "atn_listen ops s = Some s'" and ops: "ops_keep_devnr ops" and t: "table_ok (devices s)"
  shows "ctl_ok s'"
proof -
  obtain s1 where u: "update_current (dev_listen ops (secondary s)) s = Some s1"
    and s': "s' = (s1\<lparr>flags := (flags s1 AND NOT P_TALKING) OR P_LISTENING\<rparr>)\<lparr>dataOut := False\<rparr>"
    using h by (auto simp: atn_listen_def bind_eq_Some_conv)
  have "table_ok (devices s1)" using ctl_table_ok[OF update_current_ctl[OF u]] ops t by simp
  then show ?thesis by (simp add: s' roles_ok_flags)
qed

lemma atn_talk_ok:
  assumes h: "atn_talk ops s = Some s'" and ops: "ops_keep_devnr ops" and t: "table_ok (devices s)"
  shows "ctl_ok s'"
proof -
  obtain j s1 where c: "call_current (\<lambda>d. (has_flag S_JIFFY_DETECTED d, d)) s = Some (j, s1)"
    using h by (auto simp: atn_talk_def bind_eq_Some_conv)
  obtain s2 where u1: "(if j \<and> secondary s = 0x61
            then update_current (set_flags S_JIFFY_BLOCK) (s\<lparr>secondary := 0x60\<rparr>) else Some s) = Some s2"
    using h c by (auto simp: atn_talk_def bind_eq_Some_conv)
  have t2: "table_ok (devices s2)"
  proof (cases "j \<and> secondary s = 0x61")
    case True
    then have "update_current (set_flags S_JIFFY_BLOCK) (s\<lparr>secondary := 0x60\<rparr>) = Some s2" using u1 by simp
    then show ?thesis using ctl_table_ok[OF update_current_ctl] t by fastforce
  qed (use u1 t in \<open>auto split: if_splits\<close>)
  obtain s3 where u2: "update_current (dev_talk ops (secondary s2)) s2 = Some s3"
    using h c u1 by (auto simp: atn_talk_def bind_eq_Some_conv)
  have t3: "table_ok (devices s3)" using ctl_table_ok[OF update_current_ctl[OF u2]] ops t2 by simp
  define s4 where "s4 = s3\<lparr>flags := (flags s3 AND NOT P_LISTENING) OR P_TALKING\<rparr>"
  have ok4: "ctl_ok s4" using t3 by (simp add: s4_def roles_ok_flags)
  obtain ok s5 where w: "waitPinCLK True 1000 s4 = Some (ok, s5)"
    using h c u1 u2 by (auto simp: atn_talk_def bind_eq_Some_conv s4_def Let_def)
  have ok5: "ctl_ok s5" using ctl_ok_ctl[OF waitPinCLK_ctl[OF w]] ok4 by simp
  have "s' = (if ok then (s5\<lparr>clkOut := False, dataOut := True\<rparr>)\<lparr>timeoutStart := micros s5, timeoutDuration := 80\<rparr> else s5)"
    using h c u1 u2 w by (auto simp: atn_talk_def bind_eq_Some_conv s4_def Let_def)
  then show ?thesis using ok5 by simp
qed


lemma epyx_task_dev_ctl:
  assumes h: "epyx_task_dev ops i s = Some s'" and ops: "ops_keep_devnr ops"
  shows "ctl s' = ctl s"
proof -
  let ?d = "devices s ! i"
  let ?s1 = "s\<lparr>currentDevice := Some (devnr ?d)\<rparr>"
  consider (hdr) "has_flag S_EPYX_HEADER ?d \<and> readPinDATA s"
    | (load) "\<not> (has_flag S_EPYX_HEADER ?d \<and> readPinDATA s)" "has_flag S_EPYX_LOAD ?d"
    | (none) "\<not> (has_flag S_EPYX_HEADER ?d \<and> readPinDATA s)" "\<not> has_flag S_EPYX_LOAD ?d"
    by blast
  then show ?thesis
  proof cases
    case hdr
    then obtain s2 ok s3 where u: "update_current (clear_flags S_EPYX_HEADER) ?s1 = Some s2"
      and r: "receiveEpyxHeader ops s2 = Some (ok, s3)"
      and s': "s' = (if ok then s3 else s3\<lparr>clkOut := True, dataOut := True\<rparr>)"
      using h by (auto simp: epyx_task_dev_def Let_def bind_eq_Some_conv)
    show ?thesis using update_current_ctl[OF u] receiveEpyxHeader_ctl[OF r ops] s' by simp
  next
    case load
    then obtain ok s2 where t: "transmitEpyxBlock ops ?s1 = Some (ok, s2)"
      and rest: "(if ok then Some s2 else do {
          s3 \<leftarrow> update_current (dev_listen ops 0xE0) (writePinDATA True (writePinCLK True s2));
          s4 \<leftarrow> update_current (dev_unlisten ops) s3;
          update_current (clear_flags S_EPYX_LOAD) s4 }) = Some s'"
      using h by (auto simp: epyx_task_dev_def Let_def bind_eq_Some_conv)
    have "ctl s2 = ctl s" using transmitEpyxBlock_ctl[OF t ops] by simp
    then show ?thesis using rest ops
      by (auto simp: bind_eq_Some_conv split: if_splits dest!: update_current_ctl)
  next
    case none
    then have "s' = s" using h by (auto simp: epyx_task_dev_def Let_def)
    then show ?thesis by simp
  qed
qed

lemma epyx_devs_ctl: "epyx_devs ops is s = Some s' \<Longrightarrow> ops_keep_devnr ops \<Longrightarrow> ctl s' = ctl s"
proof (induction "is" arbitrary: s)
  case (Cons i "is")
  then show ?case by (auto simp: bind_eq_Some_conv dest!: epyx_task_dev_ctl)
qed simp


lemma ctl_ok_transfer:
  assumes "ctl b = ctl s" "ctl_ok s"
  shows ctl_ok_sameI: "ctl_ok b" and ctl_ok_tableI: "table_ok (devices b)" and ctl_ok_rolesI: "roles_ok (flags b)"
proof -
  show "ctl_ok b" using ctl_ok_ctl[OF assms(1)] assms(2) by simp
  then show "table_ok (devices b)" "roles_ok (flags b)" by (simp_all add: ctl_ok_def)
qed

lemmas ctl_ok_intros = ctl_ok_sameI ctl_ok_tableI ctl_ok_rolesI

lemma task_receive_ok:
  assumes h: "task_receive ops s = Some s'" and ops: "ops_keep_devnr ops" and ok: "ctl_ok s"
  shows "ctl_ok s'"
proof (cases "flags s AND (P_ATN OR P_LISTENING) \<noteq> 0 \<and> flags s AND P_DONE = 0")
  case False
  then show ?thesis using h ok by (auto simp: task_receive_def)
next
  case True
  obtain n s0 where c: "(if currentDevice s = None then Some (0, s\<lparr>inTask := False\<rparr>)
                          else call_current (dev_canWrite ops) (s\<lparr>inTask := False\<rparr>)) = Some (n, s0)"
    using h True by (auto simp: task_receive_def bind_eq_Some_conv)
  define s1 where "s1 = s0\<lparr>inTask := True\<rparr>"
  have "ctl s0 = ctl s" using c ops by (auto split: if_splits dest!: call_current_ctl)
  then have c1: "ctl s1 = ctl s" by (simp add: s1_def)
  have rest: "(if \<not> under_atn s1 \<and> \<not> readPinATN s1 then Some (atnRequest s1)
        else if under_atn s1 \<and> micros s1 - timeoutStart s1 < 100 then Some s1
        else do {
          (jiffy, _) \<leftarrow> (if under_atn s1 then Some (False, s1)
                         else call_current (\<lambda>d. (has_flag S_JIFFY_DETECTED d, d)) s1);
          if jiffy \<and> n \<ge> 0 then
            receiveJiffyByte ops (n > 0) s1 \<bind> (\<lambda>(ok, s2).
              Some (if ok then s2 else (writePinDATA True s2)\<lparr>flags := flags s2 OR P_DONE\<rparr>))
          else if (under_atn s1 \<or> n \<ge> 0) \<and> readPinCLK s1 then
            receiveIECByte ops (n > 0) s1 \<bind> (\<lambda>(ok, s2).
              Some (if ok then s2 else (writePinDATA True s2)\<lparr>flags := flags s2 OR P_DONE\<rparr>))
          else Some s1 }) = Some s'"
    using h True c unfolding task_receive_def s1_def Let_def by (simp add: bind_eq_Some_conv)
  have ok1: "ctl_ok s1" using ctl_ok_ctl[OF c1] ok by simp
  show ?thesis
  proof (cases "under_atn s1")
    case True
    then show ?thesis using rest ok1 c1 ok
      by (auto simp: bind_eq_Some_conv split: if_splits prod.splits dest!: receiveIECByte_ctl[OF _ ops] intro: ctl_ok_intros)
  next
    case False
    then show ?thesis using rest ok1 c1 ok
      by (auto simp: bind_eq_Some_conv split: if_splits prod.splits
               dest!: call_current_ctl receiveJiffyByte_ctl[OF _ ops] receiveIECByte_ctl[OF _ ops] intro: ctl_ok_intros)
  qed
qed


lemma task_transmit_ok:
  assumes h: "task_transmit ops s = Some s'" and ops: "ops_keep_devnr ops" and ok: "ctl_ok s"
  shows "ctl_ok s'"
proof (cases "flags s AND (P_ATN OR P_TALKING OR P_DONE) = P_TALKING")
  case False
  then show ?thesis using h ok by (auto simp: task_transmit_def)
next
  case True
  obtain bm x where b: "call_current (\<lambda>d. (has_flag S_JIFFY_BLOCK d, d)) s = Some (bm, x)"
    using h True by (auto simp: task_transmit_def bind_eq_Some_conv)
  show ?thesis
  proof (cases bm)
    case True
    obtain blk s0 where r: "call_current (dev_read_block ops (bufferSize s)) s = Some (blk, s0)"
      using h \<open>flags s AND _ = _\<close> b True by (auto simp: task_transmit_def bind_eq_Some_conv)
    define s1 where "s1 = s0\<lparr>buffer := blk @ drop (length blk) (buffer s0)\<rparr>"
    have c1: "ctl s1 = ctl s" using call_current_ctl[OF r] ops by (simp add: s1_def)
    obtain w s2 where w: "waitTimeoutFrom (timeoutStart s1) 150 s1 = (w, s2)" by fastforce
    have c2: "ctl s2 = ctl s" using waitTimeoutFrom_ctl[OF w] c1 by simp
    have rest: "(if w then transmitJiffyBlock blk s2 \<bind> (\<lambda>(ok, s3).
                  Some (if ok then s3\<lparr>timeoutStart := micros s3\<rparr> else s3\<lparr>flags := flags s3 OR P_DONE\<rparr>))
                 else Some (s2\<lparr>flags := flags s2 OR P_DONE\<rparr>)) = Some s'"
      using h \<open>flags s AND _ = _\<close> b True r w by (cases w) (auto simp: task_transmit_def s1_def Let_def)
    show ?thesis
      using rest c2 ok
      by (auto simp: bind_eq_Some_conv split: if_splits prod.splits dest!: transmitJiffyBlock_ctl intro: ctl_ok_intros)
  next
    case False
    obtain n s0 where r: "call_current (dev_canRead ops) (s\<lparr>inTask := False\<rparr>) = Some (n, s0)"
      using h \<open>flags s AND _ = _\<close> b False by (auto simp: task_transmit_def bind_eq_Some_conv)
    define s1 where "s1 = s0\<lparr>inTask := True\<rparr>"
    have c1: "ctl s1 = ctl s" using call_current_ctl[OF r] ops by (simp add: s1_def)
    have rest: "(if \<not> readPinATN s1 then Some (atnRequest s1)
          else if unat (micros s1 - timeoutStart s1) < unat (timeoutDuration s1) \<or> n < 0 then Some s1
          else do {
            (jiffy, _) \<leftarrow> call_current (\<lambda>d. (has_flag S_JIFFY_DETECTED d, d)) s1;
            if jiffy then
              transmitJiffyByte ops (word_of_int n) s1 \<bind> (\<lambda>(ok, s2).
                Some (if ok then s2 else s2\<lparr>flags := flags s2 OR P_DONE\<rparr>))
            else
              transmitIECByte ops (word_of_int n) s1 \<bind> (\<lambda>(ok, s2).
                Some (if ok then s2\<lparr>timeoutStart := micros s2, timeoutDuration := 200\<rparr>
                      else s2\<lparr>flags := flags s2 OR P_DONE\<rparr>)) }) = Some s'"
      using h \<open>flags s AND _ = _\<close> b False r unfolding task_transmit_def s1_def Let_def by (simp add: bind_eq_Some_conv)
    show ?thesis
      using rest c1 ok
      by (auto simp: bind_eq_Some_conv split: if_splits prod.splits
               dest!: call_current_ctl transmitJiffyByte_ctl[OF _ ops] transmitIECByte_ctl[OF _ ops] intro: ctl_ok_intros)
  qed
qed


lemma atn_release_ok:
  assumes h: "atn_release ops s0 = Some s'" and ops: "ops_keep_devnr ops" and ok: "ctl_ok s0"
  shows "ctl_ok s'"
proof -
  define s where "s = writePinCTRL False (s0\<lparr>flags := flags s0 AND NOT P_ATN\<rparr>)"
  have oks: "ctl_ok s" using ok by (simp add: s_def ctl_ok_def writePinCTRL_upd)
  define target where "target = map_option devnr (findDevice (primary s AND 0x1F) (devices s))"
  obtain s1 where b: "(if primary s AND 0xE0 = 0x20 \<and> target \<noteq> None then atn_listen ops (s\<lparr>currentDevice := target\<rparr>)
        else if primary s AND 0xE0 = 0x40 \<and> target \<noteq> None then atn_talk ops (s\<lparr>currentDevice := target\<rparr>)
        else
          (let s1 = (if primary s AND 0xE0 = 0x20 \<or> primary s AND 0xE0 = 0x40 then s\<lparr>currentDevice := target\<rparr> else s) in
           if primary s1 = 0x3f \<and> flag_set P_LISTENING s1 then
             Some (s1\<lparr>flags := flags s1 AND NOT P_LISTENING, devices := map (dev_unlisten ops) (devices s1)\<rparr>)
           else if primary s1 = 0x5f \<and> flag_set P_TALKING s1 then
             Some (s1\<lparr>flags := flags s1 AND NOT P_TALKING, devices := map (dev_untalk ops) (devices s1)\<rparr>)
           else Some s1)) = Some s1"
    and s': "s' = (if flags s1 AND (P_LISTENING OR P_TALKING) = 0 then writePinDATA True (writePinCLK True s1) else s1)"
    using h unfolding atn_release_def s_def[symmetric] target_def[symmetric] Let_def
    by (auto simp: bind_eq_Some_conv)
  have t: "table_ok (devices s)" using oks by (simp add: ctl_ok_def)
  have "ctl_ok s1"
    using b oks t ops by (auto simp: Let_def ctl_ok_def split: if_splits dest!: atn_listen_ok atn_talk_ok)
  then show ?thesis using s' by simp
qed

lemma task_atn_ok: "task_atn ops s = Some s' \<Longrightarrow> ops_keep_devnr ops \<Longrightarrow> ctl_ok s \<Longrightarrow> ctl_ok s'"
  unfolding task_atn_def by (auto split: if_splits dest: atn_release_ok)

lemma inTask_atnRequest [simp]: "inTask (atnRequest s) = inTask s"
  by (simp add: atnRequest_def writePinCTRL_upd Let_def)

lemma task_end_ok: "ops_keep_devnr ops \<Longrightarrow> ctl_ok s \<Longrightarrow> ctl_ok (task_end ops s) \<and> \<not> inTask (task_end ops s)"
  by (simp add: task_end_def Let_def atnRequest_sel)


lemma task_inv:
  assumes h: "task ops s = Some s'" and ops: "ops_keep_devnr ops" and inv: "handler_inv s"
  shows "handler_inv s'"
proof (cases "flags s = 0xFF")
  case True
  then show ?thesis using h inv by (simp add: task_def)
next
  case False
  then have ok: "ctl_ok (s\<lparr>inTask := True\<rparr>)" using inv by (simp add: handler_inv_def ctl_ok_def)
  obtain s2 s3 s4 s5 where
    a: "task_atn ops (task_reset ops (s\<lparr>inTask := True\<rparr>)) = Some s2" and
    e: "epyx_devs ops [0..<length (devices s2)] s2 = Some s3" and
    r: "task_receive ops s3 = Some s4" and t: "task_transmit ops s4 = Some s5" and
    s': "s' = task_end ops s5"
    using h False by (auto simp: task_def bind_eq_Some_conv)
  have "ctl_ok s2" using task_atn_ok[OF a ops ctl_ok_task_reset[OF ops ok]] .
  then have "ctl_ok s3" using ctl_ok_ctl[OF epyx_devs_ctl[OF e ops]] by simp
  then have "ctl_ok s5" using task_transmit_ok[OF t ops task_receive_ok[OF r ops]] by simp
  then show ?thesis using task_end_ok[OF ops, of s5] s' by (simp add: handler_inv_def ctl_ok_def)
qed

lemma sched_step_inv:
  assumes "sched_step ops s e s'" "ops_keep_devnr ops" "handler_inv s"
  shows "handler_inv s'"
  using assms
proof (induction rule: sched_step.induct)
  case (call_begin s)
  then show ?case
    by (simp add: handler_inv_def handler_begin_def writePinCTRL_upd Let_def roles_ok_flags)
next
  case (task s s')
  then show ?case by (rule task_inv)
next
  case (irq s)
  then show ?case by (auto simp: handler_inv_def atnInterruptFcn_def atnRequest_sel byte_eq_bits flag_bits)
next
  case (attach d s b s')
  then have "devices s' = devices s \<or> table_ok (devices s')" using attachDevice_table_ok[of s ops d b s']
    by (simp add: handler_inv_def)
  then show ?case using attach by (auto simp: handler_inv_def attachDevice_def Let_def split: if_splits)
next
  case (detach n s b s')
  then show ?case
    by (auto simp: handler_inv_def detachDevice_def split: option.splits dest: detach_from_table_ok)
next
  case (idle s)
  then show ?case by (simp add: handler_inv_def tick_def)
qed

lemma sched_steps_inv:
  "sched_steps ops s es s' \<Longrightarrow> ops_keep_devnr ops \<Longrightarrow> handler_inv s \<Longrightarrow> handler_inv s'"
  by (induction rule: sched_steps.induct) (auto dest: sched_step_inv)

text \<open>C14: in every state reachable from the constructor by any interleaving of
  \<open>begin()\<close>, \<open>task()\<close>, the ATN interrupt, \<open>attachDevice\<close>, \<open>detachDevice\<close> and
  time passing (with device methods that keep their device's address), the
  device table holds at most \<open>MAX_DEVICES\<close> devices with distinct addresses,
  once \<open>begin()\<close> has run the handler is never listener and talker at once,
  and \<open>m_inTask\<close> is clear, so the ATN interrupt is never locked out between
  calls of \<open>task()\<close>.\<close>

theorem handler_reachable_inv:
  assumes "ops_keep_devnr ops" "sched_steps ops (IECBusHandler pinRst pinCtrl atnIrq env) es s"
  shows "length (devices s) \<le> MAX_DEVICES \<and> distinct (map devnr (devices s)) \<and>
         (flags s \<noteq> 0xFF \<longrightarrow> \<not> (flag_set P_LISTENING s \<and> flag_set P_TALKING s)) \<and> \<not> inTask s"
proof -
  have "handler_inv (IECBusHandler pinRst pinCtrl atnIrq env :: 'a iec)"
    by (simp add: handler_inv_def IECBusHandler_def table_ok_def)
  then have "handler_inv s" using sched_steps_inv assms by blast
  then show ?thesis by (auto simp: handler_inv_def table_ok_def roles_ok_def byte_eq_bits flag_bits)
qed

end
