(* ===== verification/File_Device.thy ===== *)
theory File_Device
  imports Frame
begin

text \<open>
  \<open>IECFileDevice\<close> (IECFileDevice.cpp/.h): a device personality that maps the
  bus protocol onto files. A subclass provides \<open>open\<close>, \<open>close\<close>, \<open>read\<close>,
  \<open>write\<close>, \<open>getStatus\<close> and \<open>execute\<close> (the record \<open>file_hooks\<close> over the
  subclass's own state \<open>'u\<close>); \<open>IECFileDevice\<close> keeps a two-byte look-ahead
  per channel so that it can tell the bus handler when the byte it sends is
  the last one, a name buffer for OPEN and for commands to channel 15, the
  status buffer, and defers the slow file operations to \<open>fileTask()\<close>.
  \<open>file_ops\<close> is the device's table of virtual methods, the instance of
  \<open>dev_ops\<close> the bus handler calls.

  The object is a global of the sketch, so the fields the constructor leaves
  alone start as zero. The signed \<open>int8_t\<close> fields hold small values
  (at most 40) and are integers here. Arrays are lists of their declared
  length; \<open>m_dataBufferLen[m_channel]\<close> with \<open>m_channel = 15\<close> is out of
  bounds in C++ (where a write lands in the
  neighbouring fields; here a read gives an unspecified value and a write
  is lost): \<open>canRead()\<close>, \<open>read()\<close>, \<open>canWrite()\<close>
  and \<open>write()\<close> test the channel first; the block transfers, which only the
  JiffyDOS block mode and the Epyx loader use, on data channels, do not.

  The lemmas show the streams of a read and of a write transaction, the
  refusal of a byte, the status channel, and that every method keeps the
  object's shape.
\<close>

section \<open>State\<close>

record 'u fdev =
  f_opening :: bool
  f_canServeATN :: bool
  f_channel :: byte
  f_cmd :: byte
  f_name :: "byte list"
  f_data :: "byte list list"
  f_statusLen :: int
  f_statusPtr :: int
  f_nameLen :: int
  f_dataLen :: "int list"
  f_status :: "byte list"
  f_epyxCtr :: byte
  f_user :: 'u

abbreviation (input) IFD_NONE :: byte where "IFD_NONE \<equiv> 0"
abbreviation (input) IFD_OPEN :: byte where "IFD_OPEN \<equiv> 1"
abbreviation (input) IFD_READ :: byte where "IFD_READ \<equiv> 2"
abbreviation (input) IFD_WRITE :: byte where "IFD_WRITE \<equiv> 3"
abbreviation (input) IFD_CLOSE :: byte where "IFD_CLOSE \<equiv> 4"
abbreviation (input) IFD_EXEC :: byte where "IFD_EXEC \<equiv> 5"

text \<open>The virtual functions a subclass overrides. \<open>h_read ch n\<close> and \<open>h_write ch bs\<close>
  are \<open>read(channel, buffer, bufferSize)\<close> and \<open>write(channel, buffer, bufferSize)\<close>:
  \<open>h_read\<close> returns the bytes it put into the buffer (its result is their
  number), \<open>h_write\<close> the number of bytes it took. \<open>h_getStatus n\<close> returns the
  characters it writes into a buffer of \<open>n\<close> bytes.\<close>

record 'u file_hooks =
  h_open :: "byte \<Rightarrow> byte list \<Rightarrow> 'u \<Rightarrow> 'u"
  h_close :: "byte \<Rightarrow> 'u \<Rightarrow> 'u"
  h_write :: "byte \<Rightarrow> byte list \<Rightarrow> 'u \<Rightarrow> byte \<times> 'u"
  h_read :: "byte \<Rightarrow> byte \<Rightarrow> 'u \<Rightarrow> byte list \<times> 'u"
  h_getStatus :: "byte \<Rightarrow> 'u \<Rightarrow> byte list \<times> 'u"
  h_execute :: "byte list \<Rightarrow> byte \<Rightarrow> 'u \<Rightarrow> 'u"

text \<open>The defaults of IECFileDevice.h (lines 38--63).\<close>

definition default_hooks :: "'u file_hooks" where
  "default_hooks =
     \<lparr>h_open = \<lambda>ch name u. u, h_close = \<lambda>ch u. u, h_write = \<lambda>ch bs u. (0, u),
      h_read = \<lambda>ch n u. ([], u), h_getStatus = \<lambda>n u. ([0], u), h_execute = \<lambda>cmd n u. u\<rparr>"

text \<open>The constructor (lines 75--82), for the object at address \<open>p\<close>.\<close>

definition IECFileDevice :: "nat \<Rightarrow> byte \<Rightarrow> 'u \<Rightarrow> 'u fdev device" where
  "IECFileDevice p n u =
     \<lparr>oid = p, devnr = n, sflags = 0,
      dev = \<lparr>f_opening = False, f_canServeATN = False, f_channel = 0, f_cmd = IFD_NONE,
             f_name = replicate 41 0, f_data = replicate 15 [0, 0], f_statusLen = 0, f_statusPtr = 0,
             f_nameLen = 0, f_dataLen = replicate 15 0, f_status = replicate 32 0, f_epyxCtr = 0,
             f_user = u\<rparr>\<rparr>"

section \<open>Channel buffers\<close>

text \<open>\<open>m_dataBufferLen[m_channel]\<close>, \<open>m_dataBuffer[m_channel]\<close> and their updates.\<close>

definition dlen :: "'u fdev \<Rightarrow> int" where
  "dlen st = f_dataLen st ! unat (f_channel st)"

definition set_dlen :: "int \<Rightarrow> 'u fdev \<Rightarrow> 'u fdev" where
  "set_dlen v st = st\<lparr>f_dataLen := (f_dataLen st)[unat (f_channel st) := v]\<rparr>"

definition dbuf :: "'u fdev \<Rightarrow> byte list" where
  "dbuf st = f_data st ! unat (f_channel st)"

definition set_dbuf :: "nat \<Rightarrow> byte \<Rightarrow> 'u fdev \<Rightarrow> 'u fdev" where
  "set_dbuf i v st = st\<lparr>f_data := (f_data st)[unat (f_channel st) := (dbuf st)[i := v]]\<rparr>"

text \<open>The byte count a \<open>read()\<close> hook returns.\<close>

definition cnt :: "byte list \<Rightarrow> byte" where
  "cnt bs = of_nat (length bs)"

text \<open>A one-byte \<open>read(m_channel, &m_dataBuffer[m_channel][i], 1)\<close>: the byte is
  stored when the count is not zero; the result says whether it was.\<close>

definition read_into :: "'u file_hooks \<Rightarrow> nat \<Rightarrow> 'u fdev \<Rightarrow> bool \<times> 'u fdev" where
  "read_into h i st =
     (let (bs, u) = h_read h (f_channel st) 1 (f_user st);
          st1 = st\<lparr>f_user := u\<rparr>
      in if cnt bs = 0 then (False, st1) else (True, set_dbuf i (hd bs) st1))"

section \<open>fileTask()\<close>

text \<open>\<open>checkMWcmd(addr, len, checksum)\<close> (lines 556--572): the name buffer holds an
  \<^verbatim>\<open>M-W\<close> command writing \<open>len\<close> bytes to \<open>addr\<close> whose byte sum is \<open>checksum\<close>.\<close>

definition checkMWcmd :: "'u fdev \<Rightarrow> word16 \<Rightarrow> byte \<Rightarrow> byte \<Rightarrow> bool" where
  "checkMWcmd st addr len checksum \<longleftrightarrow>
     \<not> f_nameLen st < int (unat len) + 6 \<and> take 3 (f_name st) = [0x4D, 0x2D, 0x57] \<and>
     f_name st ! 3 = ucast (addr AND 0xFF) \<and> f_name st ! 4 = ucast (drop_bit 8 addr AND 0xFF) \<and>
     f_name st ! 5 = len \<and> sum_list (take (unat len) (drop 6 (f_name st))) = checksum"

text \<open>The Epyx FastLoad detection of lines 510--536: the state machine over
  \<open>m_epyxCtr\<close> that recognises the loader's M-W uploads followed by its M-E.
  The result is the new counter and whether the command was handled.\<close>

definition epyx_detect :: "'u fdev \<Rightarrow> byte \<times> bool" where
  "epyx_detect st =
     (let c = f_epyxCtr st; nm = take 5 (f_name st) in
      if c = 0 \<and> checkMWcmd st 0x0180 0x20 0x2E then (11, True)
      else if c = 11 \<and> checkMWcmd st 0x01A0 0x20 0xA5 then (12, True)
      else if c = 12 \<and> nm = [0x4D, 0x2D, 0x45, 0xA2, 0x01] then (99, True)
      else if c = 0 \<and> checkMWcmd st 0x0180 0x19 0x53 then (21, True)
      else if c = 21 \<and> checkMWcmd st 0x0199 0x19 0xA6 then (22, True)
      else if c = 22 \<and> checkMWcmd st 0x01B2 0x19 0x8F then (23, True)
      else if c = 23 \<and> nm = [0x4D, 0x2D, 0x45, 0xA9, 0x01] then (99, True)
      else (0, False))"

text \<open>The file name as the C string \<open>open()\<close> receives.\<close>

definition cstr :: "byte list \<Rightarrow> byte list" where
  "cstr bs = takeWhile (\<lambda>c. c \<noteq> 0) bs"

text \<open>Lines 435--553. DolphinDOS commands are compiled out.\<close>

definition fileTask :: "'u file_hooks \<Rightarrow> 'u fdev device \<Rightarrow> 'u fdev device" where
  "fileTask h d =
     (let st = dev d; ch = f_channel st;
          d1 =
            (if f_cmd st = IFD_OPEN then
               d\<lparr>dev := set_dlen (-1) (st\<lparr>f_user := h_open h ch (cstr (f_name st)) (f_user st)\<rparr>)\<rparr>
             else if f_cmd st = IFD_READ then
               (let (ok, st1) = read_into h (nat (dlen st)) st
                in d\<lparr>dev := (if ok then set_dlen (dlen st1 + 1) st1 else st1)\<rparr>)
             else if f_cmd st = IFD_WRITE then
               (let (nn, u) = h_write h ch (take 1 (dbuf st)) (f_user st);
                    st1 = st\<lparr>f_user := u\<rparr>
                in d\<lparr>dev := (if nn = 1 then set_dlen 0 st1 else st1)\<rparr>)
             else if f_cmd st = IFD_CLOSE then
               d\<lparr>dev := set_dlen 0 (st\<lparr>f_user := h_close h ch (f_user st)\<rparr>)\<rparr>
             else if f_cmd st = IFD_EXEC then
               (let (c, handled) = epyx_detect st;
                    d2 = (if c = 99 then epyxLoadRequest d else d);
                    st2 = st\<lparr>f_epyxCtr := (if c = 99 then 0 else c)\<rparr>
                in d2\<lparr>dev := (if handled then st2
                              else st2\<lparr>f_user := h_execute h (take (nat (f_nameLen st)) (f_name st))
                                                   (of_int (f_nameLen st)) (f_user st2)\<rparr>)\<rparr>)
             else d)
      in d1\<lparr>dev := (dev d1)\<lparr>f_cmd := IFD_NONE\<rparr>\<rparr>)"

section \<open>The virtual methods\<close>

text \<open>\<open>begin()\<close> (lines 85--143), with the handler's \<open>m_bufferSize\<close> and
  \<open>canServeATN()\<close>. \<open>IECDevice::begin()\<close> (IECDevice.cpp, not part of
  \<open>src/\<close>) leaves this state alone.\<close>

definition fd_begin :: "byte \<Rightarrow> bool \<Rightarrow> 'u fdev device \<Rightarrow> 'u fdev device" where
  "fd_begin bufSize serve d =
     (let d1 = snd (enableEpyxFastLoadSupport True bufSize (snd (enableJiffyDosSupport True bufSize d)))
      in d1\<lparr>dev := (dev d1)\<lparr>f_epyxCtr := 0, f_statusPtr := 0, f_statusLen := 0,
                             f_dataLen := replicate 15 0, f_cmd := IFD_NONE, f_canServeATN := serve\<rparr>\<rparr>)"

text \<open>The status buffer refilled by \<open>getStatus(m_statusBuffer, 31)\<close> (lines
  159--161): first byte cleared, the hook's characters written, byte 31
  cleared; the length is \<open>strlen()\<close> of the result.\<close>

definition status_fill :: "byte list \<Rightarrow> byte list \<Rightarrow> byte list" where
  "status_fill old gs = (take 32 (gs @ drop (length gs) (old[0 := 0])))[31 := 0]"

text \<open>\<open>canRead()\<close> (lines 146--208).\<close>

definition fd_canRead :: "'u file_hooks \<Rightarrow> 'u fdev device \<Rightarrow> int \<times> 'u fdev device" where
  "fd_canRead h d0 =
     (let d = (if \<not> f_canServeATN (dev d0) then fileTask h d0 else d0); st = dev d in
      if f_channel st = 15 then
        (if f_statusPtr st = f_statusLen st then
           (let (gs, u) = h_getStatus h 31 (f_user st);
                buf = status_fill (f_status st) gs;
                len = int (length (cstr buf))
            in (len, d\<lparr>dev := st\<lparr>f_user := u, f_status := buf, f_statusLen := len, f_statusPtr := 0\<rparr>\<rparr>))
         else (f_statusLen st - f_statusPtr st, d))
      else if dlen st < 0 then
        (let (ok1, st1) = read_into h 0 st in
         if \<not> ok1 then (0, d\<lparr>dev := set_dlen 0 st1\<rparr>)
         else (let (ok2, st2) = read_into h 1 st1 in
               if \<not> ok2 then (1, d\<lparr>dev := set_dlen 1 st2\<rparr>) else (2, d\<lparr>dev := set_dlen 2 st2\<rparr>)))
      else (dlen st, d))"

text \<open>\<open>peek()\<close> (lines 211--225) and \<open>read()\<close> (lines 228--252).\<close>

definition fd_peek :: "'u fdev device \<Rightarrow> byte" where
  "fd_peek d =
     (let st = dev d in if f_channel st = 15 then f_status st ! nat (f_statusPtr st) else dbuf st ! 0)"

definition fd_read :: "'u fdev device \<Rightarrow> byte \<times> 'u fdev device" where
  "fd_read d =
     (let st = dev d in
      if f_channel st = 15 then
        (f_status st ! nat (f_statusPtr st), d\<lparr>dev := st\<lparr>f_statusPtr := f_statusPtr st + 1\<rparr>\<rparr>)
      else
        (dbuf st ! 0,
         d\<lparr>dev := (if dlen st = 2 then (set_dlen 1 (set_dbuf 0 (dbuf st ! 1) st))\<lparr>f_cmd := IFD_READ\<rparr>
                   else set_dlen 0 st)\<rparr>))"

text \<open>\<open>read(buffer, bufferSize)\<close> (lines 255--280). The first loop empties the
  look-ahead; \<open>res\<close> counts the bytes delivered.\<close>

function rb_buffered :: "byte \<Rightarrow> byte \<Rightarrow> byte list \<Rightarrow> 'u fdev \<Rightarrow> byte \<times> byte list \<times> 'u fdev" where
  "rb_buffered n res out st =
     (if dlen st > 0 \<and> res < n
      then rb_buffered n (res + 1) (out @ [dbuf st ! 0]) (set_dlen (dlen st - 1) (set_dbuf 0 (dbuf st ! 1) st))
      else (res, out, st))"
  by pat_completeness auto
termination
  by (relation "measure (\<lambda>(n, res, out, st). unat n - unat res)")
     (auto simp: unat_plus_one_less word_less_nat_alt)

declare rb_buffered.simps [simp del]

text \<open>The second loop asks the subclass for the rest. Each round the hook is
  offered the space left; a hook that honours it fills the buffer in at most
  \<open>bufferSize\<close> rounds, the fuel given to the loop.\<close>

primrec rb_hook :: "'u file_hooks \<Rightarrow> nat \<Rightarrow> byte \<Rightarrow> byte \<Rightarrow> byte list \<Rightarrow> 'u fdev \<Rightarrow> byte \<times> byte list \<times> 'u fdev" where
  "rb_hook h 0 n res out st = (res, out, st)"
| "rb_hook h (Suc k) n res out st =
     (if res < n then
        (let (bs, u) = h_read h (f_channel st) (n - res) (f_user st) in
         if cnt bs = 0 then (res, out, st\<lparr>f_user := u\<rparr>)
         else rb_hook h k n (res + cnt bs) (out @ take (unat (cnt bs)) bs) (st\<lparr>f_user := u\<rparr>))
      else (res, out, st))"

definition fd_read_block :: "'u file_hooks \<Rightarrow> byte \<Rightarrow> 'u fdev device \<Rightarrow> byte list \<times> 'u fdev device" where
  "fd_read_block h n d =
     (let (res1, out1, st1) = rb_buffered n 0 [] (dev d);
          (res2, out2, st2) = rb_hook h (unat n) n res1 out1 st1
      in (out2, d\<lparr>dev := st2\<rparr>))"

text \<open>\<open>canWrite()\<close> (lines 283--293) and \<open>write(data, eoi)\<close> (lines 296--314);
  the EOI flag is not used.\<close>

definition fd_canWrite :: "'u file_hooks \<Rightarrow> 'u fdev device \<Rightarrow> int \<times> 'u fdev device" where
  "fd_canWrite h d0 =
     (let d = (if \<not> f_canServeATN (dev d0) then fileTask h d0 else d0); st = dev d in
      (if f_opening st \<or> f_channel st = 15 \<or> dlen st < 1 then 1 else 0, d))"

definition fd_write :: "byte \<Rightarrow> bool \<Rightarrow> 'u fdev device \<Rightarrow> 'u fdev device" where
  "fd_write b eoi d =
     (let st = dev d in
      if f_channel st < 15 \<and> \<not> f_opening st then
        d\<lparr>dev := (set_dlen 1 (set_dbuf 0 b st))\<lparr>f_cmd := IFD_WRITE\<rparr>\<rparr>
      else if f_nameLen st < 40 then
        d\<lparr>dev := st\<lparr>f_name := (f_name st)[nat (f_nameLen st) := b], f_nameLen := f_nameLen st + 1\<rparr>\<rparr>
      else d)"

text \<open>\<open>write(buffer, bufferSize, eoi)\<close> (lines 317--337): a byte still in the
  look-ahead goes first; if the subclass does not take it all, nothing else
  is written.\<close>

definition fd_write_block :: "'u file_hooks \<Rightarrow> byte list \<Rightarrow> bool \<Rightarrow> 'u fdev device \<Rightarrow> byte \<times> 'u fdev device" where
  "fd_write_block h bs eoi d =
     (let st = dev d; ch = f_channel st; n = dlen st in
      if n > 0 then
        (let (nn, u) = h_write h ch (take (nat n) (dbuf st)) (f_user st);
             st1 = set_dlen (n - uint nn) (st\<lparr>f_user := u\<rparr>)
         in if n - uint nn > 0 then (0, d\<lparr>dev := st1\<rparr>)
            else (let (nn2, u2) = h_write h ch bs (f_user st1) in (nn2, d\<lparr>dev := st1\<lparr>f_user := u2\<rparr>\<rparr>)))
      else (let (nn2, u2) = h_write h ch bs (f_user st) in (nn2, d\<lparr>dev := st\<lparr>f_user := u2\<rparr>\<rparr>)))"

text \<open>\<open>talk()\<close>, \<open>untalk()\<close>, \<open>listen()\<close>, \<open>unlisten()\<close> (lines 340--401). A
  secondary address 0xF0+ch opens a file on channel \<open>ch\<close>, 0xE0+ch closes it,
  channel 15 is the command channel.\<close>

definition fd_talk :: "byte \<Rightarrow> 'u fdev device \<Rightarrow> 'u fdev device" where
  "fd_talk sec d = d\<lparr>dev := (dev d)\<lparr>f_channel := sec AND 0x0F\<rparr>\<rparr>"

definition fd_listen :: "byte \<Rightarrow> 'u fdev device \<Rightarrow> 'u fdev device" where
  "fd_listen sec d =
     (let st = (dev d)\<lparr>f_channel := sec AND 0x0F\<rparr> in
      d\<lparr>dev := (if f_channel st = 15 then st\<lparr>f_nameLen := 0\<rparr>
                else if sec AND 0xF0 = 0xF0 then st\<lparr>f_opening := True, f_nameLen := 0\<rparr>
                else if sec AND 0xF0 = 0xE0 then st\<lparr>f_cmd := IFD_CLOSE\<rparr>
                else st)\<rparr>)"

definition fd_unlisten :: "'u fdev device \<Rightarrow> 'u fdev device" where
  "fd_unlisten d =
     (let st = dev d in
      d\<lparr>dev :=
        (if f_channel st = 15 then
           (if f_nameLen st > 0 then
              (let n = (if f_name st ! nat (f_nameLen st - 1) = 13 then f_nameLen st - 1 else f_nameLen st)
               in st\<lparr>f_nameLen := n, f_name := (f_name st)[nat n := 0], f_cmd := IFD_EXEC\<rparr>)
            else st)
         else if f_opening st then
           st\<lparr>f_opening := False, f_name := (f_name st)[nat (f_nameLen st) := 0], f_cmd := IFD_OPEN\<rparr>
         else st)\<rparr>)"

text \<open>\<open>setStatus(data, dataLen)\<close> (lines 575--588), \<open>reset()\<close> (lines 591--610;
  \<open>memset(m_dataBufferLen, 0, 15)\<close> clears the 15 one-byte entries) and
  \<open>task()\<close> (lines 613--617).\<close>

definition setStatus :: "byte list \<Rightarrow> byte \<Rightarrow> 'u fdev \<Rightarrow> 'u fdev" where
  "setStatus data n st =
     (let len = min 32 (unat n)
      in st\<lparr>f_statusPtr := 0, f_statusLen := int len, f_status := take len data @ drop len (f_status st)\<rparr>)"

definition fd_reset :: "'u fdev device \<Rightarrow> 'u fdev device" where
  "fd_reset d =
     d\<lparr>dev := (dev d)\<lparr>f_statusPtr := 0, f_statusLen := 0, f_dataLen := replicate 15 0,
                       f_cmd := IFD_NONE, f_epyxCtr := 0\<rparr>\<rparr>"

definition fd_task :: "'u file_hooks \<Rightarrow> 'u fdev device \<Rightarrow> 'u fdev device" where
  "fd_task h d = (if f_canServeATN (dev d) then fileTask h d else d)"

text \<open>The table of virtual methods the bus handler calls. The primary and
  secondary address callbacks are those of \<open>IECDevice\<close>, which do nothing.\<close>

definition file_ops :: "'u file_hooks \<Rightarrow> byte \<Rightarrow> bool \<Rightarrow> 'u fdev dev_ops" where
  "file_ops h bufSize serve =
     \<lparr>dev_begin = fd_begin bufSize serve, dev_reset = fd_reset, dev_task = fd_task h,
      dev_listen = fd_listen, dev_unlisten = fd_unlisten, dev_talk = fd_talk, dev_untalk = id,
      dev_primary_address = \<lambda>a. id, dev_secondary_address = \<lambda>a. id,
      dev_canWrite = fd_canWrite h, dev_canRead = fd_canRead h,
      dev_write = fd_write, dev_write_block = fd_write_block h,
      dev_read = fd_read, dev_read_block = fd_read_block h, dev_peek = fd_peek\<rparr>"

section \<open>The device seen from the bus\<close>

text \<open>The shape of the object: the arrays of IECFileDevice.h (lines 97--107) at
  their declared lengths and the name buffer's fill level within its 40
  characters.\<close>

definition fdev_wf :: "'u fdev \<Rightarrow> bool" where
  "fdev_wf st \<longleftrightarrow>
     length (f_dataLen st) = 15 \<and> length (f_data st) = 15 \<and> list_all (\<lambda>b. length b = 2) (f_data st) \<and>
     length (f_name st) = 41 \<and> length (f_status st) = 32 \<and> 0 \<le> f_nameLen st \<and> f_nameLen st \<le> 40"

text \<open>What the device sees of a talk transaction that \<open>task()\<close> carries out
  (IECBusHandler.cpp lines 2353--2420) while every byte is acknowledged:
  \<open>canRead()\<close>; when it is positive, \<open>read()\<close> inside \<open>transmitIECByte\<close>; then
  the device's \<open>task()\<close> at the end of the handler's \<open>task()\<close>. The fuel is
  the number of rounds.\<close>

fun talk_bytes :: "'u file_hooks \<Rightarrow> nat \<Rightarrow> 'u fdev device \<Rightarrow> (int \<times> byte) list \<times> 'u fdev device" where
  "talk_bytes h 0 d = ([], d)"
| "talk_bytes h (Suc k) d =
     (let (n, d1) = fd_canRead h d in
      if n \<le> 0 then ([], d1)
      else (let (b, d2) = fd_read d1; (rest, d3) = talk_bytes h k (fd_task h d2) in ((n, b) # rest, d3)))"

text \<open>What the device sees of a listen transaction (IECBusHandler.cpp lines
  2274--2330 and \<open>receiveIECByte\<close>): \<open>canWrite()\<close>; when it is positive, the
  received byte goes to \<open>write()\<close>; then the device's \<open>task()\<close>. The list of
  \<open>canWrite()\<close> results ends with the first that is not positive.\<close>

fun listen_bytes :: "'u file_hooks \<Rightarrow> byte list \<Rightarrow> 'u fdev device \<Rightarrow> int list \<times> 'u fdev device" where
  "listen_bytes h [] d = ([], d)"
| "listen_bytes h (b # bs) d =
     (let (n, d1) = fd_canWrite h d in
      if n \<le> 0 then ([n], d1)
      else (let (ns, d2) = listen_bytes h bs (fd_task h (fd_write b False d1)) in (n # ns, d2)))"

text \<open>A channel that is being read: no command pending, and the look-ahead
  holds the next one or two bytes of \<open>ys\<close>, the rest of which the subclass
  still has to deliver (\<open>q\<close> says which bytes its state has left).\<close>

definition reading :: "('u \<Rightarrow> byte list) \<Rightarrow> byte list \<Rightarrow> 'u fdev \<Rightarrow> bool" where
  "reading q ys st \<longleftrightarrow>
     f_cmd st = IFD_NONE \<and> f_channel st < 15 \<and> fdev_wf st \<and>
     (case ys of [] \<Rightarrow> dlen st = 0
      | [y] \<Rightarrow> dlen st = 1 \<and> dbuf st ! 0 = y
      | y1 # y2 # zs \<Rightarrow> dlen st = 2 \<and> dbuf st ! 0 = y1 \<and> dbuf st ! 1 = y2 \<and> q (f_user st) = zs)"

section \<open>Lemmas\<close>

subsection \<open>Channel buffers and well-formedness\<close>

lemma set_dlen_sel [simp]:
  "f_channel (set_dlen v st) = f_channel st" "f_cmd (set_dlen v st) = f_cmd st" "f_user (set_dlen v st) = f_user st"
  "f_data (set_dlen v st) = f_data st" "f_canServeATN (set_dlen v st) = f_canServeATN st"
  "f_opening (set_dlen v st) = f_opening st" "length (f_dataLen (set_dlen v st)) = length (f_dataLen st)"
  "dbuf (set_dlen v st) = dbuf st"
  by (simp_all add: set_dlen_def dbuf_def)

lemma set_dbuf_sel [simp]:
  "f_channel (set_dbuf i v st) = f_channel st" "f_cmd (set_dbuf i v st) = f_cmd st" "f_user (set_dbuf i v st) = f_user st"
  "f_dataLen (set_dbuf i v st) = f_dataLen st" "f_canServeATN (set_dbuf i v st) = f_canServeATN st"
  "f_opening (set_dbuf i v st) = f_opening st" "length (f_data (set_dbuf i v st)) = length (f_data st)"
  "dlen (set_dbuf i v st) = dlen st"
  by (simp_all add: set_dbuf_def dlen_def)

lemma dlen_set_dlen [simp]: "unat (f_channel st) < length (f_dataLen st) \<Longrightarrow> dlen (set_dlen v st) = v"
  by (simp add: dlen_def set_dlen_def)

lemma dbuf_set_dbuf [simp]: "unat (f_channel st) < length (f_data st) \<Longrightarrow> dbuf (set_dbuf i v st) = (dbuf st)[i := v]"
  by (simp add: dbuf_def set_dbuf_def)

lemma set_dlen_set_dlen [simp]: "set_dlen v (set_dlen w st) = set_dlen v st"
  by (simp add: set_dlen_def)

lemma fdev_upd_sel [simp]:
  "dlen (st\<lparr>f_user := u\<rparr>) = dlen st" "dbuf (st\<lparr>f_user := u\<rparr>) = dbuf st"
  "dlen (st\<lparr>f_cmd := c\<rparr>) = dlen st" "dbuf (st\<lparr>f_cmd := c\<rparr>) = dbuf st"
  "set_dlen v (st\<lparr>f_user := u\<rparr>) = (set_dlen v st)\<lparr>f_user := u\<rparr>"
  "set_dbuf i b (st\<lparr>f_user := u\<rparr>) = (set_dbuf i b st)\<lparr>f_user := u\<rparr>"
  by (simp_all add: dlen_def dbuf_def set_dlen_def set_dbuf_def)

lemma fileTask_none: "f_cmd (dev d) = IFD_NONE \<Longrightarrow> fileTask h d = d"
  by (simp add: fileTask_def)

lemma fileTask_cmd [simp]: "f_cmd (dev (fileTask h d)) = IFD_NONE"
  by (simp add: fileTask_def Let_def split: prod.splits)

lemma fileTask_idem: "fileTask h (fileTask h d) = fileTask h d"
  by (rule fileTask_none) simp

lemma fdev_wf_upd [simp]:
  "fdev_wf (set_dlen v st) = fdev_wf st" "fdev_wf (st\<lparr>f_user := u\<rparr>) = fdev_wf st"
  "fdev_wf (st\<lparr>f_cmd := c\<rparr>) = fdev_wf st" "fdev_wf (st\<lparr>f_channel := ch\<rparr>) = fdev_wf st"
  by (simp_all add: fdev_wf_def set_dlen_def)

lemma fdev_wf_chan:
  assumes "fdev_wf st" "f_channel st < 15"
  shows "unat (f_channel st) < length (f_dataLen st)" "unat (f_channel st) < length (f_data st)"
    "length (dbuf st) = 2"
proof -
  have c: "unat (f_channel st) < 15" using assms(2) by (simp add: word_less_nat_alt)
  then show "unat (f_channel st) < length (f_dataLen st)" "unat (f_channel st) < length (f_data st)"
    using assms(1) by (simp_all add: fdev_wf_def)
  show "length (dbuf st) = 2"
    using assms(1) c by (simp add: fdev_wf_def dbuf_def list_all_length)
qed

lemma fdev_wf_set_dbuf [simp]: "fdev_wf (set_dbuf i b st) = fdev_wf st"
proof (cases "unat (f_channel st) < length (f_data st)")
  case True
  then show ?thesis
    by (auto simp: fdev_wf_def set_dbuf_def dbuf_def list_all_length nth_list_update)
next
  case False
  then show ?thesis by (simp add: fdev_wf_def set_dbuf_def list_update_beyond)
qed

lemma read_into_q:
  assumes "\<And>u. h_read h ch 1 u = (take 1 (q u), nx u)" "f_channel st = ch"
  shows "read_into h i st = (case q (f_user st) of [] \<Rightarrow> (False, st\<lparr>f_user := nx (f_user st)\<rparr>)
                              | y # _ \<Rightarrow> (True, set_dbuf i y (st\<lparr>f_user := nx (f_user st)\<rparr>)))"
  using assms by (simp add: read_into_def cnt_def split: list.split)

subsection \<open>Reading a channel\<close>

lemma canRead_reading:
  assumes "reading q ys (dev d)"
  shows "fd_canRead h d = (int (min 2 (length ys)), d)"
proof -
  have "f_cmd (dev d) = IFD_NONE" "f_channel (dev d) \<noteq> 15"
    using assms by (auto simp: reading_def)
  moreover have "dlen (dev d) = int (min 2 (length ys))"
    using assms by (auto simp: reading_def split: list.splits)
  ultimately show ?thesis by (simp add: fd_canRead_def fileTask_none)
qed

lemma canRead_open:
  assumes wf: "fdev_wf (dev d)" and ch: "f_channel (dev d) < 15"
    and cmd: "f_cmd (dev d) = IFD_NONE" and neg: "dlen (dev d) = -1"
    and rd: "\<And>u. h_read h (f_channel (dev d)) 1 u = (take 1 (q u), nx u)"
    and nq: "\<And>u. q (nx u) = drop 1 (q u)"
  shows "\<exists>d'. fd_canRead h d = (int (min 2 (length (q (f_user (dev d))))), d') \<and>
              reading q (q (f_user (dev d))) (dev d')"
proof -
  note c = fdev_wf_chan[OF wf ch]
  have base: "fd_canRead h d =
      (let (ok1, st1) = read_into h 0 (dev d) in
       if \<not> ok1 then (0, d\<lparr>dev := set_dlen 0 st1\<rparr>)
       else (let (ok2, st2) = read_into h 1 st1 in
             if \<not> ok2 then (1, d\<lparr>dev := set_dlen 1 st2\<rparr>) else (2, d\<lparr>dev := set_dlen 2 st2\<rparr>)))"
  proof -
    have ft: "fileTask h d = d" and c15: "f_channel (dev d) \<noteq> 15"
      using cmd ch by (simp_all add: fileTask_none)
    show ?thesis unfolding fd_canRead_def Let_def ft using c15 neg by simp
  qed
  show ?thesis
  proof (cases "q (f_user (dev d))")
    case Nil
    then show ?thesis using wf ch cmd c
      by (simp add: base read_into_q[OF rd] reading_def)
  next
    case (Cons y1 zs)
    note qd = this
    let ?st1 = "set_dbuf 0 y1 ((dev d)\<lparr>f_user := nx (f_user (dev d))\<rparr>)"
    have wf1: "fdev_wf ?st1" using wf ch by simp
    have r1: "read_into h 0 (dev d) = (True, ?st1)"
      using Cons by (simp add: read_into_q[OF rd])
    have q1: "q (f_user ?st1) = zs" using Cons nq by simp
    show ?thesis
    proof (cases zs)
      case Nil
      then show ?thesis using Cons wf1 ch cmd c r1 q1
        by (simp add: base reading_def fdev_wf_chan read_into_q[OF rd])
    next
      case (Cons y2 zs')
      then show ?thesis using qd wf1 ch cmd c r1 q1 nq
        by (simp add: base reading_def fdev_wf_chan nth_list_update read_into_q[OF rd])
    qed
  qed
qed

lemma fileTask_read:
  "f_cmd (dev d) = IFD_READ \<Longrightarrow>
   fileTask h d = (let (ok, st1) = read_into h (nat (dlen (dev d))) (dev d)
                   in d\<lparr>dev := (if ok then set_dlen (dlen st1 + 1) st1 else st1)\<lparr>f_cmd := IFD_NONE\<rparr>\<rparr>)"
  by (simp add: fileTask_def Let_def split: prod.split)

lemma read_reading:
  assumes r: "reading q (y # ys) (dev d)"
    and rd: "\<And>u. h_read h (f_channel (dev d)) 1 u = (take 1 (q u), nx u)"
    and nq: "\<And>u. q (nx u) = drop 1 (q u)"
  shows "fst (fd_read d) = y \<and> reading q ys (dev (fileTask h (snd (fd_read d))))"
proof -
  have wf: "fdev_wf (dev d)" and ch: "f_channel (dev d) < 15" and cmd: "f_cmd (dev d) = IFD_NONE"
    using r by (simp_all add: reading_def)
  note c = fdev_wf_chan[OF wf ch]
  have c15: "f_channel (dev d) \<noteq> 15" using ch by simp
  show ?thesis
  proof (cases ys)
    case Nil
    then show ?thesis using r c c15 by (simp add: reading_def fd_read_def fileTask_none)
  next
    case (Cons y2 zs)
    let ?st1 = "(set_dlen 1 (set_dbuf 0 y2 (dev d)))\<lparr>f_cmd := IFD_READ\<rparr>"
    have rd1: "fd_read d = (y, d\<lparr>dev := ?st1\<rparr>)"
      using r Cons c c15 by (simp add: reading_def fd_read_def)
    have wf1: "fdev_wf ?st1" using wf ch by simp
    have q1: "q (f_user ?st1) = zs" "dlen ?st1 = 1" "dbuf ?st1 ! 0 = y2"
      using r Cons c by (simp_all add: reading_def nth_list_update)
    show ?thesis
    proof (cases zs)
      case Nil
      then show ?thesis using Cons rd1 wf1 q1 ch c
        by (simp add: reading_def fileTask_read read_into_q[OF rd])
    next
      case (Cons z zs')
      then show ?thesis using \<open>ys = y2 # zs\<close> rd1 wf1 q1 ch c nq
        by (simp add: reading_def fileTask_read read_into_q[OF rd] nth_list_update)
    qed
  qed
qed

lemma fileTask_channel [simp]: "f_channel (dev (fileTask h d)) = f_channel (dev d)"
  by (simp add: fileTask_def Let_def epyxLoadRequest_def set_flags_def read_into_def set_dlen_def
                set_dbuf_def split: prod.splits)

lemma fd_read_channel [simp]: "f_channel (dev (snd (fd_read d))) = f_channel (dev d)"
  by (simp add: fd_read_def Let_def)

lemma fd_task_channel [simp]: "f_channel (dev (fd_task h d)) = f_channel (dev d)"
  by (simp add: fd_task_def)

lemma canRead_settle:
  "(f_canServeATN (dev d) \<longrightarrow> f_cmd (dev d) = IFD_NONE) \<Longrightarrow> fd_canRead h d = fd_canRead h (fileTask h d)"
  by (cases "f_canServeATN (dev d)")
     (simp_all add: fileTask_none fileTask_idem fd_canRead_def[of h d] fd_canRead_def[of h "fileTask h d"])

lemma fd_task_settle:
  "fileTask h (fd_task h d) = fileTask h d \<and> (f_canServeATN (dev (fd_task h d)) \<longrightarrow> f_cmd (dev (fd_task h d)) = IFD_NONE)"
  by (simp add: fd_task_def fileTask_idem)

lemma read_into_channel [simp]: "f_channel (snd (read_into h i st)) = f_channel st"
  by (simp add: read_into_def Let_def split: prod.split)

lemma fd_canRead_channel [simp]: "f_channel (dev (snd (fd_canRead h d))) = f_channel (dev d)"
proof -
  have "f_channel (dev (snd (fd_canRead h d))) = f_channel (dev (if f_canServeATN (dev d) then d else fileTask h d))"
    by (simp add: fd_canRead_def Let_def case_prod_beta)
  then show ?thesis by simp
qed

lemma canRead_fd_task: "fd_canRead h (fd_task h d) = fd_canRead h (fileTask h d)"
  using canRead_settle[OF conjunct2[OF fd_task_settle[of h d]], of h] fd_task_settle[of h d] by simp

lemma zip_counts:
  "zip (replicate (length (y # ys) - 1) 2 @ [1]) (y # ys) =
   (int (min 2 (length (y # ys))), y) # zip (replicate (length ys - 1) (2::int) @ [1]) ys"
  by (cases ys) auto

lemma talk_bytes_step:
  "fd_canRead h d = (n, d1) \<Longrightarrow> 0 < n \<Longrightarrow> fd_read d1 = (b, d2) \<Longrightarrow>
   fst (talk_bytes h (Suc k) d) = (n, b) # fst (talk_bytes h k (fd_task h d2))"
  by (simp split: prod.split)

lemma talk_bytes_from:
  assumes "fd_canRead h d = (int (min 2 (length ys)), d1)" "reading q ys (dev d1)"
    and "f_channel (dev d1) = ch"
    and rd: "\<And>u. h_read h ch 1 u = (take 1 (q u), nx u)"
    and nq: "\<And>u. q (nx u) = drop 1 (q u)"
  shows "fst (talk_bytes h (Suc (length ys)) d) = zip (replicate (length ys - 1) 2 @ [1]) ys"
  using assms(1-3)
proof (induction ys arbitrary: d d1)
  case Nil
  then show ?case by simp
next
  case (Cons y ys)
  obtain b d2 where rd1: "fd_read d1 = (b, d2)" by fastforce
  have step: "b = y" "reading q ys (dev (fileTask h d2))"
    using read_reading[OF Cons.prems(2) rd[folded Cons.prems(3)] nq] rd1 by simp_all
  have ch2: "f_channel (dev (fileTask h d2)) = ch" using fd_read_channel[of d1] rd1 Cons.prems(3) by simp
  have cr: "fd_canRead h (fd_task h d2) = (int (min 2 (length ys)), fileTask h d2)"
    using step(2) by (simp add: canRead_fd_task canRead_reading)
  have ih: "fst (talk_bytes h (Suc (length ys)) (fd_task h d2)) = zip (replicate (length ys - 1) 2 @ [1]) ys"
    by (rule Cons.IH[OF cr step(2) ch2])
  have pos: "0 < int (min 2 (length (y # ys)))" by simp
  show ?case
    unfolding talk_bytes_step[OF Cons.prems(1) pos rd1] step(1) zip_counts
    unfolding length_Cons ih ..
qed

lemma fileTask_open:
  "f_cmd (dev d) = IFD_OPEN \<Longrightarrow>
   fileTask h d = d\<lparr>dev := (set_dlen (-1) ((dev d)\<lparr>f_user := h_open h (f_channel (dev d)) (cstr (f_name (dev d))) (f_user (dev d))\<rparr>))\<lparr>f_cmd := IFD_NONE\<rparr>\<rparr>"
  by (simp add: fileTask_def Let_def)

text \<open>C15: Reading a file. After \<open>OPEN\<close> on a data channel, with a subclass whose
  \<open>read(channel, buf, 1)\<close> hands out the file's bytes one at a time, the rounds of
  \<open>canRead()\<close>, \<open>read()\<close> and the device's \<open>task()\<close> deliver exactly the file's
  bytes in order; \<open>canRead()\<close> answers 2 while more than one byte is left and 1
  for the last, which makes the bus handler send EOI with it, and the round
  after the last byte stops because \<open>canRead()\<close> is 0. This holds whether the
  look-ahead is refilled by the device's \<open>task()\<close> or by the next \<open>canRead()\<close>.\<close>

theorem file_read_stream:
  assumes wf: "fdev_wf (dev d)" and ch: "f_channel (dev d) < 15" and cmd: "f_cmd (dev d) = IFD_OPEN"
    and opn: "q (h_open h (f_channel (dev d)) (cstr (f_name (dev d))) (f_user (dev d))) = xs"
    and rd: "\<And>u. h_read h (f_channel (dev d)) 1 u = (take 1 (q u), nx u)"
    and nq: "\<And>u. q (nx u) = drop 1 (q u)"
  shows "fst (talk_bytes h (Suc (length xs)) (fd_task h d)) = zip (replicate (length xs - 1) 2 @ [1]) xs"
proof -
  let ?d0 = "fileTask h d"
  have o: "fdev_wf (dev ?d0)" "f_channel (dev ?d0) < 15" "f_cmd (dev ?d0) = IFD_NONE" "dlen (dev ?d0) = -1"
    "q (f_user (dev ?d0)) = xs"
    using wf ch cmd opn fdev_wf_chan[OF wf ch] by (simp_all add: fileTask_open)
  obtain d1 where d1: "fd_canRead h ?d0 = (int (min 2 (length xs)), d1)" "reading q xs (dev d1)"
    using canRead_open[OF o(1-4) rd[folded fileTask_channel[of h d]] nq] o(5) by auto
  have cr: "fd_canRead h (fd_task h d) = (int (min 2 (length xs)), d1)"
    using d1(1) by (simp add: canRead_fd_task)
  have "f_channel (dev d1) = f_channel (dev d)"
    using fd_canRead_channel[of h ?d0] d1(1) by simp
  then show ?thesis using talk_bytes_from[OF cr d1(2) _ rd nq] by simp
qed

subsection \<open>Writing a channel\<close>

lemma fileTask_write:
  "f_cmd (dev d) = IFD_WRITE \<Longrightarrow>
   fileTask h d = (let (nn, u) = h_write h (f_channel (dev d)) (take 1 (dbuf (dev d))) (f_user (dev d));
                       st1 = (dev d)\<lparr>f_user := u\<rparr>
                   in d\<lparr>dev := (if nn = 1 then set_dlen 0 st1 else st1)\<lparr>f_cmd := IFD_NONE\<rparr>\<rparr>)"
  by (simp add: fileTask_def Let_def split: prod.split)

lemma canWrite_settled:
  assumes "f_canServeATN (dev d) \<longrightarrow> f_cmd (dev d) = IFD_NONE"
  shows "fd_canWrite h d =
           (if f_opening (dev (fileTask h d)) \<or> f_channel (dev (fileTask h d)) = 15 \<or> dlen (dev (fileTask h d)) < 1
            then 1 else 0, fileTask h d)"
  using assms by (cases "f_canServeATN (dev d)") (simp_all add: fd_canWrite_def fileTask_none Let_def)

lemma fd_write_data:
  "f_channel (dev d) < 15 \<Longrightarrow> \<not> f_opening (dev d) \<Longrightarrow>
   fd_write b e d = d\<lparr>dev := (set_dlen 1 (set_dbuf 0 b (dev d)))\<lparr>f_cmd := IFD_WRITE\<rparr>\<rparr>"
  by (simp add: fd_write_def Let_def)

lemma write_step:
  assumes "fdev_wf (dev d)" "f_channel (dev d) < 15" "\<not> f_opening (dev d)"
    and wr: "h_write h (f_channel (dev d)) [b] (f_user (dev d)) = (1, u')"
  shows "fileTask h (fd_write b e d) = d\<lparr>dev := (set_dlen 0 (set_dbuf 0 b (dev d)))\<lparr>f_user := u', f_cmd := IFD_NONE\<rparr>\<rparr>"
proof -
  note c = fdev_wf_chan[OF assms(1,2)]
  have "take 1 (dbuf (set_dbuf 0 b (dev d))) = [b]"
    using c by (cases "dbuf (dev d)") simp_all
  then show ?thesis
    using assms c by (simp add: fd_write_data fileTask_write) (simp add: set_dlen_def set_dbuf_def)
qed

lemma fd_write_channel [simp]: "f_channel (dev (fd_write b e d)) = f_channel (dev d)"
  by (simp add: fd_write_def Let_def set_dlen_def set_dbuf_def)

lemma listen_bytes_from:
  assumes "fdev_wf (dev (fileTask h d))" "f_channel (dev d) = ch" "ch < 15"
    and "\<not> f_opening (dev (fileTask h d))" "dlen (dev (fileTask h d)) \<le> 0"
    and "f_canServeATN (dev d) \<longrightarrow> f_cmd (dev d) = IFD_NONE"
    and wr: "\<And>b u. h_write h ch [b] u = (1, app u b)"
  shows "fst (listen_bytes h bs d) = replicate (length bs) 1 \<and>
         f_user (dev (fileTask h (snd (listen_bytes h bs d)))) = foldl app (f_user (dev (fileTask h d))) bs"
  using assms(1-6)
proof (induction bs arbitrary: d)
  case Nil
  then show ?case by simp
next
  case (Cons b bs)
  let ?d1 = "fileTask h d"
  have ch1: "f_channel (dev ?d1) = ch" using Cons.prems(2) by simp
  have cw: "fd_canWrite h d = (1, ?d1)"
    using canWrite_settled[OF Cons.prems(6), of h] Cons.prems(5) by simp
  let ?d2 = "?d1\<lparr>dev := (set_dlen 0 (set_dbuf 0 b (dev ?d1)))\<lparr>f_user := app (f_user (dev ?d1)) b, f_cmd := IFD_NONE\<rparr>\<rparr>"
  have ws: "fileTask h (fd_write b False ?d1) = ?d2"
    using write_step[OF Cons.prems(1) _ Cons.prems(4)] ch1 Cons.prems(3) wr by simp
  let ?d3 = "fd_task h (fd_write b False ?d1)"
  have ft3: "fileTask h ?d3 = ?d2" by (simp only: conjunct1[OF fd_task_settle] ws)
  have c: "unat (f_channel (dev ?d1)) < length (f_dataLen (dev ?d1))"
    using fdev_wf_chan(1)[OF Cons.prems(1)] ch1 Cons.prems(3) by simp
  have ih: "fst (listen_bytes h bs ?d3) = replicate (length bs) 1 \<and>
            f_user (dev (fileTask h (snd (listen_bytes h bs ?d3)))) = foldl app (f_user (dev ?d2)) bs"
    using Cons.IH[of ?d3] ft3 fd_task_settle[of h "fd_write b False ?d1"] Cons.prems(1,3,4) ch1 c
    by simp
  show ?case using cw ih by (simp add: case_prod_beta)
qed

text \<open>C16: Writing a file. After \<open>OPEN\<close> on a data channel, with a subclass
  whose \<open>write(channel, buf, 1)\<close> takes every byte, the rounds of \<open>canWrite()\<close>,
  \<open>write()\<close> and \<open>task()\<close> accept every byte (\<open>canWrite()\<close> is 1 each time), and
  once the last pending write has been carried out the subclass has received
  all bytes in order.\<close>

theorem file_write_stream:
  assumes wf: "fdev_wf (dev d)" and ch: "f_channel (dev d) < 15" and cmd: "f_cmd (dev d) = IFD_OPEN"
    and op: "\<not> f_opening (dev d)"
    and wr: "\<And>b u. h_write h (f_channel (dev d)) [b] u = (1, app u b)"
  shows "fst (listen_bytes h bs (fd_task h d)) = replicate (length bs) 1 \<and>
         f_user (dev (fileTask h (snd (listen_bytes h bs (fd_task h d))))) =
           foldl app (h_open h (f_channel (dev d)) (cstr (f_name (dev d))) (f_user (dev d))) bs"
proof -
  have o: "fdev_wf (dev (fileTask h (fd_task h d)))" "\<not> f_opening (dev (fileTask h (fd_task h d)))"
    "dlen (dev (fileTask h (fd_task h d))) \<le> 0"
    "f_user (dev (fileTask h (fd_task h d))) = h_open h (f_channel (dev d)) (cstr (f_name (dev d))) (f_user (dev d))"
    using wf ch cmd op fdev_wf_chan[OF wf ch] by (simp_all add: conjunct1[OF fd_task_settle] fileTask_open)
  show ?thesis
    using listen_bytes_from[OF o(1) fd_task_channel ch o(2,3) conjunct2[OF fd_task_settle] wr, of bs] o(4)
    by simp
qed

text \<open>C17: A byte the subclass does not take blocks the channel: the next
  \<open>canWrite()\<close> answers 0, so the handler stops the transfer (DeviceRefused),
  and the refused byte stays in the channel's look-ahead (its length 1, its
  first byte the refused one) instead of being overwritten or dropped.\<close>

theorem file_write_refused:
  assumes wf: "fdev_wf (dev d)" and ch: "f_channel (dev d) < 15" and cmd: "f_cmd (dev d) = IFD_NONE"
    and op: "\<not> f_opening (dev d)" and dl: "dlen (dev d) \<le> 0"
    and no: "fst (h_write h (f_channel (dev d)) [b] (f_user (dev d))) \<noteq> 1"
  shows "fst (listen_bytes h (b # c # bs) d) = [1, 0] \<and>
         dlen (dev (snd (listen_bytes h (b # c # bs) d))) = 1 \<and>
         dbuf (dev (snd (listen_bytes h (b # c # bs) d))) ! 0 = b"
proof -
  note cc = fdev_wf_chan[OF wf ch]
  have cw: "fd_canWrite h d = (1, d)"
    using canWrite_settled[of d h] cmd dl by (simp add: fileTask_none)
  obtain nn u' where hw: "h_write h (f_channel (dev d)) [b] (f_user (dev d)) = (nn, u')" "nn \<noteq> 1"
    using no by (cases "h_write h (f_channel (dev d)) [b] (f_user (dev d))") auto
  have tk: "take 1 (dbuf (set_dbuf 0 b (dev d))) = [b]"
    using cc by (cases "dbuf (dev d)") simp_all
  let ?d3 = "fd_task h (fd_write b False d)"
  have st: "dlen (dev (fileTask h ?d3)) = 1" "dbuf (dev (fileTask h ?d3)) ! 0 = b"
    "f_channel (dev (fileTask h ?d3)) \<noteq> 15" "\<not> f_opening (dev (fileTask h ?d3))"
    using hw tk cc ch op by (simp_all add: conjunct1[OF fd_task_settle] fd_write_data fileTask_write)
  have "fd_canWrite h ?d3 = (0, fileTask h ?d3)"
    using canWrite_settled[OF conjunct2[OF fd_task_settle[of h "fd_write b False d"]], of h] st by simp
  then show ?thesis using cw st by (simp add: case_prod_beta)
qed

subsection \<open>The shape of the object\<close>

lemma fdev_wf_fields [simp]:
  "fdev_wf (st\<lparr>f_opening := op\<rparr>) = fdev_wf st" "fdev_wf (st\<lparr>f_canServeATN := c\<rparr>) = fdev_wf st"
  "fdev_wf (st\<lparr>f_epyxCtr := e\<rparr>) = fdev_wf st" "fdev_wf (st\<lparr>f_statusPtr := p\<rparr>) = fdev_wf st"
  "fdev_wf (st\<lparr>f_statusLen := l\<rparr>) = fdev_wf st"
  by (simp_all add: fdev_wf_def)

lemma status_fill_length: "length old = 32 \<Longrightarrow> length (status_fill old gs) = 32"
  by (simp add: status_fill_def)

lemma fdev_wf_status [simp]:
  "length (f_status st) = 32 \<Longrightarrow> length s = 32 \<Longrightarrow> fdev_wf (st\<lparr>f_status := s\<rparr>) = fdev_wf st"
  by (simp add: fdev_wf_def)

lemma fdev_wf_status_len: "fdev_wf st \<Longrightarrow> length (f_status st) = 32"
  by (simp add: fdev_wf_def)

lemma read_into_wf [simp]: "fdev_wf (snd (read_into h i st)) = fdev_wf st"
  by (simp add: read_into_def Let_def case_prod_beta)

lemma fileTask_wf: "fdev_wf (dev d) \<Longrightarrow> fdev_wf (dev (fileTask h d))"
  by (simp add: fileTask_def Let_def case_prod_beta)

lemma fd_canRead_wf:
  assumes "fdev_wf (dev d)"
  shows "fdev_wf (dev (snd (fd_canRead h d)))"
proof -
  have "fdev_wf (dev (fileTask h d))" by (rule fileTask_wf[OF assms])
  then show ?thesis using assms fdev_wf_status_len[OF assms]
    by (simp add: fd_canRead_def Let_def case_prod_beta status_fill_length fdev_wf_status_len)
qed

lemma fd_read_wf: "fdev_wf (dev d) \<Longrightarrow> fdev_wf (dev (snd (fd_read d)))"
  by (simp add: fd_read_def Let_def)

lemma fd_canWrite_wf: "fdev_wf (dev d) \<Longrightarrow> fdev_wf (dev (snd (fd_canWrite h d)))"
  using fileTask_wf[of d h] by (simp add: fd_canWrite_def Let_def)

lemma fd_write_wf:
  assumes "fdev_wf (dev d)"
  shows "fdev_wf (dev (fd_write b e d))"
proof (cases "f_channel (dev d) < 15 \<and> \<not> f_opening (dev d)")
  case True
  then show ?thesis using assms by (simp add: fd_write_def Let_def)
next
  case False
  then show ?thesis using assms by (auto simp: fd_write_def Let_def fdev_wf_def)
qed

lemma rb_buffered_wf: "fdev_wf st \<Longrightarrow> fdev_wf (snd (snd (rb_buffered n res out st)))"
proof (induction n res out st rule: rb_buffered.induct)
  case (1 n res out st)
  then show ?case by (subst rb_buffered.simps) simp
qed

lemma rb_hook_wf: "fdev_wf st \<Longrightarrow> fdev_wf (snd (snd (rb_hook h k n res out st)))"
  by (induction k arbitrary: res out st) (simp_all add: Let_def case_prod_beta)

lemma fd_read_block_wf: "fdev_wf (dev d) \<Longrightarrow> fdev_wf (dev (snd (fd_read_block h n d)))"
  by (simp add: fd_read_block_def case_prod_beta rb_hook_wf rb_buffered_wf)

lemma fd_write_block_wf: "fdev_wf (dev d) \<Longrightarrow> fdev_wf (dev (snd (fd_write_block h bs e d)))"
  by (simp add: fd_write_block_def Let_def case_prod_beta)

lemma fd_listen_wf: "fdev_wf (dev d) \<Longrightarrow> fdev_wf (dev (fd_listen sec d))"
  by (simp add: fd_listen_def Let_def fdev_wf_def)

lemma fd_unlisten_wf: "fdev_wf (dev d) \<Longrightarrow> fdev_wf (dev (fd_unlisten d))"
  by (simp add: fd_unlisten_def Let_def fdev_wf_def)

lemma fd_begin_wf: "fdev_wf (dev d) \<Longrightarrow> fdev_wf (dev (fd_begin bs sv d))"
  by (simp add: fd_begin_def Let_def fdev_wf_def enableJiffyDosSupport_def enableEpyxFastLoadSupport_def)

lemma fd_reset_wf: "fdev_wf (dev d) \<Longrightarrow> fdev_wf (dev (fd_reset d))"
  by (simp add: fd_reset_def fdev_wf_def)

lemma fd_task_wf: "fdev_wf (dev d) \<Longrightarrow> fdev_wf (dev (fd_task h d))"
  by (simp add: fd_task_def fileTask_wf)

lemma fd_talk_wf: "fdev_wf (dev d) \<Longrightarrow> fdev_wf (dev (fd_talk sec d))"
  by (simp add: fd_talk_def)

lemma fdev_wf_IECFileDevice: "fdev_wf (dev (IECFileDevice p n u))"
  by (simp add: IECFileDevice_def fdev_wf_def list_all_iff)

lemma devnr_fileTask [simp]: "devnr (fileTask h d) = devnr d"
  by (simp add: fileTask_def Let_def epyxLoadRequest_def case_prod_beta)

lemma devnr_fd_canRead [simp]: "devnr (snd (fd_canRead h d)) = devnr d"
  by (simp add: fd_canRead_def Let_def case_prod_beta)

lemma file_ops_keep_devnr: "ops_keep_devnr (file_ops h bsz sv)"
  by (simp add: ops_keep_devnr_def file_ops_def fd_begin_def fd_reset_def fd_task_def
                fd_listen_def fd_unlisten_def fd_talk_def fd_canWrite_def fd_read_def
                fd_read_block_def fd_write_def fd_write_block_def
                enableJiffyDosSupport_def enableEpyxFastLoadSupport_def Let_def case_prod_beta)

text \<open>C18: The shape of the object is kept by every method the bus handler
  calls: the arrays keep their declared lengths, every channel buffer keeps
  its two bytes, and the fill level of the name buffer stays within 0..40, so
  the writes \<open>m_nameBuffer[m_nameBufferLen]\<close> of \<open>write()\<close> and \<open>unlisten()\<close>
  stay inside its 41 bytes.\<close>

theorem file_ops_wf:
  assumes "fdev_wf (dev d)"
  shows "fdev_wf (dev (dev_begin (file_ops h bsz sv) d)) \<and> fdev_wf (dev (dev_reset (file_ops h bsz sv) d)) \<and>
         fdev_wf (dev (dev_task (file_ops h bsz sv) d)) \<and> fdev_wf (dev (dev_listen (file_ops h bsz sv) sec d)) \<and>
         fdev_wf (dev (dev_unlisten (file_ops h bsz sv) d)) \<and> fdev_wf (dev (dev_talk (file_ops h bsz sv) sec d)) \<and>
         fdev_wf (dev (dev_untalk (file_ops h bsz sv) d)) \<and>
         fdev_wf (dev (snd (dev_canWrite (file_ops h bsz sv) d))) \<and>
         fdev_wf (dev (snd (dev_canRead (file_ops h bsz sv) d))) \<and>
         fdev_wf (dev (dev_write (file_ops h bsz sv) b e d)) \<and>
         fdev_wf (dev (snd (dev_write_block (file_ops h bsz sv) bs e d))) \<and>
         fdev_wf (dev (snd (dev_read (file_ops h bsz sv) d))) \<and>
         fdev_wf (dev (snd (dev_read_block (file_ops h bsz sv) n d)))"
  using assms
  by (simp add: file_ops_def fd_begin_wf fd_reset_wf fd_task_wf fd_listen_wf fd_unlisten_wf fd_talk_wf
                fd_canWrite_wf fd_canRead_wf fd_write_wf fd_write_block_wf fd_read_wf fd_read_block_wf)

subsection \<open>The command channel\<close>

lemma fd_task_none: "f_cmd (dev d) = IFD_NONE \<Longrightarrow> fd_task h d = d"
  by (simp add: fd_task_def fileTask_none)

lemma canRead_status_pending:
  assumes "f_channel (dev d) = 15" "f_cmd (dev d) = IFD_NONE" "f_statusPtr (dev d) \<noteq> f_statusLen (dev d)"
  shows "fd_canRead h d = (f_statusLen (dev d) - f_statusPtr (dev d), d)"
  using assms by (simp add: fd_canRead_def fileTask_none Let_def)

lemma talk_status_from:
  assumes "fd_canRead h d = (int k, d1)" "f_channel (dev d1) = 15" "f_cmd (dev d1) = IFD_NONE"
    and "f_statusLen (dev d1) = int (length (cstr (f_status (dev d1))))"
    and "f_statusPtr (dev d1) = int (length (cstr (f_status (dev d1))) - k)"
    and "k \<le> length (cstr (f_status (dev d1)))"
  shows "fst (talk_bytes h k d) =
           zip (map int (rev [1..<Suc k])) (drop (length (cstr (f_status (dev d1))) - k) (cstr (f_status (dev d1))))"
  using assms
proof (induction k arbitrary: d d1)
  case 0
  then show ?case by simp
next
  case (Suc k)
  let ?m = "cstr (f_status (dev d1))"
  let ?p = "length ?m - Suc k"
  let ?d2 = "d1\<lparr>dev := (dev d1)\<lparr>f_statusPtr := f_statusPtr (dev d1) + 1\<rparr>\<rparr>"
  have p: "?p < length ?m" using Suc.prems(6) by simp
  have rd: "fd_read d1 = (?m ! ?p, ?d2)"
    using Suc.prems(2,5) p by (simp add: fd_read_def cstr_def takeWhile_nth Let_def)
  have tk: "fd_task h ?d2 = ?d2" using Suc.prems(3) by (simp add: fd_task_none)
  have dr: "drop ?p ?m = ?m ! ?p # drop (length ?m - k) ?m"
    using p Cons_nth_drop_Suc[OF p] Suc.prems(6) by (simp add: Suc_diff_Suc)
  have rest: "fst (talk_bytes h k ?d2) = zip (map int (rev [1..<Suc k])) (drop (length ?m - k) ?m)"
  proof (cases k)
    case 0
    then show ?thesis by simp
  next
    case (Suc j)
    have "fd_canRead h ?d2 = (int k, ?d2)"
      using canRead_status_pending[of ?d2 h] Suc.prems(2-6) \<open>k = Suc j\<close> by simp
    then show ?thesis using Suc.IH[of ?d2 ?d2] Suc.prems(2-6) by simp
  qed
  have pos: "0 < int (Suc k)" by simp
  show ?case
    unfolding talk_bytes_step[OF Suc.prems(1) pos rd] tk rest dr by simp
qed

text \<open>C19: Reading the command channel. When the status buffer has been read
  to its end, \<open>canRead()\<close> on channel 15 asks the subclass for a new status
  text; the rounds that follow deliver that text (up to its first zero byte)
  in order, \<open>canRead()\<close> counting the bytes left down to 1 for the last.\<close>

theorem file_status_stream:
  assumes ch: "f_channel (dev d) = 15" and cmd: "f_cmd (dev d) = IFD_NONE"
    and ex: "f_statusPtr (dev d) = f_statusLen (dev d)"
    and gs: "h_getStatus h 31 (f_user (dev d)) = (gs, u')"
  shows "fst (talk_bytes h (length (cstr (status_fill (f_status (dev d)) gs))) d) =
           zip (map int (rev [1..<Suc (length (cstr (status_fill (f_status (dev d)) gs)))]))
               (cstr (status_fill (f_status (dev d)) gs))"
proof -
  let ?b = "status_fill (f_status (dev d)) gs"
  let ?d1 = "d\<lparr>dev := (dev d)\<lparr>f_user := u', f_status := ?b, f_statusLen := int (length (cstr ?b)), f_statusPtr := 0\<rparr>\<rparr>"
  have "fd_canRead h d = (int (length (cstr ?b)), ?d1)"
    using ch cmd ex gs by (simp add: fd_canRead_def fileTask_none Let_def)
  from talk_status_from[OF this] ch cmd show ?thesis by simp
qed

subsection \<open>Block reads\<close>

lemma cnt_unat: "length bs \<le> 255 \<Longrightarrow> unat (cnt bs) = length bs"
  by (simp add: cnt_def unat_of_nat)

lemma unat_succ_less:
  assumes "res < (n::byte)"
  shows "unat (res + 1) = Suc (unat res)"
proof -
  have "unat n < 2 ^ LENGTH(8)" by (rule unsigned_less)
  then have "unat res + unat (1::byte) < 2 ^ LENGTH(8)" using assms by (simp add: word_less_nat_alt)
  then show ?thesis using unat_add_lem[of res 1] by simp
qed

lemma take_chunk:
  assumes "g \<le> N"
  shows "take g Q @ take (N - length (take g Q)) (drop g Q) = take N Q"
proof (cases "g \<le> length Q")
  case True
  then show ?thesis using assms take_add[of g "N - g" Q] by (simp add: min_def)
next
  case False
  then show ?thesis using assms by simp
qed

lemma look_shift:
  assumes "length xs = 2" "0 < L" "L \<le> 2"
  shows "take (nat L) xs = xs ! 0 # take (nat (L - 1)) (xs[0 := xs ! 1])"
proof -
  obtain a b where xs: "xs = [a, b]"
    using assms(1) by (cases xs; cases "tl xs") auto
  have "L = 1 \<or> L = 2" using assms(2,3) by arith
  then show ?thesis using xs by auto
qed

text \<open>The look-ahead loop hands out the buffered bytes \<open>take (dlen) (dbuf)\<close>, as
  many as fit.\<close>

lemma rb_buffered_stream:
  "fdev_wf st \<Longrightarrow> f_channel st < 15 \<Longrightarrow> dlen st \<le> 2 \<Longrightarrow> res \<le> n \<Longrightarrow>
   fst (snd (rb_buffered n res out st)) = out @ take (unat n - unat res) (take (nat (dlen st)) (dbuf st)) \<and>
   unat (fst (rb_buffered n res out st)) = unat res + min (unat n - unat res) (length (take (nat (dlen st)) (dbuf st))) \<and>
   fst (rb_buffered n res out st) \<le> n \<and>
   f_user (snd (snd (rb_buffered n res out st))) = f_user st \<and>
   f_channel (snd (snd (rb_buffered n res out st))) = f_channel st"
proof (induction n res out st rule: rb_buffered.induct)
  case (1 n res out st)
  note c = fdev_wf_chan[OF "1.prems"(1,2)]
  show ?case
  proof (cases "dlen st > 0 \<and> res < n")
    case True
    let ?st = "set_dlen (dlen st - 1) (set_dbuf 0 (dbuf st ! 1) st)"
    have eq: "rb_buffered n res out st = rb_buffered n (res + 1) (out @ [dbuf st ! 0]) ?st"
      using True by (subst rb_buffered.simps) simp
    have st: "fdev_wf ?st" "f_channel ?st < 15" "dlen ?st \<le> 2" "res + 1 \<le> n"
      "dlen ?st = dlen st - 1" "dbuf ?st = (dbuf st)[0 := dbuf st ! 1]"
      using "1.prems" c True by (simp_all add: inc_le)
    have u: "unat (res + 1) = Suc (unat res)" using True unat_succ_less by blast
    have lk: "take (nat (dlen st)) (dbuf st) = dbuf st ! 0 # take (nat (dlen ?st)) (dbuf ?st)"
      using look_shift[OF c(3)] True "1.prems"(3) st(5,6) by simp
    have n0: "unat n - unat res = Suc (unat n - unat (res + 1))"
      using u True by (simp add: word_less_nat_alt Suc_diff_Suc)
    show ?thesis using "1.IH"[OF True st(1-4)] st(4) unfolding eq lk n0 by (simp add: u)
  next
    case False
    then have eq: "rb_buffered n res out st = (res, out, st)" by (subst rb_buffered.simps) auto
    have "unat n - unat res = 0 \<or> nat (dlen st) = 0"
      using False by (auto simp: word_less_nat_alt word_le_nat_alt not_less)
    then show ?thesis using "1.prems"(4) unfolding eq by auto
  qed
qed

text \<open>The hook loop: a subclass that hands out the next bytes of its file
  \<open>q\<close>, at least one while there are any and never more than asked for, in
  chunks whose sizes \<open>g\<close> it chooses.\<close>

lemma rb_hook_stream:
  assumes g: "\<And>m u. 0 < m \<Longrightarrow> 0 < g m u \<and> g m u \<le> unat m"
    and hr: "\<And>m u. h_read h ch m u = (take (g m u) (q u), nx (g m u) u)"
    and nq: "\<And>k u. q (nx k u) = drop k (q u)"
  shows "f_channel st = ch \<Longrightarrow> unat n - unat res \<le> k \<Longrightarrow> res \<le> n \<Longrightarrow>
         fst (snd (rb_hook h k n res out st)) = out @ take (unat n - unat res) (q (f_user st))"
proof (induction k arbitrary: res out st)
  case 0
  then have "unat n - unat res = 0" by simp
  then show ?case by simp
next
  case (Suc k)
  show ?case
  proof (cases "res < n")
    case False
    then have "unat n - unat res = 0" using Suc.prems(3) by (simp add: word_le_nat_alt not_less)
    then show ?thesis using False by simp
  next
    case True
    let ?u = "f_user st" let ?G = "g (n - res) (f_user st)"
    obtain bs u' where r: "h_read h (f_channel st) (n - res) ?u = (bs, u')" by fastforce
    have bs: "bs = take ?G (q ?u)" "u' = nx ?G ?u" using r hr Suc.prems(1) by simp_all
    have um: "unat (n - res) = unat n - unat res" using True by (simp add: unat_sub order.strict_implies_order)
    have m: "0 < n - res" using True um by (simp add: word_less_nat_alt)
    have G: "0 < ?G" "?G \<le> unat n - unat res" using g[OF m, of ?u] um by simp_all
    show ?thesis
    proof (cases "q ?u = []")
      case True
      then show ?thesis using \<open>res < n\<close> r bs by (simp add: cnt_def Let_def)
    next
      case False
      have l: "0 < length bs" "length bs \<le> unat n - unat res" using G False bs by auto
      have "unat (n - res) < 2 ^ LENGTH(8)" by (rule unsigned_less)
      then have c: "unat (cnt bs) = length bs" using l um by (simp add: cnt_unat)
      have c0: "cnt bs \<noteq> 0" using c l by (metis less_numeral_extra(3) unat_0)
      have nb: "unat n < 2 ^ LENGTH(8)" by (rule unsigned_less)
      have "unat res + unat (cnt bs) < 2 ^ LENGTH(8)"
        using c l nb True by (simp add: word_less_nat_alt)
      then have sum: "unat (res + cnt bs) = unat res + length bs"
        using unat_add_lem[of res "cnt bs"] c by simp
      have rn: "unat res < unat n" using True by (simp add: word_less_nat_alt)
      have le: "res + cnt bs \<le> n" using sum l rn by (simp add: word_le_nat_alt)
      have fuel: "unat n - unat (res + cnt bs) \<le> k" using Suc.prems(2) sum l(1) by linarith
      have step: "rb_hook h (Suc k) n res out st = rb_hook h k n (res + cnt bs) (out @ bs) (st\<lparr>f_user := u'\<rparr>)"
        using True r c0 c by (simp add: Let_def)
      have ih: "fst (snd (rb_hook h k n (res + cnt bs) (out @ bs) (st\<lparr>f_user := u'\<rparr>))) =
                (out @ bs) @ take (unat n - unat (res + cnt bs)) (q u')"
        using Suc.IH[of "st\<lparr>f_user := u'\<rparr>" "res + cnt bs" "out @ bs"] Suc.prems(1) fuel le by simp
      have "bs @ take (unat n - unat res - length bs) (drop ?G (q ?u)) = take (unat n - unat res) (q ?u)"
        unfolding bs(1) by (rule take_chunk[OF G(2)])
      then show ?thesis unfolding step ih using sum nq bs(2) by (simp add: diff_add_eq_diff_diff_swap)
    qed
  qed
qed

text \<open>C20: \<open>read(buffer, bufferSize)\<close> returns the bytes still in the channel's
  look-ahead followed by the file's next bytes, as many as fit into the
  buffer or as the file has left, for a subclass that hands out its file in
  chunks of its own choosing (at least one byte while there are any, never
  more than asked for): its hook loop, bounded by \<open>bufferSize\<close> rounds, is not
  cut short, and the byte count \<open>res\<close> does not wrap around.\<close>

theorem read_block_stream:
  assumes wf: "fdev_wf (dev d)" and ch: "f_channel (dev d) < 15" and dl: "dlen (dev d) \<le> 2"
    and g: "\<And>m u. 0 < m \<Longrightarrow> 0 < g m u \<and> g m u \<le> unat m"
    and hr: "\<And>m u. h_read h (f_channel (dev d)) m u = (take (g m u) (q u), nx (g m u) u)"
    and nq: "\<And>k u. q (nx k u) = drop k (q u)"
  shows "fst (fd_read_block h n d) =
           take (unat n) (take (nat (dlen (dev d))) (dbuf (dev d)) @ q (f_user (dev d)))"
proof -
  let ?look = "take (nat (dlen (dev d))) (dbuf (dev d))"
  obtain res1 out1 st1 where b: "rb_buffered n 0 [] (dev d) = (res1, out1, st1)"
    by (cases "rb_buffered n 0 [] (dev d)") auto
  have bb: "out1 = take (unat n) ?look" "unat res1 = min (unat n) (length ?look)" "res1 \<le> n"
    "f_user st1 = f_user (dev d)" "f_channel st1 = f_channel (dev d)"
    using rb_buffered_stream[OF wf ch dl, of 0 n "[]"] b by simp_all
  have "fst (snd (rb_hook h (unat n) n res1 out1 st1)) = out1 @ take (unat n - unat res1) (q (f_user st1))"
    using rb_hook_stream[OF g hr nq, of st1 n res1 "unat n" out1] bb by simp
  moreover have "unat n - unat res1 = unat n - length ?look" using bb(2) by (simp add: min_def)
  ultimately show ?thesis using b bb by (simp add: fd_read_block_def case_prod_beta take_append)
qed

end
