(* ===== verification/Spec2Isabelle.thy ===== *)
theory Spec2Isabelle
  imports IEC_Receive IEC_Transmit IEC_Atn IEC_Jiffy IEC_Epyx Scheduler File_Device
begin

text \<open>
  \<^bold>\<open>A verification library for the IEC serial bus handler of commodore-printer.\<close>

  The program (src/IECBasicSerial) lets an Arduino act as one or more devices
  on the Commodore IEC serial bus. \<open>IECBusHandler\<close> (IECBusHandler.cpp/.h)
  drives the three open-collector lines ATN, CLK and DATA: it receives the
  bus master's commands under ATN, and as listener or talker moves data bytes
  between the master and the attached \<open>IECDevice\<close> objects, with the
  JiffyDOS and Epyx FastLoad protocols as options (IECConfig.h). Devices are
  reached through virtual methods.

  \<^bold>\<open>Execution model.\<close> Every routine is a function of the handler's state
  (theory \<open>IEC_State\<close>: the object's fields as a record, the devices as a
  list, \<open>m_currentDevice\<close> as the address of the device it points to). The
  other parties on the bus are a trace of samples, one per microsecond; reading
  a pin reads the current sample combined with the handler's own output
  (open collector: a line is high only when nobody pulls it low); each busy-wait
  iteration consumes one microsecond (\<open>tick\<close>), advances the 32-bit
  \<open>micros()\<close> counter with wrap-around and logs the handler's CLK and DATA
  outputs in \<open>wire\<close>. Past the end of the trace the bus is idle. A wait with no
  timeout is a function into \<open>option\<close>: \<open>None\<close> is a wait that never ends (on
  the idle bus) and also a call through a null \<open>m_currentDevice\<close>. The
  timing abstraction (one sample per loop iteration) is the one assumption
  of the model that the code does not state.

  \<^bold>\<open>Theories.\<close>
  \<^item> \<open>IEC_Prelude\<close>: bytes and words, the LSB-first shift register.
  \<^item> \<open>IEC_Device\<close>: a device (\<open>m_devnr\<close>, \<open>m_sflags\<close>, its own state) and the
    record \<open>dev_ops\<close> of its virtual methods; the \<open>S_*\<close> flags.
  \<^item> \<open>IEC_State\<close>: the handler state, the \<open>P_*\<close> flags, the constructor.
  \<^item> \<open>Bus_Lines\<close>: \<open>readPin*\<close>, \<open>writePin*\<close>, \<open>waitTimeoutFrom\<close>,
    \<open>waitTimeout\<close>, \<open>waitPinCLK\<close>, \<open>waitPinDATA\<close> (IECBusHandler.cpp lines
    192--308) and the lemmas that say how a wait consumes the trace.
  \<^item> \<open>Device_Table\<close>: \<open>findDevice\<close>, \<open>attachDevice\<close>, \<open>detachDevice\<close>,
    \<open>begin\<close>, \<open>canServeATN\<close> (lines 377--471), calls through
    \<open>m_currentDevice\<close>, and the refinement of the table by a map from
    addresses to devices. A device carries its object address \<open>oid\<close>, the
    pointer \<open>detachDevice\<close> compares (devices are looked up by bus address,
    but detached by identity).
  \<^item> \<open>IEC_Host\<close>: the bus master's side of a standard frame and a listener's
    decoder of the handler's wire output, used to state the round trips.
  \<^item> \<open>IEC_Receive\<close>: \<open>receiveIECByte\<close> (lines 1792--1930).
  \<^item> \<open>IEC_Transmit\<close>: \<open>transmitIECByte\<close> (lines 1934--2006).
  \<^item> \<open>IEC_Atn\<close>: \<open>atnRequest\<close> (lines 2011--2045) and the rising edge of ATN
    in \<open>task()\<close> (lines 2082--2155).
  \<^item> \<open>IEC_Jiffy\<close>, \<open>IEC_Epyx\<close>: the JiffyDOS byte and block routines and the
    Epyx FastLoad routines, on the timer macros of the 32-bit platforms.
  \<^item> \<open>Frame\<close>: what every byte routine leaves alone (flags, the table's
    addresses, the configuration) given that the device methods keep
    \<open>m_devnr\<close> (\<open>ops_keep_devnr\<close>), and that waits only let time pass.
  \<^item> \<open>Scheduler\<close>: \<open>task()\<close> (lines 2048--2440) as the composition of its
    parts, the ATN interrupt routine, and a step relation \<open>sched_step\<close> over
    \<open>begin()\<close>, \<open>task()\<close>, the interrupt, attach/detach and idle time, with
    the handler invariant proved for every reachable state by rule induction.
  \<^item> \<open>File_Device\<close>: \<open>IECFileDevice\<close> (IECFileDevice.cpp/.h): its state as a
    record, the subclass's hooks (\<open>open\<close>, \<open>read\<close>, \<open>write\<close>, ...) as a
    record of functions over the subclass's own state, every method the bus
    handler calls, \<open>fileTask()\<close>, and \<open>file_ops\<close>, its \<open>dev_ops\<close> table. It is
    the implementation side of the device interface: \<open>file_ops_keep_devnr\<close>
    discharges the assumption the handler's lemmas make of a device.
    \<open>talk_bytes\<close> and \<open>listen_bytes\<close> are what the device sees of the
    handler's talk and listen loops (canRead/read/task and canWrite/write/task).
  \<^item> This theory: a probe device that logs the calls it receives, a small
    file device, and concrete runs of the theorems.

  \<^bold>\<open>Results.\<close> A frame sent by the master within the protocol's timing
  windows is received by \<open>receiveIECByte\<close>, handed to the device with the
  right EOI flag and acknowledged; \<open>transmitIECByte\<close> puts on the wire exactly
  the standard frame of the byte the device returned; the JiffyDOS and Epyx
  byte routines round-trip against the computer side's sampling offsets.
  The device table refines a finite map; \<open>detachDevice\<close> removes only the
  object it is given, never another one with the same address. Under ATN the rising edge selects
  listener and talker as the spec says, with the divergences listed in the
  manifest. Every reachable state of the scheduler keeps the handler
  invariant. The file device delivers an opened file's bytes in order with
  EOI on the last, passes written bytes to the subclass in order, blocks a
  channel whose subclass refuses a byte, delivers the status text on
  channel 15, keeps its arrays and the name buffer's fill level within
  bounds under every method, and answers a block read with the look-ahead
  bytes followed by the file's next bytes, as many as fit, within the hook
  loop's bound.

  \<^bold>\<open>Bounds and fuel.\<close> Waits recurse on the trace, whose length bounds
  them; \<open>talk_bytes\<close> and \<open>listen_bytes\<close> take the number of rounds (for a
  file of \<open>n\<close> bytes, \<open>n + 1\<close> rounds: the last sees \<open>canRead() = 0\<close>);
  the hook loop of \<open>read(buffer, bufferSize)\<close> gets \<open>bufferSize\<close> rounds, as
  each round that does not end it delivers at least one byte.

  \<^bold>\<open>Not modelled.\<close> The DolphinDOS protocol and the Epyx sector operations
  (compiled out by IECConfig.h), the pin and port register macros, the
  \<open>IECDevice\<close> base class (not part of src/, modelled from its use), and the
  debug output. Interrupts are taken between calls of \<open>task()\<close>, not while
  a device's \<open>canRead()\<close>/\<open>canWrite()\<close> blocks.
\<close>

section \<open>A probe device\<close>

text \<open>A device personality that logs every call the bus handler makes to it and
  answers \<open>read()\<close> from a queue; the concrete runs below use it.\<close>

datatype probe_call = PBegin | PReset | PTask | PListen byte | PUnlisten | PTalk byte | PUntalk
  | PPrimary byte | PSecondary byte | PWrite byte bool | PRead

record probe =
  calls :: "probe_call list"
  outq :: "byte list"

definition plog :: "probe_call \<Rightarrow> probe device \<Rightarrow> probe device" where
  "plog c d = d\<lparr>dev := (dev d)\<lparr>calls := calls (dev d) @ [c]\<rparr>\<rparr>"

definition probe_read :: "probe device \<Rightarrow> byte \<times> probe device" where
  "probe_read d =
     (case outq (dev d) of
        [] \<Rightarrow> (0, plog PRead d)
      | b # bs \<Rightarrow> (b, plog PRead (d\<lparr>dev := (dev d)\<lparr>outq := bs\<rparr>\<rparr>)))"

definition probe_ops :: "probe dev_ops" where
  "probe_ops =
     \<lparr>dev_begin = plog PBegin, dev_reset = plog PReset, dev_task = plog PTask,
      dev_listen = \<lambda>a. plog (PListen a), dev_unlisten = plog PUnlisten,
      dev_talk = \<lambda>a. plog (PTalk a), dev_untalk = plog PUntalk,
      dev_primary_address = \<lambda>a. plog (PPrimary a), dev_secondary_address = \<lambda>a. plog (PSecondary a),
      dev_canWrite = \<lambda>d. (1, d), dev_canRead = \<lambda>d. (int (length (outq (dev d))), d),
      dev_write = \<lambda>b e. plog (PWrite b e),
      dev_write_block = \<lambda>bs e d. (of_nat (length bs), foldl (\<lambda>d b. plog (PWrite b e) d) d bs),
      dev_read = probe_read,
      dev_read_block = \<lambda>n d. (take (unat n) (outq (dev d)), d\<lparr>dev := (dev d)\<lparr>outq := drop (unat n) (outq (dev d))\<rparr>\<rparr>),
      dev_peek = \<lambda>d. (case outq (dev d) of [] \<Rightarrow> 0 | b # _ \<Rightarrow> b)\<rparr>"

definition probe_dev :: "byte \<Rightarrow> probe device" where
  "probe_dev n = \<lparr>oid = unat n, devnr = n, sflags = 0, dev = \<lparr>calls = [], outq = [0x41, 0x42]\<rparr>\<rparr>"

abbreviation probe8 :: "probe device" where "probe8 \<equiv> probe_dev 8"

text \<open>The handler after \<open>begin()\<close> with the probe attached as device 8 and selected,
  on the bus trace \<open>env\<close>.\<close>

definition probe_state :: "sample list \<Rightarrow> probe iec" where
  "probe_state env = (IECBusHandler 0xFF 0xFF True env)\<lparr>flags := 0, currentDevice := Some 8, devices := [probe8]\<rparr>"

definition rx_env :: "sample list" where
  "rx_env = host_byte True 5 (replicate 8 (3, 3)) 0x5A @ [hsample True False True]"

definition tx_env :: "sample list" where
  "tx_env = replicate 3 (hsample True True False) @ replicate 1130 (hsample True True True) @ [hsample True True False]"

definition atn_state :: "byte \<Rightarrow> byte \<Rightarrow> probe device list \<Rightarrow> probe iec" where
  "atn_state fl p ds = (probe_state [])\<lparr>flags := fl, primary := p, secondary := 0x60, devices := ds\<rparr>"

definition jrx_env :: "sample list" where
  "jrx_env = replicate 2 (hsample True False True) @ jiffy_frame 0x5A True @ []"

definition jtx_env :: "sample list" where
  "jtx_env = replicate 2 (hsample True True False) @ replicate 63 (hsample True True True) @ [hsample True True False]"

definition etx_env :: "sample list" where
  "etx_env = replicate 2 (hsample True True False) @ replicate (49 + 3) (hsample True True True) @ [hsample True True False]"

definition erx_env :: "sample list" where
  "erx_env = epyx_host_byte (replicate 8 2) 0x5A @ []"

text \<open>A short life of the handler: the probe attached as device 8, \<open>begin()\<close>,
  one call of \<open>task()\<close> on the idle bus and one microsecond.\<close>

definition run_state :: "probe iec" where
  "run_state = tick (the (task probe_ops (handler_begin probe_ops
     (snd (attachDevice probe_ops probe8 (IECBusHandler 0xFF 0xFF True []))))))"

section \<open>A file device\<close>

text \<open>A subclass of \<open>IECFileDevice\<close> whose state is the byte list of the open
  file: \<open>open\<close> loads the file \<^verbatim>\<open>ABC\<close>, \<open>read\<close> hands out its first bytes,
  \<open>write\<close> appends, \<open>getStatus\<close> answers \<^verbatim>\<open>00, OK\<close>. \<open>fdemo_full\<close> is the same
  subclass with a full disk: \<open>write\<close> takes nothing.\<close>

definition fdemo_hooks :: "byte list file_hooks" where
  "fdemo_hooks = default_hooks
     \<lparr>h_open := \<lambda>ch name u. [0x41, 0x42, 0x43],
      h_write := \<lambda>ch bs u. (of_nat (length bs), u @ bs),
      h_read := \<lambda>ch n u. (take (unat n) u, drop (unat n) u),
      h_getStatus := \<lambda>n u. ([0x30, 0x30, 0x2C, 0x20, 0x4F, 0x4B], u)\<rparr>"

definition fdemo_full :: "byte list file_hooks" where
  "fdemo_full = fdemo_hooks\<lparr>h_write := \<lambda>ch bs u. (0, u)\<rparr>"

text \<open>The same subclass reading its file one byte per call, and device 8 on
  channel 2 with the two bytes \<^verbatim>\<open>AB\<close> in the look-ahead and \<^verbatim>\<open>CDE\<close> left
  in the file.\<close>

definition fdemo_trickle :: "byte list file_hooks" where
  "fdemo_trickle = fdemo_hooks\<lparr>h_read := \<lambda>ch m u. (take 1 u, drop 1 u)\<rparr>"

definition fdemo_look :: "byte list fdev device" where
  "fdemo_look = (IECFileDevice 1 8 [0x43, 0x44, 0x45])\<lparr>dev := (dev (IECFileDevice 1 8 [0x43, 0x44, 0x45]))
     \<lparr>f_channel := 2, f_dataLen := [0, 0, 2] @ replicate 12 0,
      f_data := [[0, 0], [0, 0], [0x41, 0x42]] @ replicate 12 [0, 0]\<rparr>\<rparr>"

text \<open>Device 8 right after \<open>unlisten()\<close> of an \<open>OPEN\<close> on channel 2, and the
  same device on channel 2 and on channel 15 with nothing pending.\<close>

definition fdemo_open :: "byte list fdev device" where
  "fdemo_open = (IECFileDevice 1 8 [])\<lparr>dev := (dev (IECFileDevice 1 8 []))\<lparr>f_channel := 2, f_cmd := IFD_OPEN\<rparr>\<rparr>"

definition fdemo_chan :: "byte \<Rightarrow> byte list fdev device" where
  "fdemo_chan ch = (IECFileDevice 1 8 [])\<lparr>dev := (dev (IECFileDevice 1 8 []))\<lparr>f_channel := ch\<rparr>\<rparr>"

section \<open>Concrete runs\<close>

theorem receiveIECByte_roundtrip_witness:
  "\<not> under_atn (probe_state rx_env) \<and> clkOut (probe_state rx_env) \<and>
   currentDevice (probe_state rx_env) = Some 8 \<and> findDevice 8 (devices (probe_state rx_env)) = Some probe8 \<and>
   bus (probe_state rx_env) = host_byte True 5 (replicate 8 (3, 3)) 0x5A @ [hsample True False True] \<and>
   \<not> s_clk (hsample True False True) \<and> s_atn (hsample True False True) \<and>
   length (replicate 8 (3::nat, 3::nat)) = 8 \<and> timing_ok (replicate 8 (3, 3)) \<and> (5::nat) \<le> 200 \<and>
   (\<exists>s'. receiveIECByte probe_ops True (probe_state rx_env) = Some (True, s') \<and>
         bus s' = [hsample True False True] \<and> \<not> dataOut s' \<and>
         devices s' = update_device 8 (dev_write probe_ops 0x5A (200 < (5::nat))) (devices (probe_state rx_env)))"
  using IEC_Receive.receiveIECByte_roundtrip[where s = "probe_state rx_env" and n = 8 and d = probe8 and
      k = 5 and ts = "replicate 8 (3, 3)" and b = "0x5A" and z = "hsample True False True" and rest = "[]" and ops = probe_ops]
  by (simp add: probe_state_def IECBusHandler_def rx_env_def timing_ok_def probe_dev_def)

theorem transmitIECByte_wire_witness:
  "\<not> under_atn (probe_state tx_env) \<and> dataOut (probe_state tx_env) \<and>
   currentDevice (probe_state tx_env) = Some 8 \<and> findDevice 8 (devices (probe_state tx_env)) = Some probe8 \<and>
   bus (probe_state tx_env) = replicate (Suc 2) (hsample True True False) @
      replicate (1120 + 10) (hsample True True True) @ hsample True True False # [] \<and>
   (2::byte) \<noteq> 0 \<and> (2::byte) \<noteq> 1 \<and> (10::nat) \<le> 1000 \<and>
   (\<exists>s'. transmitIECByte probe_ops 2 (probe_state tx_env) = Some (True, s') \<and>
      wire s' = wire (probe_state tx_env) @ replicate (Suc 2) (True, True) @ talker_bits (fst (dev_read probe_ops probe8)) @
               replicate 10 (False, True) \<and>
      devices s' = update_device 8 (\<lambda>_. snd (dev_read probe_ops probe8)) (devices (probe_state tx_env)) \<and>
      bus s' = hsample True True False # [])"
  using IEC_Transmit.transmitIECByte_wire[where s = "probe_state tx_env" and n = 8 and d = probe8 and
      j = 2 and m = 10 and rest = "[]" and numData = 2 and ops = probe_ops]
  by (simp add: probe_state_def IECBusHandler_def tx_env_def probe_dev_def)

theorem attachDevice_refines_witness:
  "table_ok (devices (probe_state [])) \<and> (\<forall>x. devnr (dev_begin probe_ops x) = devnr x) \<and>
   attachDevice probe_ops (probe_dev 9) (probe_state []) =
     (fst (attachDevice probe_ops (probe_dev 9) (probe_state [])), snd (attachDevice probe_ops (probe_dev 9) (probe_state []))) \<and>
   (let b = fst (attachDevice probe_ops (probe_dev 9) (probe_state []));
        s' = snd (attachDevice probe_ops (probe_dev 9) (probe_state [])); s = probe_state [] in
    table_ok (devices s') \<and>
    (b \<longleftrightarrow> card (dom (table_abs (devices s))) < MAX_DEVICES \<and> devnr (probe_dev 9) \<notin> dom (table_abs (devices s))) \<and>
    table_abs (devices s') =
      (if b then (table_abs (devices s))(devnr (probe_dev 9) \<mapsto>
          (if flags s \<noteq> 0xFF then dev_begin probe_ops else id) (clear_flags transient_flags (probe_dev 9)))
       else table_abs (devices s)))"
proof -
  have h: "table_ok (devices (probe_state []))" "\<And>x. devnr (dev_begin probe_ops x) = devnr x"
    by (simp_all add: probe_state_def IECBusHandler_def probe_dev_def table_ok_def probe_ops_def plog_def)
  show ?thesis
    unfolding Let_def
    using h Device_Table.attachDevice_refines[OF h surjective_pairing, of "probe_dev 9"] surjective_pairing by blast
qed

theorem detachDevice_refines_witness:
  "table_ok (devices (probe_state [])) \<and>
   fst (detachDevice probe8 (probe_state [])) \<and>
   table_abs (devices (snd (detachDevice probe8 (probe_state [])))) = (table_abs (devices (probe_state [])))(8 := None) \<and>
   \<not> fst (detachDevice (probe8\<lparr>oid := 99\<rparr>) (probe_state [])) \<and>
   snd (detachDevice (probe8\<lparr>oid := 99\<rparr>) (probe_state [])) = probe_state []"
proof -
  have h: "table_ok (devices (probe_state []))"
    by (simp add: probe_state_def IECBusHandler_def probe_dev_def table_ok_def)
  have o: "oid ` set (devices (probe_state [])) = {8}"
    by (simp add: probe_state_def IECBusHandler_def probe_dev_def)
  note A = Device_Table.detachDevice_refines[OF h surjective_pairing, of probe8]
  note B = Device_Table.detachDevice_refines[OF h surjective_pairing, of "probe8\<lparr>oid := 99\<rparr>"]
  have "devnr e = 8" if "e \<in> set (devices (probe_state []))" for e
    using that by (simp add: probe_state_def IECBusHandler_def probe_dev_def)
  then show ?thesis using h o A B by (auto simp: probe_dev_def)
qed

theorem atn_release_listen_witness:
  "atn_state 0x80 0x28 [probe8] = atn_state 0x80 0x28 [probe8] \<and>
   primary (atn_state 0x80 0x28 [probe8]) AND 0xE0 = 0x20 \<and>
   findDevice (primary (atn_state 0x80 0x28 [probe8]) AND 0x1F) (devices (atn_state 0x80 0x28 [probe8])) = Some probe8 \<and>
   (\<exists>s'. atn_release probe_ops (atn_state 0x80 0x28 [probe8]) = Some s' \<and> \<not> under_atn s' \<and>
     flag_set P_LISTENING s' \<and> \<not> flag_set P_TALKING s' \<and> currentDevice s' = Some (devnr probe8) \<and>
     devices s' = update_device (devnr probe8) (dev_listen probe_ops (secondary (atn_state 0x80 0x28 [probe8])))
                    (devices (atn_state 0x80 0x28 [probe8])) \<and>
     \<not> dataOut s' \<and> clkOut s' = clkOut (atn_state 0x80 0x28 [probe8]) \<and> bus s' = bus (atn_state 0x80 0x28 [probe8]))"
  using IEC_Atn.atn_release_listen[where s = "atn_state 0x80 0x28 [probe8]" and d = probe8 and ops = probe_ops]
  by (simp add: atn_state_def probe_state_def IECBusHandler_def probe_dev_def)

theorem atn_release_unlisten_witness:
  "primary (atn_state 0xC0 0x3f [probe8]) = 0x3f \<and> flag_set P_LISTENING (atn_state 0xC0 0x3f [probe8]) \<and>
   findDevice 0x1F (devices (atn_state 0xC0 0x3f [probe8])) = None \<and>
   atn_release probe_ops (atn_state 0xC0 0x3f [probe8]) = Some (
     let s = atn_state 0xC0 0x3f [probe8];
         s1 = (writePinCTRL False s)\<lparr>flags := flags s AND NOT P_ATN AND NOT P_LISTENING, currentDevice := None,
                                     devices := map (dev_unlisten probe_ops) (devices s)\<rparr>
     in if flag_set P_TALKING s1 then s1 else writePinDATA True (writePinCLK True s1))"
  using IEC_Atn.atn_release_unlisten[where s = "atn_state 0xC0 0x3f [probe8]" and ops = probe_ops]
  by (simp add: atn_state_def probe_state_def IECBusHandler_def probe_dev_def)

theorem atnRequest_post_witness:
  "under_atn (atnRequest (probe_state [])) \<and> \<not> flag_set P_DONE (atnRequest (probe_state [])) \<and>
   currentDevice (atnRequest (probe_state [])) = None \<and> primary (atnRequest (probe_state [])) = 0 \<and>
   clkOut (atnRequest (probe_state [])) \<and> \<not> dataOut (atnRequest (probe_state [])) \<and>
   devices (atnRequest (probe_state [])) =
     [clear_flags (S_EPYX_HEADER OR S_EPYX_LOAD OR S_EPYX_SECTOROP) (clear_flags (S_JIFFY_DETECTED OR S_JIFFY_BLOCK) probe8)] \<and>
   \<not> has_flag (S_JIFFY_DETECTED OR S_JIFFY_BLOCK OR S_EPYX_HEADER OR S_EPYX_LOAD OR S_EPYX_SECTOROP)
       (clear_flags (S_EPYX_HEADER OR S_EPYX_LOAD OR S_EPYX_SECTOROP) (clear_flags (S_JIFFY_DETECTED OR S_JIFFY_BLOCK) probe8))"
proof -
  have ds: "devices (atnRequest (probe_state [])) =
     [clear_flags (S_EPYX_HEADER OR S_EPYX_LOAD OR S_EPYX_SECTOROP) (clear_flags (S_JIFFY_DETECTED OR S_JIFFY_BLOCK) probe8)]"
    by (simp add: atnRequest_sel probe_state_def IECBusHandler_def)
  show ?thesis
    using IEC_Atn.atnRequest_post[of "probe_state []"] ds by (simp only: list.set ball_simps simp_thms)
qed

theorem receiveJiffyByte_roundtrip_witness:
  "clkOut (probe_state jrx_env) \<and> currentDevice (probe_state jrx_env) = Some 8 \<and>
   findDevice 8 (devices (probe_state jrx_env)) = Some probe8 \<and>
   bus (probe_state jrx_env) = replicate 2 (hsample True False True) @ jiffy_frame 0x5A True @ [] \<and>
   (\<exists>s'. receiveJiffyByte probe_ops True (probe_state jrx_env) = Some (True, s') \<and>
      devices s' = update_device 8 (dev_write probe_ops 0x5A True) (devices (probe_state jrx_env)) \<and>
      bus s' = [] \<and> \<not> dataOut s')"
  using IEC_Jiffy.receiveJiffyByte_roundtrip[where s = "probe_state jrx_env" and n = 8 and d = probe8 and
      k = 2 and b = "0x5A" and eoi = True and rest = "[]" and ops = probe_ops]
  by (simp add: probe_state_def IECBusHandler_def jrx_env_def probe_dev_def)

theorem transmitJiffyByte_wire_witness:
  "\<not> under_atn (probe_state jtx_env) \<and> dataOut (probe_state jtx_env) \<and> (1::byte) < 2 \<and>
   currentDevice (probe_state jtx_env) = Some 8 \<and> findDevice 8 (devices (probe_state jtx_env)) = Some probe8 \<and>
   bus (probe_state jtx_env) = replicate 2 (hsample True True False) @ replicate 63 (hsample True True True) @
      hsample True True False # [] \<and>
   (\<exists>s'. transmitJiffyByte probe_ops 2 (probe_state jtx_env) = Some (True, s') \<and>
      jiffy_decode (drop (length (wire (probe_state jtx_env)) + 2) (wire s')) = dev_peek probe_ops probe8 \<and>
      drop (length (wire (probe_state jtx_env)) + 2) (wire s') ! 59 = (False, True) \<and>
      devices s' = update_device 8 (\<lambda>_. snd (dev_read probe_ops probe8)) (devices (probe_state jtx_env)) \<and>
      bus s' = hsample True True False # [])"
  using IEC_Jiffy.transmitJiffyByte_wire[where s = "probe_state jtx_env" and n = 8 and d = probe8 and
      j = 2 and numData = 2 and rest = "[]" and ops = probe_ops]
  by (simp add: probe_state_def IECBusHandler_def jtx_env_def probe_dev_def)

theorem transmitEpyxByte_wire_witness:
  "\<not> under_atn (probe_state etx_env) \<and> dataOut (probe_state etx_env) \<and>
   bus (probe_state etx_env) = replicate 2 (hsample True True False) @ replicate (49 + 3) (hsample True True True) @
      hsample True True False # [] \<and>
   (\<exists>s'. transmitEpyxByte 0x5A (probe_state etx_env) = Some (True, s') \<and>
      epyx_decode (drop (length (wire (probe_state etx_env)) + 2) (wire s')) = 0x5A \<and>
      bus s' = hsample True True False # [])"
  using IEC_Epyx.transmitEpyxByte_wire[where s = "probe_state etx_env" and j = 2 and m = 3 and rest = "[]" and b = "0x5A"]
  by (simp add: probe_state_def IECBusHandler_def etx_env_def)

theorem receiveEpyxByte_roundtrip_witness:
  "length (replicate 8 (2::nat)) = 8 \<and> bus (probe_state erx_env) = epyx_host_byte (replicate 8 2) 0x5A @ [] \<and>
   clkOut (probe_state erx_env) \<and> dataOut (probe_state erx_env) \<and> \<not> under_atn (probe_state erx_env) \<and>
   (\<exists>s'. receiveEpyxByte 0 (probe_state erx_env) = Some (Some 0x5A, s') \<and>
      bus s' = hsample True True (\<not> bit (0x5A::byte) 7) # [])"
  using IEC_Epyx.receiveEpyxByte_roundtrip[where s = "probe_state erx_env" and ts = "replicate 8 2" and b = "0x5A" and
      rest = "[]" and data = 0]
  by (simp add: probe_state_def IECBusHandler_def erx_env_def)

theorem epyx_send_name_writes_witness:
  "(\<forall>d. dev_canWrite probe_ops d = (1, d)) \<and> (\<forall>b e d. devnr (dev_write probe_ops b e d) = devnr d) \<and>
   currentDevice (probe_state []) = Some 8 \<and> findDevice 8 (devices (probe_state [])) = Some probe8 \<and> (3::nat) \<le> 3 \<and>
   epyx_send_name probe_ops 3 3 (probe_state []) =
     Some (True, (probe_state [])\<lparr>devices := update_device 8
        (\<lambda>_. foldl (\<lambda>d i. dev_write probe_ops (buffer (probe_state []) ! i) (i < 3 - 1) d) probe8 [3 - 3..<3])
        (devices (probe_state []))\<rparr>)"
proof -
  have h: "\<And>d. dev_canWrite probe_ops d = (1, d)" "\<And>b e d. devnr (dev_write probe_ops b e d) = devnr d"
    "currentDevice (probe_state []) = Some 8" "findDevice 8 (devices (probe_state [])) = Some probe8"
    by (simp_all add: probe_ops_def plog_def probe_state_def IECBusHandler_def probe_dev_def)
  show ?thesis
    using h IEC_Epyx.epyx_send_name_writes[OF h(1) h(2) h(3) h(4), of 3 3] by simp
qed

lemma devnr_foldl_plog: "devnr (foldl (\<lambda>d b. plog (c b) d) d bs) = devnr d"
  by (induction bs arbitrary: d) (simp_all add: plog_def)

lemma probe_ops_keep: "ops_keep_devnr probe_ops"
  by (simp add: ops_keep_devnr_def probe_ops_def devnr_foldl_plog) (simp add: plog_def probe_read_def split: list.splits)

lemma run_task: "\<exists>s'. task probe_ops (handler_begin probe_ops (snd (attachDevice probe_ops probe8 (IECBusHandler 0xFF 0xFF True [])))) = Some s'"
  by (simp add: task_def attachDevice_def IECBusHandler_def handler_begin_def probe_dev_def Let_def
     task_reset_def readPinRESET_def writePinCTRL_def task_atn_def readPinATN_def cur_sample_def idle_def
     epyx_task_dev_def has_flag_def probe_ops_def clear_flags_def plog_def task_receive_def task_transmit_def transient_flags_def)

lemma run_state_flags: "flags run_state = 8"
  by (simp add: run_state_def tick_def task_end_def task_def attachDevice_def IECBusHandler_def handler_begin_def probe_dev_def Let_def
     task_reset_def readPinRESET_def writePinCTRL_def task_atn_def readPinATN_def cur_sample_def idle_def
     epyx_task_dev_def has_flag_def probe_ops_def clear_flags_def plog_def task_receive_def task_transmit_def transient_flags_def)

theorem handler_reachable_inv_witness:
  "ops_keep_devnr probe_ops \<and>
   sched_steps probe_ops (IECBusHandler 0xFF 0xFF True []) [Attach probe8, Begin, Task, Idle] run_state \<and>
   length (devices run_state) \<le> MAX_DEVICES \<and> distinct (map devnr (devices run_state)) \<and>
   flags run_state = 8 \<and> \<not> (flag_set P_LISTENING run_state \<and> flag_set P_TALKING run_state) \<and>
   \<not> inTask run_state"
proof -
  let ?s0 = "IECBusHandler 0xFF 0xFF True [] :: probe iec"
  let ?s1 = "snd (attachDevice probe_ops probe8 ?s0)"
  obtain s3 where t: "task probe_ops (handler_begin probe_ops ?s1) = Some s3" using run_task by blast
  have steps: "sched_steps probe_ops ?s0 [Attach probe8, Begin, Task, Idle] run_state"
    unfolding run_state_def t option.sel
    by (intro sched_steps.cons[OF sched_step.attach[OF prod.collapse[symmetric]]]
              sched_steps.cons[OF sched_step.call_begin] sched_steps.cons[OF sched_step.task[OF t]]
              sched_steps.cons[OF sched_step.idle] sched_steps.nil)
  show ?thesis using Scheduler.handler_reachable_inv[OF probe_ops_keep steps] probe_ops_keep steps run_state_flags
    by simp
qed

section \<open>The file device at work\<close>

lemmas fdemo_defs = fdemo_open_def fdemo_chan_def fdemo_full_def fdemo_hooks_def IECFileDevice_def
  default_hooks_def fdev_wf_def list_all_iff

theorem file_read_stream_witness:
  "fst (talk_bytes fdemo_hooks 4 (fd_task fdemo_hooks fdemo_open)) = [(2, 0x41), (2, 0x42), (1, 0x43)]"
proof -
  have "fst (talk_bytes fdemo_hooks (Suc (length [0x41, 0x42, 0x43::byte])) (fd_task fdemo_hooks fdemo_open)) =
        zip (replicate (length [0x41, 0x42, 0x43::byte] - 1) 2 @ [1]) [0x41, 0x42, 0x43]"
    by (rule File_Device.file_read_stream[where q = id and nx = "drop 1"]) (simp_all add: fdemo_defs)
  then show ?thesis by (simp del: talk_bytes.simps add: numeral_eq_Suc)
qed

theorem file_write_stream_witness:
  "fst (listen_bytes fdemo_hooks [0x01, 0x08, 0x48, 0x49] (fd_task fdemo_hooks fdemo_open)) = [1, 1, 1, 1] \<and>
   f_user (dev (fileTask fdemo_hooks (snd (listen_bytes fdemo_hooks [0x01, 0x08, 0x48, 0x49] (fd_task fdemo_hooks fdemo_open))))) =
     [0x41, 0x42, 0x43, 0x01, 0x08, 0x48, 0x49]"
proof -
  have "fst (listen_bytes fdemo_hooks [0x01, 0x08, 0x48, 0x49] (fd_task fdemo_hooks fdemo_open)) =
          replicate (length [0x01, 0x08, 0x48, 0x49::byte]) 1 \<and>
        f_user (dev (fileTask fdemo_hooks (snd (listen_bytes fdemo_hooks [0x01, 0x08, 0x48, 0x49] (fd_task fdemo_hooks fdemo_open))))) =
          foldl (\<lambda>u b. u @ [b]) (h_open fdemo_hooks (f_channel (dev fdemo_open)) (cstr (f_name (dev fdemo_open))) (f_user (dev fdemo_open)))
            [0x01, 0x08, 0x48, 0x49]"
    by (rule File_Device.file_write_stream) (simp_all add: fdemo_defs)
  then show ?thesis by (simp del: listen_bytes.simps add: fdemo_defs)
qed

theorem file_write_refused_witness:
  "fst (listen_bytes fdemo_full [0x01, 0x08] (fdemo_chan 2)) = [1, 0] \<and>
   dlen (dev (snd (listen_bytes fdemo_full [0x01, 0x08] (fdemo_chan 2)))) = 1 \<and>
   dbuf (dev (snd (listen_bytes fdemo_full [0x01, 0x08] (fdemo_chan 2)))) ! 0 = 0x01"
  by (rule File_Device.file_write_refused) (simp_all add: fdemo_defs dlen_def)

theorem file_status_stream_witness:
  "fst (talk_bytes fdemo_hooks 6 (fdemo_chan 15)) =
     [(6, 0x30), (5, 0x30), (4, 0x2C), (3, 0x20), (2, 0x4F), (1, 0x4B)]"
proof -
  have "fst (talk_bytes fdemo_hooks (length (cstr (status_fill (f_status (dev (fdemo_chan 15))) [0x30, 0x30, 0x2C, 0x20, 0x4F, 0x4B]))) (fdemo_chan 15)) =
        zip (map int (rev [1..<Suc (length (cstr (status_fill (f_status (dev (fdemo_chan 15))) [0x30, 0x30, 0x2C, 0x20, 0x4F, 0x4B])))]))
            (cstr (status_fill (f_status (dev (fdemo_chan 15))) [0x30, 0x30, 0x2C, 0x20, 0x4F, 0x4B]))"
    by (rule File_Device.file_status_stream[where u' = "[]"]) (simp_all add: fdemo_defs)
  moreover have "cstr (status_fill (f_status (dev (fdemo_chan 15))) [0x30, 0x30, 0x2C, 0x20, 0x4F, 0x4B]) =
                 [0x30, 0x30, 0x2C, 0x20, 0x4F, 0x4B]"
    by (simp add: fdemo_chan_def IECFileDevice_def) code_simp
  ultimately show ?thesis by (simp del: talk_bytes.simps add: upt_rec numeral_eq_Suc)
qed

theorem file_ops_wf_witness:
  "fdev_wf (dev (dev_write (file_ops fdemo_hooks 128 False) 0x41 True (IECFileDevice 1 8 []))) \<and>
   fdev_wf (dev (dev_unlisten (file_ops fdemo_hooks 128 False) (IECFileDevice 1 8 [])))"
  using File_Device.file_ops_wf[OF fdev_wf_IECFileDevice[of 1 8 "[]"], where h = fdemo_hooks and bsz = 128
          and sv = False and b = "0x41" and e = True]
  by simp

theorem read_block_stream_witness:
  "fst (fd_read_block fdemo_trickle 4 fdemo_look) = [0x41, 0x42, 0x43, 0x44]"
proof -
  have "fst (fd_read_block fdemo_trickle 4 fdemo_look) =
        take (unat (4::byte)) (take (nat (dlen (dev fdemo_look))) (dbuf (dev fdemo_look)) @ id (f_user (dev fdemo_look)))"
    by (rule File_Device.read_block_stream[where g = "\<lambda>m u. 1" and q = id and nx = "\<lambda>k u. drop k u"])
       (simp_all add: fdemo_look_def fdemo_trickle_def fdemo_hooks_def IECFileDevice_def default_hooks_def
                      fdev_wf_def list_all_iff dlen_def dbuf_def unat_gt_0 Suc_le_eq)
  then show ?thesis by (simp add: fdemo_look_def IECFileDevice_def dlen_def dbuf_def)
qed

end
